theory Spec2Isabelle
  imports Complex_Main "HOL-Library.Monad_Syntax"
begin

section \<open>Numbers, points and strings\<close>

text \<open>
  A JavaScript number is modelled as a real. Under its own name a function of the source
  is read in exact arithmetic; with the suffix \<open>_fl\<close> it rounds every result as the
  arithmetic it is given does, which for IEEE doubles is \<open>f64\<close>. A division whose
  divisor is zero yields \<open>Infinity\<close>, \<open>-Infinity\<close> or \<open>NaN\<close> in the source; no real stands
  for these, so every function that divides returns an \<open>option\<close>, and \<open>None\<close> says that a
  division by zero happened and the outcome lies outside the model.

  The conversion of a number to text inside a template literal is a built-in of the
  language; it is the parameter \<open>fmt\<close> of every function that builds a string.
\<close>

record point =
  px :: real
  py :: real

text \<open>\<open>Array.prototype.slice\<close>: a negative index counts from the end, both indices are
  clamped to the array, and an empty range gives the empty array.\<close>

definition slice_index :: "nat \<Rightarrow> int \<Rightarrow> nat" where
  "slice_index len k = (if k < 0 then nat (max (int len + k) 0) else min (nat k) len)"

definition slice :: "'a list \<Rightarrow> int \<Rightarrow> int \<Rightarrow> 'a list" where
  "slice xs start end =
     (let from = slice_index (length xs) start;
          to = slice_index (length xs) end
      in take (to - from) (drop from xs))"

text \<open>\<open>xs.slice(start)\<close>: the end defaults to the length.\<close>

definition slice_from :: "'a list \<Rightarrow> int \<Rightarrow> 'a list" where
  "slice_from xs start = slice xs start (int (length xs))"

section \<open>Double arithmetic\<close>

text \<open>
  The source computes in IEEE 754 binary64. \<open>f64 x\<close> is the double nearest to \<open>x\<close>, a tie
  going to the even significand: the magnitude is scaled by the unit in the last place of
  its binade, rounded to an integer and scaled back. The exponent is bounded below as in
  binary64, which gives the subnormal numbers; a result of magnitude \<open>2^1024\<close> or more is
  \<open>Infinity\<close> in the source and lies outside the model.
\<close>

definition binade :: "real \<Rightarrow> int" where
  "binade x = max \<lfloor>log 2 \<bar>x\<bar>\<rfloor> (- 1022)"

definition ulp :: "real \<Rightarrow> real" where
  "ulp x = 2 powi (binade x - 52)"

definition roundEven :: "real \<Rightarrow> int" where
  "roundEven y =
     (let n = \<lfloor>y\<rfloor>; r = y - of_int n
      in if r < 1 / 2 then n
         else if 1 / 2 < r then n + 1
         else if even n then n else n + 1)"

definition f64 :: "real \<Rightarrow> real" where
  "f64 x = (if x = 0 then 0 else sgn x * of_int (roundEven (\<bar>x\<bar> / ulp x)) * ulp x)"

text \<open>
  An arithmetic is the rounding applied to the result of every operation and to every
  numeric literal, together with the sine of the engine. Every function of the source is
  given twice: under its own name in exact arithmetic, and with the suffix \<open>_fl\<close> for an
  arbitrary arithmetic, each operation of the source rounded where the source rounds it.
  The exact function is the \<open>_fl\<close> function in the arithmetic \<open>exact\<close>; the source itself
  runs in \<open>double s\<close>, where \<open>s\<close> is the \<open>Math.sin\<close> of the engine, which the language leaves
  to the implementation.
\<close>

record arith =
  rnd :: "real \<Rightarrow> real"
  msin :: "real \<Rightarrow> real"

definition exact :: arith where
  "exact = \<lparr>rnd = (\<lambda>x. x), msin = sin\<rparr>"

definition double :: "(real \<Rightarrow> real) \<Rightarrow> arith" where
  "double s = \<lparr>rnd = f64, msin = s\<rparr>"

text \<open>What the proofs need of a rounding: zero is kept, and a rounded number is kept.\<close>

definition rounding :: "arith \<Rightarrow> bool" where
  "rounding ar \<longleftrightarrow> rnd ar 0 = 0 \<and> (\<forall>x. rnd ar (rnd ar x) = rnd ar x)"

definition lit :: "arith \<Rightarrow> real \<Rightarrow> real" where
  "lit ar c = rnd ar c"

definition fadd :: "arith \<Rightarrow> real \<Rightarrow> real \<Rightarrow> real" where
  "fadd ar a b = rnd ar (a + b)"

definition fsub :: "arith \<Rightarrow> real \<Rightarrow> real \<Rightarrow> real" where
  "fsub ar a b = rnd ar (a - b)"

definition fmul :: "arith \<Rightarrow> real \<Rightarrow> real \<Rightarrow> real" where
  "fmul ar a b = rnd ar (a * b)"

definition fdiv :: "arith \<Rightarrow> real \<Rightarrow> real \<Rightarrow> real" where
  "fdiv ar a b = rnd ar (a / b)"

section \<open>Constants of wiggly-border.js\<close>

definition BASE_VIEWBOX_SIZE :: real where
  "BASE_VIEWBOX_SIZE = 400"

definition EDGE_SEEDS_top :: real where "EDGE_SEEDS_top = 1.23"
definition EDGE_SEEDS_right :: real where "EDGE_SEEDS_right = 4.56"
definition EDGE_SEEDS_bottom :: real where "EDGE_SEEDS_bottom = 7.89"
definition EDGE_SEEDS_left :: real where "EDGE_SEEDS_left = 2.34"

section \<open>getOrganicOffset\<close>

definition getOrganicOffset :: "real \<Rightarrow> real \<Rightarrow> real \<Rightarrow> real" where
  "getOrganicOffset index baseAmplitude seed =
     (let variation =
            sin (index * 1.7 + seed) * 0.3 + sin (index * 2.3 + seed * 1.5) * 0.2
              + sin (index * 0.9 + seed * 0.7) * 0.25
      in baseAmplitude * (0.5 + variation))"

definition getOrganicOffset_fl :: "arith \<Rightarrow> real \<Rightarrow> real \<Rightarrow> real \<Rightarrow> real" where
  "getOrganicOffset_fl ar index baseAmplitude seed =
     (let variation =
            fadd ar
              (fadd ar
                 (fmul ar (msin ar (fadd ar (fmul ar index (lit ar 1.7)) seed)) (lit ar 0.3))
                 (fmul ar
                    (msin ar (fadd ar (fmul ar index (lit ar 2.3)) (fmul ar seed (lit ar 1.5))))
                    (lit ar 0.2)))
              (fmul ar
                 (msin ar (fadd ar (fmul ar index (lit ar 0.9)) (fmul ar seed (lit ar 0.7))))
                 (lit ar 0.25))
      in fmul ar baseAmplitude (fadd ar (lit ar 0.5) variation))"

section \<open>generateEdgePoints\<close>

text \<open>The body of the loop: the point pushed at index \<open>i\<close>.\<close>

definition edgePoint ::
  "real \<Rightarrow> real \<Rightarrow> real \<Rightarrow> real \<Rightarrow> int \<Rightarrow> real \<Rightarrow> real \<Rightarrow> point \<Rightarrow> int \<Rightarrow> point" where
  "edgePoint startX startY dx dy segments amplitude seed perpDirection i =
     (let baseX = startX + dx * of_int i;
          baseY = startY + dy * of_int i
      in if i = 0 \<or> i = segments then \<lparr>px = baseX, py = baseY\<rparr>
         else
           (let offset = getOrganicOffset (of_int i) amplitude seed;
                direction = (if i mod 2 = 0 then 1 else - 1)
            in \<lparr>px = baseX + px perpDirection * offset * direction,
                py = baseY + py perpDirection * offset * direction\<rparr>))"

text \<open>\<open>for (let i = ...; i <= segments; i++) points.push(body(i))\<close>, from the current
  index and the points pushed so far.\<close>

function edgeLoop :: "(int \<Rightarrow> point) \<Rightarrow> int \<Rightarrow> int \<Rightarrow> point list \<Rightarrow> point list" where
  "edgeLoop body segments i points =
     (if i \<le> segments then edgeLoop body segments (i + 1) (points @ [body i]) else points)"
  by pat_completeness auto
termination
  by (relation "measure (\<lambda>(body, segments, i, points). nat (segments + 1 - i))") auto

declare edgeLoop.simps [simp del]

text \<open>The segment count is an integer, as every caller passes one. With zero segments the
  step \<open>dx\<close> is a division by zero.\<close>

definition generateEdgePoints ::
  "real \<Rightarrow> real \<Rightarrow> real \<Rightarrow> real \<Rightarrow> int \<Rightarrow> real \<Rightarrow> real \<Rightarrow> point \<Rightarrow> point list option" where
  "generateEdgePoints startX startY endX endY segments amplitude seed perpDirection =
     (if segments = 0 then None
      else
        (let dx = (endX - startX) / of_int segments;
             dy = (endY - startY) / of_int segments
         in Some (edgeLoop (edgePoint startX startY dx dy segments amplitude seed perpDirection)
                    segments 0 [])))"

text \<open>The same in an arbitrary arithmetic. The loop counter is an integer and exact.\<close>

definition edgePoint_fl ::
  "arith \<Rightarrow> real \<Rightarrow> real \<Rightarrow> real \<Rightarrow> real \<Rightarrow> int \<Rightarrow> real \<Rightarrow> real \<Rightarrow> point \<Rightarrow> int \<Rightarrow> point" where
  "edgePoint_fl ar startX startY dx dy segments amplitude seed perpDirection i =
     (let baseX = fadd ar startX (fmul ar dx (of_int i));
          baseY = fadd ar startY (fmul ar dy (of_int i))
      in if i = 0 \<or> i = segments then \<lparr>px = baseX, py = baseY\<rparr>
         else
           (let offset = getOrganicOffset_fl ar (of_int i) amplitude seed;
                direction = (if i mod 2 = 0 then 1 else - 1)
            in \<lparr>px = fadd ar baseX (fmul ar (fmul ar (px perpDirection) offset) direction),
                py = fadd ar baseY (fmul ar (fmul ar (py perpDirection) offset) direction)\<rparr>))"

definition generateEdgePoints_fl ::
  "arith \<Rightarrow> real \<Rightarrow> real \<Rightarrow> real \<Rightarrow> real \<Rightarrow> int \<Rightarrow> real \<Rightarrow> real \<Rightarrow> point \<Rightarrow> point list option" where
  "generateEdgePoints_fl ar startX startY endX endY segments amplitude seed perpDirection =
     (if segments = 0 then None
      else
        (let dx = fdiv ar (fsub ar endX startX) (of_int segments);
             dy = fdiv ar (fsub ar endY startY) (of_int segments)
         in Some (edgeLoop
                    (edgePoint_fl ar startX startY dx dy segments amplitude seed perpDirection)
                    segments 0 [])))"

section \<open>generateSmoothPath\<close>

definition tension :: real where
  "tension = 0.5"

text \<open>The body of the loop: the text appended to the path at index \<open>i\<close>.\<close>

definition curveText :: "(real \<Rightarrow> string) \<Rightarrow> point list \<Rightarrow> nat \<Rightarrow> string" where
  "curveText fmt points i =
     (let p0 = points ! nat (max 0 (int i - 1));
          p1 = points ! i;
          p2 = points ! (i + 1);
          p3 = points ! nat (min (int (length points) - 1) (int i + 2));
          cp1x = px p1 + ((px p2 - px p0) * tension) / 3;
          cp1y = py p1 + ((py p2 - py p0) * tension) / 3;
          cp2x = px p2 - ((px p3 - px p1) * tension) / 3;
          cp2y = py p2 - ((py p3 - py p1) * tension) / 3
      in '' C '' @ fmt cp1x @ '' '' @ fmt cp1y @ '', '' @ fmt cp2x @ '' '' @ fmt cp2y
           @ '', '' @ fmt (px p2) @ '' '' @ fmt (py p2))"

function smoothLoop :: "(real \<Rightarrow> string) \<Rightarrow> point list \<Rightarrow> nat \<Rightarrow> string \<Rightarrow> string" where
  "smoothLoop fmt points i path =
     (if int i < int (length points) - 1
      then smoothLoop fmt points (i + 1) (path @ curveText fmt points i)
      else path)"
  by pat_completeness auto
termination
  by (relation "measure (\<lambda>(fmt, points, i, path). length points - i)") auto

declare smoothLoop.simps [simp del]

definition generateSmoothPath :: "(real \<Rightarrow> string) \<Rightarrow> point list \<Rightarrow> string" where
  "generateSmoothPath fmt points =
     (if length points < 2 then ''''
      else smoothLoop fmt points 0 (''M '' @ fmt (px (points ! 0)) @ '' '' @ fmt (py (points ! 0))))"

text \<open>The same in an arbitrary arithmetic.\<close>

definition curveText_fl :: "arith \<Rightarrow> (real \<Rightarrow> string) \<Rightarrow> point list \<Rightarrow> nat \<Rightarrow> string" where
  "curveText_fl ar fmt points i =
     (let p0 = points ! nat (max 0 (int i - 1));
          p1 = points ! i;
          p2 = points ! (i + 1);
          p3 = points ! nat (min (int (length points) - 1) (int i + 2));
          cp1x = fadd ar (px p1) (fdiv ar (fmul ar (fsub ar (px p2) (px p0)) (lit ar tension)) 3);
          cp1y = fadd ar (py p1) (fdiv ar (fmul ar (fsub ar (py p2) (py p0)) (lit ar tension)) 3);
          cp2x = fsub ar (px p2) (fdiv ar (fmul ar (fsub ar (px p3) (px p1)) (lit ar tension)) 3);
          cp2y = fsub ar (py p2) (fdiv ar (fmul ar (fsub ar (py p3) (py p1)) (lit ar tension)) 3)
      in '' C '' @ fmt cp1x @ '' '' @ fmt cp1y @ '', '' @ fmt cp2x @ '' '' @ fmt cp2y
           @ '', '' @ fmt (px p2) @ '' '' @ fmt (py p2))"

function smoothLoop_fl ::
  "arith \<Rightarrow> (real \<Rightarrow> string) \<Rightarrow> point list \<Rightarrow> nat \<Rightarrow> string \<Rightarrow> string" where
  "smoothLoop_fl ar fmt points i path =
     (if int i < int (length points) - 1
      then smoothLoop_fl ar fmt points (i + 1) (path @ curveText_fl ar fmt points i)
      else path)"
  by pat_completeness auto
termination
  by (relation "measure (\<lambda>(ar, fmt, points, i, path). length points - i)") auto

declare smoothLoop_fl.simps [simp del]

definition generateSmoothPath_fl :: "arith \<Rightarrow> (real \<Rightarrow> string) \<Rightarrow> point list \<Rightarrow> string" where
  "generateSmoothPath_fl ar fmt points =
     (if length points < 2 then ''''
      else smoothLoop_fl ar fmt points 0
             (''M '' @ fmt (px (points ! 0)) @ '' '' @ fmt (py (points ! 0))))"

section \<open>calculateViewBox\<close>

record viewBox =
  width :: real
  height :: real

text \<open>Two divisions: by \<open>targetHeight\<close>, and in the taller-than-wide branch by the aspect
  ratio.\<close>

definition calculateViewBox :: "real \<Rightarrow> real \<Rightarrow> viewBox option" where
  "calculateViewBox targetWidth targetHeight =
     (if targetHeight = 0 then None
      else
        (let aspectRatio = targetWidth / targetHeight
         in if aspectRatio \<ge> 1
            then Some \<lparr>width = BASE_VIEWBOX_SIZE * aspectRatio, height = BASE_VIEWBOX_SIZE\<rparr>
            else if aspectRatio = 0 then None
            else Some \<lparr>width = BASE_VIEWBOX_SIZE, height = BASE_VIEWBOX_SIZE / aspectRatio\<rparr>))"

definition calculateViewBox_fl :: "arith \<Rightarrow> real \<Rightarrow> real \<Rightarrow> viewBox option" where
  "calculateViewBox_fl ar targetWidth targetHeight =
     (if targetHeight = 0 then None
      else
        (let aspectRatio = fdiv ar targetWidth targetHeight
         in if aspectRatio \<ge> 1
            then Some \<lparr>width = fmul ar BASE_VIEWBOX_SIZE aspectRatio, height = BASE_VIEWBOX_SIZE\<rparr>
            else if aspectRatio = 0 then None
            else Some \<lparr>width = BASE_VIEWBOX_SIZE,
                        height = fdiv ar BASE_VIEWBOX_SIZE aspectRatio\<rparr>))"

section \<open>calculateSegments\<close>

record segmentCounts =
  horizontal :: int
  vertical :: int

text \<open>\<open>Math.round\<close> rounds a half towards plus infinity, as \<^const>\<open>round\<close> does.\<close>

definition calculateSegments :: "real \<Rightarrow> real \<Rightarrow> real \<Rightarrow> segmentCounts option" where
  "calculateSegments horizontalLength verticalLength waveSegmentSize =
     (if waveSegmentSize = 0 then None
      else
        (let horizontalSegments = max 4 (round (horizontalLength / waveSegmentSize));
             verticalSegments = max 4 (round (verticalLength / waveSegmentSize))
         in Some \<lparr>horizontal = horizontalSegments, vertical = verticalSegments\<rparr>))"

text \<open>\<open>Math.round\<close> of a double is an integer and exact; only the quotient is rounded.\<close>

definition calculateSegments_fl :: "arith \<Rightarrow> real \<Rightarrow> real \<Rightarrow> real \<Rightarrow> segmentCounts option" where
  "calculateSegments_fl ar horizontalLength verticalLength waveSegmentSize =
     (if waveSegmentSize = 0 then None
      else
        (let horizontalSegments = max 4 (round (fdiv ar horizontalLength waveSegmentSize));
             verticalSegments = max 4 (round (fdiv ar verticalLength waveSegmentSize))
         in Some \<lparr>horizontal = horizontalSegments, vertical = verticalSegments\<rparr>))"

section \<open>generateWigglyPath\<close>

record options =
  waveAmplitude :: real
  waveSegmentSize :: real
  borderWidth :: real
  targetWidth :: real
  targetHeight :: real

text \<open>The defaults of the destructured parameter.\<close>

definition defaultOptions :: options where
  "defaultOptions =
     \<lparr>waveAmplitude = 4, waveSegmentSize = 25, borderWidth = 4,
      targetWidth = 400, targetHeight = 300\<rparr>"

text \<open>The local constants of the function, kept so that statements can speak about them.\<close>

record pathLocals =
  l_padding :: real
  l_left :: real
  l_right :: real
  l_top :: real
  l_bottom :: real
  l_segments :: segmentCounts
  l_topPoints :: "point list"
  l_rightPoints :: "point list"
  l_bottomPoints :: "point list"
  l_leftPoints :: "point list"
  l_allPoints :: "point list"

record wigglyPath =
  pathData :: string
  viewBoxWidth :: real
  viewBoxHeight :: real

text \<open>The function from its second statement on, up to \<open>allPoints\<close>: everything it
  computes once the viewBox is known.\<close>

definition wigglyLocals :: "viewBox \<Rightarrow> options \<Rightarrow> pathLocals option" where
  "wigglyLocals viewBox options =
     (let viewBoxWidth = width viewBox;
          viewBoxHeight = height viewBox;
          padding = waveAmplitude options + borderWidth options;
          left = padding;
          right = viewBoxWidth - padding;
          top = padding;
          bottom = viewBoxHeight - padding;
          horizontalLength = right - left;
          verticalLength = bottom - top
      in do {
        segments \<leftarrow> calculateSegments horizontalLength verticalLength (waveSegmentSize options);
        topPoints \<leftarrow> generateEdgePoints left top right top (horizontal segments)
          (waveAmplitude options) EDGE_SEEDS_top \<lparr>px = 0, py = - 1\<rparr>;
        rightPoints \<leftarrow> generateEdgePoints right top right bottom (vertical segments)
          (waveAmplitude options) EDGE_SEEDS_right \<lparr>px = 1, py = 0\<rparr>;
        bottomPoints \<leftarrow> generateEdgePoints right bottom left bottom (horizontal segments)
          (waveAmplitude options) EDGE_SEEDS_bottom \<lparr>px = 0, py = 1\<rparr>;
        leftPoints \<leftarrow> generateEdgePoints left bottom left top (vertical segments)
          (waveAmplitude options) EDGE_SEEDS_left \<lparr>px = - 1, py = 0\<rparr>;
        let allPoints = topPoints @ slice_from rightPoints 1 @ slice_from bottomPoints 1
          @ slice leftPoints 1 (- 1);
        Some \<lparr>l_padding = padding, l_left = left, l_right = right, l_top = top,
          l_bottom = bottom, l_segments = segments, l_topPoints = topPoints,
          l_rightPoints = rightPoints, l_bottomPoints = bottomPoints,
          l_leftPoints = leftPoints, l_allPoints = allPoints\<rparr>
      })"

definition generateWigglyPathIn :: "(real \<Rightarrow> string) \<Rightarrow> viewBox \<Rightarrow> options \<Rightarrow> wigglyPath option" where
  "generateWigglyPathIn fmt viewBox options =
     do {
       locals \<leftarrow> wigglyLocals viewBox options;
       let pathData = generateSmoothPath fmt (l_allPoints locals) @ '' Z'';
       Some \<lparr>pathData = pathData, viewBoxWidth = width viewBox, viewBoxHeight = height viewBox\<rparr>
     }"

definition generateWigglyPath :: "(real \<Rightarrow> string) \<Rightarrow> options \<Rightarrow> wigglyPath option" where
  "generateWigglyPath fmt options =
     do {
       viewBox \<leftarrow> calculateViewBox (targetWidth options) (targetHeight options);
       generateWigglyPathIn fmt viewBox options
     }"

text \<open>The same three definitions in an arbitrary arithmetic.\<close>

definition wigglyLocals_fl :: "arith \<Rightarrow> viewBox \<Rightarrow> options \<Rightarrow> pathLocals option" where
  "wigglyLocals_fl ar viewBox options =
     (let viewBoxWidth = width viewBox;
          viewBoxHeight = height viewBox;
          padding = fadd ar (waveAmplitude options) (borderWidth options);
          left = padding;
          right = fsub ar viewBoxWidth padding;
          top = padding;
          bottom = fsub ar viewBoxHeight padding;
          horizontalLength = fsub ar right left;
          verticalLength = fsub ar bottom top
      in do {
        segments \<leftarrow> calculateSegments_fl ar horizontalLength verticalLength
          (waveSegmentSize options);
        topPoints \<leftarrow> generateEdgePoints_fl ar left top right top (horizontal segments)
          (waveAmplitude options) (lit ar EDGE_SEEDS_top) \<lparr>px = 0, py = - 1\<rparr>;
        rightPoints \<leftarrow> generateEdgePoints_fl ar right top right bottom (vertical segments)
          (waveAmplitude options) (lit ar EDGE_SEEDS_right) \<lparr>px = 1, py = 0\<rparr>;
        bottomPoints \<leftarrow> generateEdgePoints_fl ar right bottom left bottom (horizontal segments)
          (waveAmplitude options) (lit ar EDGE_SEEDS_bottom) \<lparr>px = 0, py = 1\<rparr>;
        leftPoints \<leftarrow> generateEdgePoints_fl ar left bottom left top (vertical segments)
          (waveAmplitude options) (lit ar EDGE_SEEDS_left) \<lparr>px = - 1, py = 0\<rparr>;
        let allPoints = topPoints @ slice_from rightPoints 1 @ slice_from bottomPoints 1
          @ slice leftPoints 1 (- 1);
        Some \<lparr>l_padding = padding, l_left = left, l_right = right, l_top = top,
          l_bottom = bottom, l_segments = segments, l_topPoints = topPoints,
          l_rightPoints = rightPoints, l_bottomPoints = bottomPoints,
          l_leftPoints = leftPoints, l_allPoints = allPoints\<rparr>
      })"

definition generateWigglyPathIn_fl ::
  "arith \<Rightarrow> (real \<Rightarrow> string) \<Rightarrow> viewBox \<Rightarrow> options \<Rightarrow> wigglyPath option" where
  "generateWigglyPathIn_fl ar fmt viewBox options =
     do {
       locals \<leftarrow> wigglyLocals_fl ar viewBox options;
       let pathData = generateSmoothPath_fl ar fmt (l_allPoints locals) @ '' Z'';
       Some \<lparr>pathData = pathData, viewBoxWidth = width viewBox, viewBoxHeight = height viewBox\<rparr>
     }"

definition generateWigglyPath_fl ::
  "arith \<Rightarrow> (real \<Rightarrow> string) \<Rightarrow> options \<Rightarrow> wigglyPath option" where
  "generateWigglyPath_fl ar fmt options =
     do {
       viewBox \<leftarrow> calculateViewBox_fl ar (targetWidth options) (targetHeight options);
       generateWigglyPathIn_fl ar fmt viewBox options
     }"

section \<open>The older generateWigglyPath, on a fixed viewBox\<close>

text \<open>
  The older file of the repository defines \<open>getOrganicOffset\<close>, \<open>generateEdgePoints\<close> and
  \<open>generateSmoothPath\<close> with the same text as wiggly-border.js; its \<open>generateWigglyPath\<close>
  reads three options, works on a viewBox of 400 by 300 and returns the path string alone.
\<close>

definition VIEW_BOX_WIDTH :: real where
  "VIEW_BOX_WIDTH = 400"

definition VIEW_BOX_HEIGHT :: real where
  "VIEW_BOX_HEIGHT = 300"

definition fixed_wigglyLocals :: "options \<Rightarrow> pathLocals option" where
  "fixed_wigglyLocals options =
     (let padding = waveAmplitude options + borderWidth options
      in if waveSegmentSize options = 0 then None
         else
           (let horizontalSegments = max 6 \<lfloor>VIEW_BOX_WIDTH / waveSegmentSize options\<rfloor>;
                verticalSegments = max 4 \<lfloor>VIEW_BOX_HEIGHT / waveSegmentSize options\<rfloor>;
                left = padding;
                right = VIEW_BOX_WIDTH - padding;
                top = padding;
                bottom = VIEW_BOX_HEIGHT - padding
            in do {
              topPoints \<leftarrow> generateEdgePoints left top right top horizontalSegments
                (waveAmplitude options) EDGE_SEEDS_top \<lparr>px = 0, py = - 1\<rparr>;
              rightPoints \<leftarrow> generateEdgePoints right top right bottom verticalSegments
                (waveAmplitude options) EDGE_SEEDS_right \<lparr>px = 1, py = 0\<rparr>;
              bottomPoints \<leftarrow> generateEdgePoints right bottom left bottom horizontalSegments
                (waveAmplitude options) EDGE_SEEDS_bottom \<lparr>px = 0, py = 1\<rparr>;
              leftPoints \<leftarrow> generateEdgePoints left bottom left top verticalSegments
                (waveAmplitude options) EDGE_SEEDS_left \<lparr>px = - 1, py = 0\<rparr>;
              let allPoints = topPoints @ slice_from rightPoints 1 @ slice_from bottomPoints 1
                @ slice leftPoints 1 (- 1);
              Some \<lparr>l_padding = padding, l_left = left, l_right = right, l_top = top,
                l_bottom = bottom,
                l_segments = \<lparr>horizontal = horizontalSegments, vertical = verticalSegments\<rparr>,
                l_topPoints = topPoints, l_rightPoints = rightPoints,
                l_bottomPoints = bottomPoints, l_leftPoints = leftPoints,
                l_allPoints = allPoints\<rparr>
            }))"

definition fixed_generateWigglyPath :: "(real \<Rightarrow> string) \<Rightarrow> options \<Rightarrow> string option" where
  "fixed_generateWigglyPath fmt options =
     do {
       locals \<leftarrow> fixed_wigglyLocals options;
       Some (generateSmoothPath fmt (l_allPoints locals) @ '' Z'')
     }"

section \<open>Path commands\<close>

text \<open>
  The vocabulary of the specification: a path is a sequence of commands, and the string
  is the concatenation of their texts.
\<close>

datatype command = MoveTo point | CurveTo point point point | ClosePath

fun commandText :: "(real \<Rightarrow> string) \<Rightarrow> command \<Rightarrow> string" where
  "commandText fmt (MoveTo p) = ''M '' @ fmt (px p) @ '' '' @ fmt (py p)"
| "commandText fmt (CurveTo c1 c2 p) =
     '' C '' @ fmt (px c1) @ '' '' @ fmt (py c1) @ '', '' @ fmt (px c2) @ '' '' @ fmt (py c2)
       @ '', '' @ fmt (px p) @ '' '' @ fmt (py p)"
| "commandText fmt ClosePath = '' Z''"

definition pathText :: "(real \<Rightarrow> string) \<Rightarrow> command list \<Rightarrow> string" where
  "pathText fmt cmds = concat (map (commandText fmt) cmds)"

fun isCurve :: "command \<Rightarrow> bool" where
  "isCurve (CurveTo c1 c2 p) = True"
| "isCurve c = False"

text \<open>The curve of the specification for the pair at index \<open>i\<close>: the control points
  \<open>cp1 = p1 + tension/3 \<cdot> (p2 - p0)\<close> and \<open>cp2 = p2 - tension/3 \<cdot> (p3 - p1)\<close>, with \<open>p0\<close> at
  index \<open>max 0 (i - 1)\<close> and \<open>p3\<close> at index \<open>min (n - 1) (i + 2)\<close>, and the end point \<open>p2\<close>.\<close>

definition spec_curve :: "point list \<Rightarrow> nat \<Rightarrow> command" where
  "spec_curve points i =
     (let p0 = points ! (i - 1);
          p1 = points ! i;
          p2 = points ! (i + 1);
          p3 = points ! min (length points - 1) (i + 2)
      in CurveTo
           \<lparr>px = px p1 + tension / 3 * (px p2 - px p0), py = py p1 + tension / 3 * (py p2 - py p0)\<rparr>
           \<lparr>px = px p2 - tension / 3 * (px p3 - px p1), py = py p2 - tension / 3 * (py p3 - py p1)\<rparr>
           p2)"

text \<open>The point a command ends in.\<close>

fun commandEnd :: "command \<Rightarrow> point option" where
  "commandEnd (MoveTo p) = Some p"
| "commandEnd (CurveTo c1 c2 p) = Some p"
| "commandEnd ClosePath = None"

text \<open>The commands of the spline converter for a sequence of at least two points.\<close>

definition smoothCommands :: "point list \<Rightarrow> command list" where
  "smoothCommands points = MoveTo (points ! 0) # map (spec_curve points) [0..<length points - 1]"

text \<open>The curve the source draws for the pair at index \<open>i\<close> in an arbitrary arithmetic, and
  the commands of the spline converter there.\<close>

definition curve_fl :: "arith \<Rightarrow> point list \<Rightarrow> nat \<Rightarrow> command" where
  "curve_fl ar points i =
     (let p0 = points ! (i - 1);
          p1 = points ! i;
          p2 = points ! (i + 1);
          p3 = points ! min (length points - 1) (i + 2)
      in CurveTo
           \<lparr>px = fadd ar (px p1) (fdiv ar (fmul ar (fsub ar (px p2) (px p0)) (lit ar tension)) 3),
            py = fadd ar (py p1) (fdiv ar (fmul ar (fsub ar (py p2) (py p0)) (lit ar tension)) 3)\<rparr>
           \<lparr>px = fsub ar (px p2) (fdiv ar (fmul ar (fsub ar (px p3) (px p1)) (lit ar tension)) 3),
            py = fsub ar (py p2) (fdiv ar (fmul ar (fsub ar (py p3) (py p1)) (lit ar tension)) 3)\<rparr>
           p2)"

definition smoothCommands_fl :: "arith \<Rightarrow> point list \<Rightarrow> command list" where
  "smoothCommands_fl ar points =
     MoveTo (points ! 0) # map (curve_fl ar points) [0..<length points - 1]"

text \<open>A valid parameter set, as the specification's data model has it: the amplitude and
  the stroke inset are not negative, the segment size and both target dimensions are
  positive.\<close>

definition validOptions :: "options \<Rightarrow> bool" where
  "validOptions options \<longleftrightarrow>
     0 \<le> waveAmplitude options \<and> 0 < waveSegmentSize options \<and> 0 \<le> borderWidth options
       \<and> 0 < targetWidth options \<and> 0 < targetHeight options"

section \<open>The loops in closed form\<close>

lemma edgeLoop_eq: "edgeLoop body segments i points = points @ map body [i..segments]"
proof (induction body segments i points rule: edgeLoop.induct)
  case (1 body segments i points)
  show ?case
  proof (cases "i \<le> segments")
    case True
    then have "edgeLoop body segments i points = edgeLoop body segments (i + 1) (points @ [body i])"
      by (subst edgeLoop.simps) simp
    also have "\<dots> = (points @ [body i]) @ map body [i + 1..segments]"
      using "1.IH" True by simp
    also have "\<dots> = points @ map body [i..segments]"
      using True by (simp add: upto_rec1)
    finally show ?thesis .
  next
    case False
    then show ?thesis by (subst edgeLoop.simps) simp
  qed
qed

lemma smoothLoop_eq:
  "smoothLoop fmt points i path
     = path @ concat (map (curveText fmt points) [i..<length points - 1])"
proof (induction fmt points i path rule: smoothLoop.induct)
  case (1 fmt points i path)
  show ?case
  proof (cases "int i < int (length points) - 1")
    case True
    then have lt: "i < length points - 1" by linarith
    have "smoothLoop fmt points i path
            = smoothLoop fmt points (i + 1) (path @ curveText fmt points i)"
      using True by (subst smoothLoop.simps) simp
    also have "\<dots> = (path @ curveText fmt points i)
                 @ concat (map (curveText fmt points) [i + 1..<length points - 1])"
      using "1.IH" True by simp
    also have "\<dots> = path @ concat (map (curveText fmt points) [i..<length points - 1])"
      using lt by (simp add: upt_conv_Cons)
    finally show ?thesis .
  next
    case False
    then have "\<not> i < length points - 1" by linarith
    then show ?thesis using False by (subst smoothLoop.simps) simp
  qed
qed

lemma slice_from_1: "slice_from xs 1 = tl xs"
  by (cases xs) (simp_all add: slice_from_def slice_def slice_index_def)

lemma slice_1_minus_1: "slice xs 1 (- 1) = butlast (tl xs)"
  by (cases xs) (simp_all add: slice_def slice_index_def butlast_conv_take)

section \<open>The wave offset\<close>

lemma variation_bounds:
  fixes s1 s2 s3 :: real
  assumes "- 1 \<le> s1" "s1 \<le> 1" "- 1 \<le> s2" "s2 \<le> 1" "- 1 \<le> s3" "s3 \<le> 1"
  shows "- 0.25 \<le> 0.5 + (s1 * 0.3 + s2 * 0.2 + s3 * 0.25)"
    and "0.5 + (s1 * 0.3 + s2 * 0.2 + s3 * 0.25) \<le> 1.25"
  using assms unfolding power2_eq_square by linarith+

text \<open>
  Claim C6. For every index, every seed and every amplitude that is not negative, the
  offset is the amplitude times one half plus the three weighted sines, it lies between
  \<open>- 0.25\<close> and \<open>1.25\<close> times the amplitude, and its magnitude is at most \<open>1.25\<close> times
  the amplitude.
\<close>

theorem getOrganicOffset_range:
  assumes "0 \<le> amplitude"
  shows "getOrganicOffset index amplitude seed
           = amplitude * (0.5 + 0.3 * sin (1.7 * index + seed)
               + 0.2 * sin (2.3 * index + 1.5 * seed) + 0.25 * sin (0.9 * index + 0.7 * seed))
         \<and> amplitude * - 0.25 \<le> getOrganicOffset index amplitude seed
         \<and> getOrganicOffset index amplitude seed \<le> amplitude * 1.25
         \<and> \<bar>getOrganicOffset index amplitude seed\<bar> \<le> 1.25 * amplitude"
proof -
  define v where "v = 0.5 + (sin (index * 1.7 + seed) * 0.3 + sin (index * 2.3 + seed * 1.5) * 0.2
    + sin (index * 0.9 + seed * 0.7) * 0.25)"
  have off: "getOrganicOffset index amplitude seed = amplitude * v"
    by (simp add: getOrganicOffset_def v_def)
  have lo: "- 0.25 \<le> v" and hi: "v \<le> 1.25"
    unfolding v_def by (rule variation_bounds; simp)+
  have below: "amplitude * - 0.25 \<le> amplitude * v"
    using assms lo by (rule_tac mult_left_mono)
  have above: "amplitude * v \<le> amplitude * 1.25"
    using assms hi by (rule_tac mult_left_mono)
  have magnitude: "\<bar>amplitude * v\<bar> \<le> 1.25 * amplitude"
    using below above assms by (simp add: abs_le_iff)
  have formula: "amplitude * v = amplitude * (0.5 + 0.3 * sin (1.7 * index + seed)
               + 0.2 * sin (2.3 * index + 1.5 * seed) + 0.25 * sin (0.9 * index + 0.7 * seed))"
    by (simp add: v_def algebra_simps)
  show ?thesis using formula below above magnitude off by simp
qed

theorem getOrganicOffset_range_witness:
  "(0::real) \<le> 4 \<and> 4 * - 0.25 \<le> getOrganicOffset 1 4 1.23 \<and> getOrganicOffset 1 4 1.23 \<le> 4 * 1.25
     \<and> \<bar>getOrganicOffset 1 4 1.23\<bar> \<le> 1.25 * 4"
proof -
  have amp: "(0::real) \<le> 4" by simp
  from getOrganicOffset_range [OF amp, of 1 "1.23"]
  have "4 * - 0.25 \<le> getOrganicOffset 1 4 1.23 \<and> getOrganicOffset 1 4 1.23 \<le> 4 * 1.25
     \<and> \<bar>getOrganicOffset 1 4 1.23\<bar> \<le> 1.25 * 4"
    by blast
  with amp show ?thesis by blast
qed

section \<open>The spline converter\<close>

text \<open>
  Claim C9. For a point sequence of length less than two, empty or a single point,
  generateSmoothPath returns the empty string: a defined value of the function, which has
  no failing branch.
\<close>

theorem generateSmoothPath_degenerate:
  "length points < 2 \<Longrightarrow> generateSmoothPath fmt points = ''''"
  by (simp add: generateSmoothPath_def)

theorem generateSmoothPath_degenerate_witness:
  "\<forall>fmt. length ([] :: point list) < 2 \<and> generateSmoothPath fmt [] = ''''
     \<and> length [\<lparr>px = 8, py = 8\<rparr>] < 2 \<and> generateSmoothPath fmt [\<lparr>px = 8, py = 8\<rparr>] = ''''"
  using generateSmoothPath_degenerate [of "[]"]
    generateSmoothPath_degenerate [of "[\<lparr>px = 8, py = 8\<rparr>]"] by simp

section \<open>The edge sampler, the segment counts and the viewBox\<close>

lemma generateEdgePoints_eq:
  "segments \<noteq> 0 \<Longrightarrow>
   generateEdgePoints startX startY endX endY segments amplitude seed perpDirection
     = Some (map (edgePoint startX startY ((endX - startX) / of_int segments)
                    ((endY - startY) / of_int segments) segments amplitude seed perpDirection)
               [0..segments])"
  by (simp add: generateEdgePoints_def edgeLoop_eq)

lemma edgePoint_first:
  "edgePoint startX startY dx dy segments amplitude seed perpDirection 0
     = \<lparr>px = startX, py = startY\<rparr>"
  by (simp add: edgePoint_def)

lemma edgePoint_last:
  "segments \<noteq> 0 \<Longrightarrow>
   edgePoint startX startY ((endX - startX) / of_int segments) ((endY - startY) / of_int segments)
     segments amplitude seed perpDirection segments = \<lparr>px = endX, py = endY\<rparr>"
  by (simp add: edgePoint_def)

lemma edgePoint_interior:
  "i \<noteq> 0 \<Longrightarrow> i \<noteq> segments \<Longrightarrow>
   edgePoint startX startY ((endX - startX) / of_int segments) ((endY - startY) / of_int segments)
     segments amplitude seed perpDirection i
     = \<lparr>px = startX + (endX - startX) * of_int i / of_int segments
              + px perpDirection * getOrganicOffset (of_int i) amplitude seed
                  * (if even i then 1 else - 1),
        py = startY + (endY - startY) * of_int i / of_int segments
              + py perpDirection * getOrganicOffset (of_int i) amplitude seed
                  * (if even i then 1 else - 1)\<rparr>"
  by (simp add: edgePoint_def Let_def even_iff_mod_2_eq_zero)

lemma getOrganicOffset_zero: "getOrganicOffset index 0 seed = 0"
  by (simp add: getOrganicOffset_def)

text \<open>What an edge of at least one segment looks like.\<close>

lemma edge_shape:
  assumes "1 \<le> segments"
    and "generateEdgePoints startX startY endX endY segments amplitude seed perpDirection
           = Some points"
  shows "length points = nat segments + 1"
    and "hd points = \<lparr>px = startX, py = startY\<rparr>"
    and "last points = \<lparr>px = endX, py = endY\<rparr>"
    and "points \<noteq> []"
proof -
  let ?body = "edgePoint startX startY ((endX - startX) / of_int segments)
     ((endY - startY) / of_int segments) segments amplitude seed perpDirection"
  have ne: "segments \<noteq> 0" using assms(1) by simp
  have pts: "points = map ?body [0..segments]"
    using assms(2) generateEdgePoints_eq [OF ne] by simp
  show len: "length points = nat segments + 1"
    using assms(1) by (simp add: pts)
  then show nonempty: "points \<noteq> []" by auto
  have "hd points = points ! 0" using nonempty by (simp add: hd_conv_nth)
  also have "\<dots> = ?body 0"
    using assms(1) by (simp add: pts nth_upto)
  finally show "hd points = \<lparr>px = startX, py = startY\<rparr>"
    by (simp add: edgePoint_first)
  have "last points = points ! nat segments"
    using nonempty len by (simp add: last_conv_nth)
  also have "\<dots> = ?body segments"
    using assms(1) by (simp add: pts nth_upto)
  finally show "last points = \<lparr>px = endX, py = endY\<rparr>"
    using ne by (simp add: edgePoint_last)
qed

text \<open>The edge in exact arithmetic: the count, both end points and the interior points.\<close>

lemma generateEdgePoints_contract:
  assumes "1 \<le> segments"
  shows "\<exists>points.
           generateEdgePoints startX startY endX endY segments amplitude seed perpDirection
             = Some points
         \<and> length points = nat segments + 1
         \<and> hd points = \<lparr>px = startX, py = startY\<rparr>
         \<and> last points = \<lparr>px = endX, py = endY\<rparr>
         \<and> (\<forall>i. 1 \<le> i \<and> i < segments \<longrightarrow>
               points ! nat i
                 = \<lparr>px = startX + (endX - startX) * of_int i / of_int segments
                          + px perpDirection * getOrganicOffset (of_int i) amplitude seed
                              * (if even i then 1 else - 1),
                    py = startY + (endY - startY) * of_int i / of_int segments
                          + py perpDirection * getOrganicOffset (of_int i) amplitude seed
                              * (if even i then 1 else - 1)\<rparr>)
         \<and> (amplitude = 0 \<longrightarrow>
               (\<forall>i. 1 \<le> i \<and> i < segments \<longrightarrow>
                  points ! nat i
                    = \<lparr>px = startX + (endX - startX) * of_int i / of_int segments,
                       py = startY + (endY - startY) * of_int i / of_int segments\<rparr>))"
proof -
  let ?body = "edgePoint startX startY ((endX - startX) / of_int segments)
     ((endY - startY) / of_int segments) segments amplitude seed perpDirection"
  let ?points = "map ?body [0..segments]"
  have ne: "segments \<noteq> 0" using assms by simp
  have gen: "generateEdgePoints startX startY endX endY segments amplitude seed perpDirection
               = Some ?points"
    by (rule generateEdgePoints_eq [OF ne])
  note shape = edge_shape [OF assms gen]
  have nth: "?points ! nat i = ?body i" if "1 \<le> i" "i < segments" for i
    using that by (simp add: nth_upto)
  have interior: "?points ! nat i
      = \<lparr>px = startX + (endX - startX) * of_int i / of_int segments
               + px perpDirection * getOrganicOffset (of_int i) amplitude seed
                   * (if even i then 1 else - 1),
         py = startY + (endY - startY) * of_int i / of_int segments
               + py perpDirection * getOrganicOffset (of_int i) amplitude seed
                   * (if even i then 1 else - 1)\<rparr>"
    if "1 \<le> i" "i < segments" for i
    using that nth [OF that] edgePoint_interior [of i segments] by simp
  have flat: "?points ! nat i
      = \<lparr>px = startX + (endX - startX) * of_int i / of_int segments,
         py = startY + (endY - startY) * of_int i / of_int segments\<rparr>"
    if "amplitude = 0" "1 \<le> i" "i < segments" for i
    using interior [OF that(2,3)] that(1) by (simp add: getOrganicOffset_zero)
  show ?thesis
    using gen shape(1,2,3) interior flat by blast
qed

text \<open>
  Claim C1, as amended. For every pair of edge lengths and every segment size other than
  zero, calculateSegments returns integer counts \<open>max 4 (round (length / segmentSize))\<close>,
  with the same floor 4 on both axes; neither count falls below 4, also when the segment
  size exceeds the edge length.
\<close>

theorem calculateSegments_floor:
  fixes horizontalLength verticalLength waveSegmentSize :: real
  assumes "waveSegmentSize \<noteq> 0"
  shows "\<exists>counts.
           calculateSegments horizontalLength verticalLength waveSegmentSize = Some counts
         \<and> horizontal counts = max 4 (round (horizontalLength / waveSegmentSize))
         \<and> vertical counts = max 4 (round (verticalLength / waveSegmentSize))
         \<and> 4 \<le> horizontal counts \<and> 4 \<le> vertical counts"
  using assms by (simp add: calculateSegments_def)

theorem calculateSegments_floor_witness:
  "(50::real) \<noteq> 0
     \<and> calculateSegments 10 384 50 = Some \<lparr>horizontal = 4, vertical = 8\<rparr>"
  using calculateSegments_floor [of 50 10 384]
  by (auto simp: calculateSegments_def round_def)



text \<open>
  Claim C1 as stated asks for a horizontal floor larger than the vertical one. With both
  lengths zero each count sits on its floor, and the two counts are equal: no pair of
  floors with the horizontal one larger gives what the function returns there.
\<close>

theorem calculateSegments_floors_equal:
  "\<not> (\<exists>fh fv. fv < fh
         \<and> calculateSegments 0 0 25
             = Some \<lparr>horizontal = max fh (round (0 / 25 :: real)),
                      vertical = max fv (round (0 / 25 :: real))\<rparr>)"
  by (auto simp: calculateSegments_def)

text \<open>The viewBox in exact arithmetic: the ratio is that of the targets.\<close>

lemma calculateViewBox_aspect:
  fixes targetWidth targetHeight :: real
  assumes "0 < targetWidth" and "0 < targetHeight"
  shows "(\<exists>viewBox.
            calculateViewBox targetWidth targetHeight = Some viewBox
          \<and> width viewBox / height viewBox = targetWidth / targetHeight
          \<and> (if targetWidth \<ge> targetHeight
              then height viewBox = BASE_VIEWBOX_SIZE
                 \<and> width viewBox = BASE_VIEWBOX_SIZE * (targetWidth / targetHeight)
              else width viewBox = BASE_VIEWBOX_SIZE
                 \<and> height viewBox = BASE_VIEWBOX_SIZE * (targetHeight / targetWidth)))
       \<and> calculateViewBox 300 300
           = Some \<lparr>width = BASE_VIEWBOX_SIZE, height = BASE_VIEWBOX_SIZE\<rparr>"
  using assms by (auto simp: calculateViewBox_def BASE_VIEWBOX_SIZE_def Let_def)

section \<open>The spline converter as commands\<close>

lemma curveText_spec: "curveText fmt points i = commandText fmt (spec_curve points i)"
proof -
  have p0: "nat (max 0 (int i - 1)) = i - 1" by simp
  have p3: "nat (min (int (length points) - 1) (int i + 2)) = min (length points - 1) (i + 2)"
    by (cases "int (length points) - 1 \<le> int i + 2") (simp_all add: min_def, linarith+)
  show ?thesis
    unfolding curveText_def spec_curve_def p0 p3
    by (simp add: Let_def algebra_simps)
qed

lemma generateSmoothPath_pathText:
  assumes "2 \<le> length points"
  shows "generateSmoothPath fmt points = pathText fmt (smoothCommands points)"
proof -
  have "generateSmoothPath fmt points
          = (''M '' @ fmt (px (points ! 0)) @ '' '' @ fmt (py (points ! 0)))
              @ concat (map (curveText fmt points) [0..<length points - 1])"
    using assms by (simp add: generateSmoothPath_def smoothLoop_eq)
  also have "map (curveText fmt points) [0..<length points - 1]
               = map (commandText fmt) (map (spec_curve points) [0..<length points - 1])"
    by (simp add: curveText_spec)
  finally show ?thesis
    by (simp add: pathText_def smoothCommands_def)
qed

lemma spec_curve_end: "commandEnd (spec_curve points i) = Some (points ! (i + 1))"
  by (simp add: spec_curve_def Let_def)

lemma spec_curve_isCurve: "isCurve (spec_curve points i)"
  by (simp add: spec_curve_def Let_def)

lemma smoothCommands_ends:
  assumes "2 \<le> length points"
  shows "map commandEnd (smoothCommands points) = map Some points"
proof (rule nth_equalityI)
  show "length (map commandEnd (smoothCommands points)) = length (map Some points)"
    using assms by (simp add: smoothCommands_def)
next
  fix k assume "k < length (map commandEnd (smoothCommands points))"
  then have k: "k < length points" using assms by (simp add: smoothCommands_def)
  show "map commandEnd (smoothCommands points) ! k = map Some points ! k"
  proof (cases k)
    case 0
    then show ?thesis using k by (simp add: smoothCommands_def)
  next
    case (Suc j)
    then have "j < length points - 1" using k by simp
    then show ?thesis
      using Suc k by (simp add: smoothCommands_def spec_curve_end)
  qed
qed

lemma spec_curve_not_close:
  "spec_curve points i \<noteq> ClosePath" "ClosePath \<noteq> spec_curve points i"
  by (simp_all add: spec_curve_def Let_def)

lemma smoothCommands_open: "ClosePath \<notin> set (smoothCommands points)"
  by (auto simp: smoothCommands_def spec_curve_not_close)

text \<open>
  Claim C7. For a point sequence of length \<open>n\<close> of at least two, generateSmoothPath returns
  the text of a move-to the first point followed by exactly \<open>n - 1\<close> cubic curves, the curve
  at index \<open>i\<close> having the control points of \<^const>\<open>spec_curve\<close> at tension 0.5 and ending
  in the point at index \<open>i + 1\<close>: the end points of the commands are the input points in
  order, and no command is a close-path.
\<close>

theorem generateSmoothPath_contract:
  assumes "2 \<le> length points"
  shows "generateSmoothPath fmt points
           = pathText fmt (MoveTo (points ! 0) # map (spec_curve points) [0..<length points - 1])
         \<and> length (map (spec_curve points) [0..<length points - 1]) = length points - 1
         \<and> list_all isCurve (map (spec_curve points) [0..<length points - 1])
         \<and> map commandEnd (MoveTo (points ! 0) # map (spec_curve points) [0..<length points - 1])
             = map Some points
         \<and> ClosePath \<notin> set (MoveTo (points ! 0) # map (spec_curve points) [0..<length points - 1])
         \<and> tension = 0.5"
  using generateSmoothPath_pathText [OF assms, of fmt] smoothCommands_ends [OF assms]
    smoothCommands_open [of points]
  by (simp add: smoothCommands_def list_all_iff spec_curve_isCurve tension_def)

theorem generateSmoothPath_contract_witness:
  "\<forall>fmt. (2::nat) \<le> length [\<lparr>px = 0, py = 0\<rparr>, \<lparr>px = 6, py = 12\<rparr>]
     \<and> generateSmoothPath fmt [\<lparr>px = 0, py = 0\<rparr>, \<lparr>px = 6, py = 12\<rparr>]
         = ''M '' @ fmt 0 @ '' '' @ fmt 0
             @ '' C '' @ fmt 1 @ '' '' @ fmt 2 @ '', '' @ fmt 5 @ '' '' @ fmt 10
             @ '', '' @ fmt 6 @ '' '' @ fmt 12"
proof
  fix fmt :: "real \<Rightarrow> string"
  let ?points = "[\<lparr>px = 0, py = 0\<rparr>, \<lparr>px = 6, py = 12\<rparr>]"
  have len: "2 \<le> length ?points" by simp
  from generateSmoothPath_contract [OF len, of fmt]
  have "generateSmoothPath fmt ?points
          = pathText fmt (MoveTo (?points ! 0) # map (spec_curve ?points) [0..<length ?points - 1])"
    by blast
  then show "(2::nat) \<le> length ?points
     \<and> generateSmoothPath fmt ?points
         = ''M '' @ fmt 0 @ '' '' @ fmt 0
             @ '' C '' @ fmt 1 @ '' '' @ fmt 2 @ '', '' @ fmt 5 @ '' '' @ fmt 10
             @ '', '' @ fmt 6 @ '' '' @ fmt 12"
    by (simp add: pathText_def spec_curve_def tension_def)
qed

section \<open>The path assembler\<close>

lemma calculateSegments_eq:
  fixes waveSegmentSize :: real
  shows "waveSegmentSize \<noteq> 0 \<Longrightarrow>
    calculateSegments horizontalLength verticalLength waveSegmentSize
      = Some \<lparr>horizontal = max 4 (round (horizontalLength / waveSegmentSize)),
               vertical = max 4 (round (verticalLength / waveSegmentSize))\<rparr>"
  by (simp add: calculateSegments_def)

text \<open>The four edges and their concatenation, as both versions of generateWigglyPath
  compute them from the rectangle and the two counts.\<close>

lemma four_edges:
  fixes left right top bottom amplitude :: real and h v :: int
  assumes "h \<noteq> 0" and "v \<noteq> 0"
  obtains topPoints rightPoints bottomPoints leftPoints where
    "generateEdgePoints left top right top h amplitude EDGE_SEEDS_top \<lparr>px = 0, py = - 1\<rparr>
       = Some topPoints"
    "generateEdgePoints right top right bottom v amplitude EDGE_SEEDS_right \<lparr>px = 1, py = 0\<rparr>
       = Some rightPoints"
    "generateEdgePoints right bottom left bottom h amplitude EDGE_SEEDS_bottom \<lparr>px = 0, py = 1\<rparr>
       = Some bottomPoints"
    "generateEdgePoints left bottom left top v amplitude EDGE_SEEDS_left \<lparr>px = - 1, py = 0\<rparr>
       = Some leftPoints"
  using assms by (simp add: generateEdgePoints_eq)

lemma wigglyLocals_shape:
  fixes viewBox :: viewBox and options :: options
  defines "p \<equiv> waveAmplitude options + borderWidth options"
  defines "counts \<equiv>
    \<lparr>horizontal = max 4 (round ((width viewBox - p - p) / waveSegmentSize options)),
     vertical = max 4 (round ((height viewBox - p - p) / waveSegmentSize options))\<rparr>"
  assumes size: "waveSegmentSize options \<noteq> 0"
  obtains topPoints rightPoints bottomPoints leftPoints where
    "generateEdgePoints p p (width viewBox - p) p (horizontal counts) (waveAmplitude options)
       EDGE_SEEDS_top \<lparr>px = 0, py = - 1\<rparr> = Some topPoints"
    "generateEdgePoints (width viewBox - p) p (width viewBox - p) (height viewBox - p)
       (vertical counts) (waveAmplitude options) EDGE_SEEDS_right \<lparr>px = 1, py = 0\<rparr>
       = Some rightPoints"
    "generateEdgePoints (width viewBox - p) (height viewBox - p) p (height viewBox - p)
       (horizontal counts) (waveAmplitude options) EDGE_SEEDS_bottom \<lparr>px = 0, py = 1\<rparr>
       = Some bottomPoints"
    "generateEdgePoints p (height viewBox - p) p p (vertical counts) (waveAmplitude options)
       EDGE_SEEDS_left \<lparr>px = - 1, py = 0\<rparr> = Some leftPoints"
    "wigglyLocals viewBox options
       = Some \<lparr>l_padding = p, l_left = p, l_right = width viewBox - p, l_top = p,
           l_bottom = height viewBox - p, l_segments = counts, l_topPoints = topPoints,
           l_rightPoints = rightPoints, l_bottomPoints = bottomPoints,
           l_leftPoints = leftPoints,
           l_allPoints = topPoints @ tl rightPoints @ tl bottomPoints @ butlast (tl leftPoints)\<rparr>"
proof -
  have h: "horizontal counts \<noteq> 0" and v: "vertical counts \<noteq> 0"
    by (simp_all add: counts_def)
  obtain topPoints rightPoints bottomPoints leftPoints where edges:
    "generateEdgePoints p p (width viewBox - p) p (horizontal counts) (waveAmplitude options)
       EDGE_SEEDS_top \<lparr>px = 0, py = - 1\<rparr> = Some topPoints"
    "generateEdgePoints (width viewBox - p) p (width viewBox - p) (height viewBox - p)
       (vertical counts) (waveAmplitude options) EDGE_SEEDS_right \<lparr>px = 1, py = 0\<rparr>
       = Some rightPoints"
    "generateEdgePoints (width viewBox - p) (height viewBox - p) p (height viewBox - p)
       (horizontal counts) (waveAmplitude options) EDGE_SEEDS_bottom \<lparr>px = 0, py = 1\<rparr>
       = Some bottomPoints"
    "generateEdgePoints p (height viewBox - p) p p (vertical counts) (waveAmplitude options)
       EDGE_SEEDS_left \<lparr>px = - 1, py = 0\<rparr> = Some leftPoints"
    by (rule four_edges [OF h v])
  have segs: "calculateSegments (width viewBox - p - p) (height viewBox - p - p)
      (waveSegmentSize options) = Some counts"
    unfolding counts_def by (rule calculateSegments_eq [OF size])
  then have segs2: "calculateSegments (width viewBox - 2 * p) (height viewBox - 2 * p)
      (waveSegmentSize options) = Some counts"
    by simp
  have "wigglyLocals viewBox options
       = Some \<lparr>l_padding = p, l_left = p, l_right = width viewBox - p, l_top = p,
           l_bottom = height viewBox - p, l_segments = counts, l_topPoints = topPoints,
           l_rightPoints = rightPoints, l_bottomPoints = bottomPoints,
           l_leftPoints = leftPoints,
           l_allPoints = topPoints @ tl rightPoints @ tl bottomPoints @ butlast (tl leftPoints)\<rparr>"
    unfolding wigglyLocals_def Let_def p_def [symmetric]
    by (simp add: segs2 edges slice_from_1 slice_1_minus_1)
  with edges show thesis by (rule that)
qed

lemma fixed_wigglyLocals_shape:
  fixes options :: options
  defines "p \<equiv> waveAmplitude options + borderWidth options"
  defines "counts \<equiv>
    \<lparr>horizontal = max 6 \<lfloor>VIEW_BOX_WIDTH / waveSegmentSize options\<rfloor>,
     vertical = max 4 \<lfloor>VIEW_BOX_HEIGHT / waveSegmentSize options\<rfloor>\<rparr>"
  assumes size: "waveSegmentSize options \<noteq> 0"
  obtains topPoints rightPoints bottomPoints leftPoints where
    "generateEdgePoints p p (VIEW_BOX_WIDTH - p) p (horizontal counts) (waveAmplitude options)
       EDGE_SEEDS_top \<lparr>px = 0, py = - 1\<rparr> = Some topPoints"
    "generateEdgePoints (VIEW_BOX_WIDTH - p) p (VIEW_BOX_WIDTH - p) (VIEW_BOX_HEIGHT - p)
       (vertical counts) (waveAmplitude options) EDGE_SEEDS_right \<lparr>px = 1, py = 0\<rparr>
       = Some rightPoints"
    "generateEdgePoints (VIEW_BOX_WIDTH - p) (VIEW_BOX_HEIGHT - p) p (VIEW_BOX_HEIGHT - p)
       (horizontal counts) (waveAmplitude options) EDGE_SEEDS_bottom \<lparr>px = 0, py = 1\<rparr>
       = Some bottomPoints"
    "generateEdgePoints p (VIEW_BOX_HEIGHT - p) p p (vertical counts) (waveAmplitude options)
       EDGE_SEEDS_left \<lparr>px = - 1, py = 0\<rparr> = Some leftPoints"
    "fixed_wigglyLocals options
       = Some \<lparr>l_padding = p, l_left = p, l_right = VIEW_BOX_WIDTH - p, l_top = p,
           l_bottom = VIEW_BOX_HEIGHT - p, l_segments = counts, l_topPoints = topPoints,
           l_rightPoints = rightPoints, l_bottomPoints = bottomPoints,
           l_leftPoints = leftPoints,
           l_allPoints = topPoints @ tl rightPoints @ tl bottomPoints @ butlast (tl leftPoints)\<rparr>"
proof -
  have h: "horizontal counts \<noteq> 0" and v: "vertical counts \<noteq> 0"
    by (simp_all add: counts_def)
  obtain topPoints rightPoints bottomPoints leftPoints where edges:
    "generateEdgePoints p p (VIEW_BOX_WIDTH - p) p (horizontal counts) (waveAmplitude options)
       EDGE_SEEDS_top \<lparr>px = 0, py = - 1\<rparr> = Some topPoints"
    "generateEdgePoints (VIEW_BOX_WIDTH - p) p (VIEW_BOX_WIDTH - p) (VIEW_BOX_HEIGHT - p)
       (vertical counts) (waveAmplitude options) EDGE_SEEDS_right \<lparr>px = 1, py = 0\<rparr>
       = Some rightPoints"
    "generateEdgePoints (VIEW_BOX_WIDTH - p) (VIEW_BOX_HEIGHT - p) p (VIEW_BOX_HEIGHT - p)
       (horizontal counts) (waveAmplitude options) EDGE_SEEDS_bottom \<lparr>px = 0, py = 1\<rparr>
       = Some bottomPoints"
    "generateEdgePoints p (VIEW_BOX_HEIGHT - p) p p (vertical counts) (waveAmplitude options)
       EDGE_SEEDS_left \<lparr>px = - 1, py = 0\<rparr> = Some leftPoints"
    by (rule four_edges [OF h v])
  have "fixed_wigglyLocals options
       = Some \<lparr>l_padding = p, l_left = p, l_right = VIEW_BOX_WIDTH - p, l_top = p,
           l_bottom = VIEW_BOX_HEIGHT - p, l_segments = counts, l_topPoints = topPoints,
           l_rightPoints = rightPoints, l_bottomPoints = bottomPoints,
           l_leftPoints = leftPoints,
           l_allPoints = topPoints @ tl rightPoints @ tl bottomPoints @ butlast (tl leftPoints)\<rparr>"
    using edges size unfolding fixed_wigglyLocals_def Let_def p_def [symmetric] counts_def
    by (simp add: slice_from_1 slice_1_minus_1)
  with edges show thesis by (rule that)
qed

lemma calculateViewBox_eq:
  fixes targetWidth targetHeight :: real
  assumes "0 < targetWidth" and "0 < targetHeight"
  shows "calculateViewBox targetWidth targetHeight
           = Some (if targetWidth \<ge> targetHeight
                   then \<lparr>width = BASE_VIEWBOX_SIZE * (targetWidth / targetHeight),
                         height = BASE_VIEWBOX_SIZE\<rparr>
                   else \<lparr>width = BASE_VIEWBOX_SIZE,
                         height = BASE_VIEWBOX_SIZE / (targetWidth / targetHeight)\<rparr>)"
  using assms by (simp add: calculateViewBox_def Let_def)


lemma closed_path_commands:
  assumes "2 \<le> length points"
  shows "generateSmoothPath fmt points @ '' Z''
           = pathText fmt (smoothCommands points @ [ClosePath])"
  using generateSmoothPath_pathText [OF assms, of fmt] by (simp add: pathText_def)

text \<open>The length of the concatenation, from the lengths of the four edges.\<close>

lemma assembled_length:
  assumes "length topPoints = h + 1" and "length rightPoints = v + 1"
    and "length bottomPoints = h + 1" and "length leftPoints = v + 1" and "1 \<le> v"
  shows "length (topPoints @ tl rightPoints @ tl bottomPoints @ butlast (tl leftPoints))
           = 2 * (h + v)"
  using assms by simp

lemma wigglyLocals_defined:
  assumes "waveSegmentSize options \<noteq> 0"
  shows "\<exists>locals. wigglyLocals viewBox options = Some locals"
  using wigglyLocals_shape [OF assms, of viewBox] by blast

lemma wigglyLocals_run:
  assumes size: "waveSegmentSize options \<noteq> 0"
    and run: "wigglyLocals viewBox options = Some locals"
  shows "l_padding locals = waveAmplitude options + borderWidth options"
    and "l_left locals = l_padding locals"
    and "l_right locals = width viewBox - l_padding locals"
    and "l_top locals = l_padding locals"
    and "l_bottom locals = height viewBox - l_padding locals"
    and "l_segments locals
       = \<lparr>horizontal = max 4 (round ((l_right locals - l_left locals) / waveSegmentSize options)),
          vertical = max 4 (round ((l_bottom locals - l_top locals) / waveSegmentSize options))\<rparr>"
    and "4 \<le> horizontal (l_segments locals)"
    and "4 \<le> vertical (l_segments locals)"
    and "length (l_topPoints locals) = nat (horizontal (l_segments locals)) + 1"
    and "length (l_rightPoints locals) = nat (vertical (l_segments locals)) + 1"
    and "length (l_bottomPoints locals) = nat (horizontal (l_segments locals)) + 1"
    and "length (l_leftPoints locals) = nat (vertical (l_segments locals)) + 1"
    and "hd (l_topPoints locals) = \<lparr>px = l_left locals, py = l_top locals\<rparr>"
    and "last (l_topPoints locals) = \<lparr>px = l_right locals, py = l_top locals\<rparr>"
    and "hd (l_rightPoints locals) = \<lparr>px = l_right locals, py = l_top locals\<rparr>"
    and "last (l_rightPoints locals) = \<lparr>px = l_right locals, py = l_bottom locals\<rparr>"
    and "hd (l_bottomPoints locals) = \<lparr>px = l_right locals, py = l_bottom locals\<rparr>"
    and "last (l_bottomPoints locals) = \<lparr>px = l_left locals, py = l_bottom locals\<rparr>"
    and "hd (l_leftPoints locals) = \<lparr>px = l_left locals, py = l_bottom locals\<rparr>"
    and "last (l_leftPoints locals) = \<lparr>px = l_left locals, py = l_top locals\<rparr>"
    and "l_allPoints locals
       = l_topPoints locals @ tl (l_rightPoints locals) @ tl (l_bottomPoints locals)
           @ butlast (tl (l_leftPoints locals))"
    and "length (l_allPoints locals)
       = 2 * (nat (horizontal (l_segments locals)) + nat (vertical (l_segments locals)))"
proof -
  define p where "p = waveAmplitude options + borderWidth options"
  define counts where "counts =
    \<lparr>horizontal = max 4 (round ((width viewBox - p - p) / waveSegmentSize options)),
     vertical = max 4 (round ((height viewBox - p - p) / waveSegmentSize options))\<rparr>"
  obtain topPoints rightPoints bottomPoints leftPoints where
    top: "generateEdgePoints p p (width viewBox - p) p (horizontal counts) (waveAmplitude options)
       EDGE_SEEDS_top \<lparr>px = 0, py = - 1\<rparr> = Some topPoints"
    and right: "generateEdgePoints (width viewBox - p) p (width viewBox - p) (height viewBox - p)
       (vertical counts) (waveAmplitude options) EDGE_SEEDS_right \<lparr>px = 1, py = 0\<rparr>
       = Some rightPoints"
    and bottom: "generateEdgePoints (width viewBox - p) (height viewBox - p) p (height viewBox - p)
       (horizontal counts) (waveAmplitude options) EDGE_SEEDS_bottom \<lparr>px = 0, py = 1\<rparr>
       = Some bottomPoints"
    and left: "generateEdgePoints p (height viewBox - p) p p (vertical counts)
       (waveAmplitude options) EDGE_SEEDS_left \<lparr>px = - 1, py = 0\<rparr> = Some leftPoints"
    and shape: "wigglyLocals viewBox options
       = Some \<lparr>l_padding = p, l_left = p, l_right = width viewBox - p, l_top = p,
           l_bottom = height viewBox - p, l_segments = counts, l_topPoints = topPoints,
           l_rightPoints = rightPoints, l_bottomPoints = bottomPoints,
           l_leftPoints = leftPoints,
           l_allPoints = topPoints @ tl rightPoints @ tl bottomPoints @ butlast (tl leftPoints)\<rparr>"
    unfolding p_def counts_def by (rule wigglyLocals_shape [OF size, of viewBox])
  have locals: "locals = \<lparr>l_padding = p, l_left = p, l_right = width viewBox - p, l_top = p,
           l_bottom = height viewBox - p, l_segments = counts, l_topPoints = topPoints,
           l_rightPoints = rightPoints, l_bottomPoints = bottomPoints,
           l_leftPoints = leftPoints,
           l_allPoints = topPoints @ tl rightPoints @ tl bottomPoints @ butlast (tl leftPoints)\<rparr>"
    using run shape by simp
  have h: "4 \<le> horizontal counts" and v: "4 \<le> vertical counts"
    by (simp_all add: counts_def)
  have h1: "1 \<le> horizontal counts" and v1: "1 \<le> vertical counts"
    using h v by simp_all
  note t = edge_shape [OF h1 top] and r = edge_shape [OF v1 right]
    and b = edge_shape [OF h1 bottom] and l = edge_shape [OF v1 left]
  have v2: "1 \<le> nat (vertical counts)" using v by simp
  have len: "length (topPoints @ tl rightPoints @ tl bottomPoints @ butlast (tl leftPoints))
      = 2 * (nat (horizontal counts) + nat (vertical counts))"
    by (rule assembled_length [OF t(1) r(1) b(1) l(1) v2])
  show "l_padding locals = waveAmplitude options + borderWidth options"
    and "l_left locals = l_padding locals"
    and "l_right locals = width viewBox - l_padding locals"
    and "l_top locals = l_padding locals"
    and "l_bottom locals = height viewBox - l_padding locals"
    by (simp_all add: locals p_def)
  show "l_segments locals
       = \<lparr>horizontal = max 4 (round ((l_right locals - l_left locals) / waveSegmentSize options)),
          vertical = max 4 (round ((l_bottom locals - l_top locals) / waveSegmentSize options))\<rparr>"
    by (simp add: locals counts_def)
  show "4 \<le> horizontal (l_segments locals)" and "4 \<le> vertical (l_segments locals)"
    using h v by (simp_all add: locals)
  show "length (l_topPoints locals) = nat (horizontal (l_segments locals)) + 1"
    and "length (l_rightPoints locals) = nat (vertical (l_segments locals)) + 1"
    and "length (l_bottomPoints locals) = nat (horizontal (l_segments locals)) + 1"
    and "length (l_leftPoints locals) = nat (vertical (l_segments locals)) + 1"
    using t(1) r(1) b(1) l(1) by (simp_all add: locals)
  show "hd (l_topPoints locals) = \<lparr>px = l_left locals, py = l_top locals\<rparr>"
    and "last (l_topPoints locals) = \<lparr>px = l_right locals, py = l_top locals\<rparr>"
    using t(2,3) by (simp_all add: locals)
  show "hd (l_rightPoints locals) = \<lparr>px = l_right locals, py = l_top locals\<rparr>"
    and "last (l_rightPoints locals) = \<lparr>px = l_right locals, py = l_bottom locals\<rparr>"
    using r(2,3) by (simp_all add: locals)
  show "hd (l_bottomPoints locals) = \<lparr>px = l_right locals, py = l_bottom locals\<rparr>"
    and "last (l_bottomPoints locals) = \<lparr>px = l_left locals, py = l_bottom locals\<rparr>"
    using b(2,3) by (simp_all add: locals)
  show "hd (l_leftPoints locals) = \<lparr>px = l_left locals, py = l_bottom locals\<rparr>"
    and "last (l_leftPoints locals) = \<lparr>px = l_left locals, py = l_top locals\<rparr>"
    using l(2,3) by (simp_all add: locals)
  show "l_allPoints locals
       = l_topPoints locals @ tl (l_rightPoints locals) @ tl (l_bottomPoints locals)
           @ butlast (tl (l_leftPoints locals))"
    by (simp add: locals)
  show "length (l_allPoints locals)
       = 2 * (nat (horizontal (l_segments locals)) + nat (vertical (l_segments locals)))"
    using len by (simp add: locals)
qed

lemma fixed_wigglyLocals_defined:
  assumes "waveSegmentSize options \<noteq> 0"
  shows "\<exists>locals. fixed_wigglyLocals options = Some locals"
  using fixed_wigglyLocals_shape [OF assms] by blast

lemma fixed_wigglyLocals_run:
  assumes size: "waveSegmentSize options \<noteq> 0"
    and run: "fixed_wigglyLocals options = Some locals"
  shows "l_segments locals
       = \<lparr>horizontal = max 6 \<lfloor>VIEW_BOX_WIDTH / waveSegmentSize options\<rfloor>,
          vertical = max 4 \<lfloor>VIEW_BOX_HEIGHT / waveSegmentSize options\<rfloor>\<rparr>"
    and "6 \<le> horizontal (l_segments locals)"
    and "4 \<le> vertical (l_segments locals)"
    and "length (l_allPoints locals)
       = 2 * (nat (horizontal (l_segments locals)) + nat (vertical (l_segments locals)))"
proof -
  define p where "p = waveAmplitude options + borderWidth options"
  define counts where "counts =
    \<lparr>horizontal = max 6 \<lfloor>VIEW_BOX_WIDTH / waveSegmentSize options\<rfloor>,
     vertical = max 4 \<lfloor>VIEW_BOX_HEIGHT / waveSegmentSize options\<rfloor>\<rparr>"
  obtain topPoints rightPoints bottomPoints leftPoints where
    top: "generateEdgePoints p p (VIEW_BOX_WIDTH - p) p (horizontal counts) (waveAmplitude options)
       EDGE_SEEDS_top \<lparr>px = 0, py = - 1\<rparr> = Some topPoints"
    and right: "generateEdgePoints (VIEW_BOX_WIDTH - p) p (VIEW_BOX_WIDTH - p) (VIEW_BOX_HEIGHT - p)
       (vertical counts) (waveAmplitude options) EDGE_SEEDS_right \<lparr>px = 1, py = 0\<rparr>
       = Some rightPoints"
    and bottom: "generateEdgePoints (VIEW_BOX_WIDTH - p) (VIEW_BOX_HEIGHT - p) p (VIEW_BOX_HEIGHT - p)
       (horizontal counts) (waveAmplitude options) EDGE_SEEDS_bottom \<lparr>px = 0, py = 1\<rparr>
       = Some bottomPoints"
    and left: "generateEdgePoints p (VIEW_BOX_HEIGHT - p) p p (vertical counts)
       (waveAmplitude options) EDGE_SEEDS_left \<lparr>px = - 1, py = 0\<rparr> = Some leftPoints"
    and shape: "fixed_wigglyLocals options
       = Some \<lparr>l_padding = p, l_left = p, l_right = VIEW_BOX_WIDTH - p, l_top = p,
           l_bottom = VIEW_BOX_HEIGHT - p, l_segments = counts, l_topPoints = topPoints,
           l_rightPoints = rightPoints, l_bottomPoints = bottomPoints,
           l_leftPoints = leftPoints,
           l_allPoints = topPoints @ tl rightPoints @ tl bottomPoints @ butlast (tl leftPoints)\<rparr>"
    unfolding p_def counts_def by (rule fixed_wigglyLocals_shape [OF size])
  have locals: "locals = \<lparr>l_padding = p, l_left = p, l_right = VIEW_BOX_WIDTH - p, l_top = p,
           l_bottom = VIEW_BOX_HEIGHT - p, l_segments = counts, l_topPoints = topPoints,
           l_rightPoints = rightPoints, l_bottomPoints = bottomPoints,
           l_leftPoints = leftPoints,
           l_allPoints = topPoints @ tl rightPoints @ tl bottomPoints @ butlast (tl leftPoints)\<rparr>"
    using run shape by simp
  have h: "6 \<le> horizontal counts" and v: "4 \<le> vertical counts"
    by (simp_all add: counts_def)
  have h1: "1 \<le> horizontal counts" and v1: "1 \<le> vertical counts"
    using h v by simp_all
  note t = edge_shape [OF h1 top] and r = edge_shape [OF v1 right]
    and b = edge_shape [OF h1 bottom] and l = edge_shape [OF v1 left]
  have v2: "1 \<le> nat (vertical counts)" using v by simp
  have len: "length (topPoints @ tl rightPoints @ tl bottomPoints @ butlast (tl leftPoints))
      = 2 * (nat (horizontal counts) + nat (vertical counts))"
    by (rule assembled_length [OF t(1) r(1) b(1) l(1) v2])
  show "l_segments locals
       = \<lparr>horizontal = max 6 \<lfloor>VIEW_BOX_WIDTH / waveSegmentSize options\<rfloor>,
          vertical = max 4 \<lfloor>VIEW_BOX_HEIGHT / waveSegmentSize options\<rfloor>\<rparr>"
    by (simp add: locals counts_def)
  show "6 \<le> horizontal (l_segments locals)" and "4 \<le> vertical (l_segments locals)"
    using h v by (simp_all add: locals)
  show "length (l_allPoints locals)
       = 2 * (nat (horizontal (l_segments locals)) + nat (vertical (l_segments locals)))"
    using len by (simp add: locals)
qed

lemma validOptions_viewBox:
  assumes "validOptions options"
  obtains viewBox where
    "calculateViewBox (targetWidth options) (targetHeight options) = Some viewBox"
  using assms calculateViewBox_eq [of "targetWidth options" "targetHeight options"]
  by (simp add: validOptions_def)


section \<open>The run on the default options\<close>

text \<open>The run on the default options, in numbers.\<close>

lemma default_viewBox:
  "calculateViewBox 400 300 = Some \<lparr>width = 1600 / 3, height = 400\<rparr>"
  by (simp add: calculateViewBox_def BASE_VIEWBOX_SIZE_def)

lemma default_valid: "validOptions defaultOptions"
  by (simp add: validOptions_def defaultOptions_def)

lemma default_locals:
  assumes "wigglyLocals \<lparr>width = 1600 / 3, height = 400\<rparr> defaultOptions = Some locals"
  shows "l_padding locals = 8" and "l_left locals = 8" and "l_right locals = 1576 / 3"
    and "l_top locals = 8" and "l_bottom locals = 392"
    and "l_segments locals = \<lparr>horizontal = 21, vertical = 15\<rparr>"
    and "hd (l_topPoints locals) = \<lparr>px = 8, py = 8\<rparr>"
    and "last (l_topPoints locals) = \<lparr>px = 1576 / 3, py = 8\<rparr>"
    and "hd (l_rightPoints locals) = \<lparr>px = 1576 / 3, py = 8\<rparr>"
    and "length (l_allPoints locals) = 72"
proof -
  have size: "waveSegmentSize defaultOptions \<noteq> 0"
    by (simp add: defaultOptions_def)
  note facts = wigglyLocals_run [OF size assms]
  show p: "l_padding locals = 8"
    using facts(1) by (simp add: defaultOptions_def)
  show l: "l_left locals = 8" using facts(2) p by simp
  show r: "l_right locals = 1576 / 3" using facts(3) p by simp
  show t: "l_top locals = 8" using facts(4) p by simp
  show b: "l_bottom locals = 392" using facts(5) p by simp
  show s: "l_segments locals = \<lparr>horizontal = 21, vertical = 15\<rparr>"
    using facts(6) by (simp add: l r t b defaultOptions_def round_def)
  show "hd (l_topPoints locals) = \<lparr>px = 8, py = 8\<rparr>"
    using facts(13) l t by simp
  show "last (l_topPoints locals) = \<lparr>px = 1576 / 3, py = 8\<rparr>"
    using facts(14) r t by simp
  show "hd (l_rightPoints locals) = \<lparr>px = 1576 / 3, py = 8\<rparr>"
    using facts(15) r t by simp
  show "length (l_allPoints locals) = 72"
    using facts(22) by (simp add: s)
qed




section \<open>The two versions of generateWigglyPath\<close>

lemma generateWigglyPathIn_eq:
  "map_option pathData (generateWigglyPathIn fmt viewBox options)
     = map_option (\<lambda>locals. generateSmoothPath fmt (l_allPoints locals) @ '' Z'')
         (wigglyLocals viewBox options)"
  by (cases "wigglyLocals viewBox options") (simp_all add: generateWigglyPathIn_def)

lemma fixed_generateWigglyPath_eq:
  "fixed_generateWigglyPath fmt options
     = map_option (\<lambda>locals. generateSmoothPath fmt (l_allPoints locals) @ '' Z'')
         (fixed_wigglyLocals options)"
  by (cases "fixed_wigglyLocals options") (simp_all add: fixed_generateWigglyPath_def)

text \<open>
  Claim C3, as amended. The two versions of generateWigglyPath differ in the viewBox and
  in the segment counts: the older one takes \<open>max 6 \<lfloor>400 / size\<rfloor>\<close> and
  \<open>max 4 \<lfloor>300 / size\<rfloor>\<close> from the whole viewBox, the newer one calculateSegments on the
  lengths of the inset edges. For every parameter set on which the two counts agree, the
  newer function run on the viewBox 400 by 300 computes the same local values and the same
  path string as the older one: edge sampling, spline conversion and assembly are the same.
\<close>

theorem generations_agree_on_equal_counts:
  fixes options :: options
  assumes "calculateSegments
             (VIEW_BOX_WIDTH - (waveAmplitude options + borderWidth options)
                - (waveAmplitude options + borderWidth options))
             (VIEW_BOX_HEIGHT - (waveAmplitude options + borderWidth options)
                - (waveAmplitude options + borderWidth options))
             (waveSegmentSize options)
           = Some \<lparr>horizontal = max 6 \<lfloor>VIEW_BOX_WIDTH / waveSegmentSize options\<rfloor>,
                    vertical = max 4 \<lfloor>VIEW_BOX_HEIGHT / waveSegmentSize options\<rfloor>\<rparr>"
  shows "wigglyLocals \<lparr>width = VIEW_BOX_WIDTH, height = VIEW_BOX_HEIGHT\<rparr> options
           = fixed_wigglyLocals options
       \<and> map_option pathData
           (generateWigglyPathIn fmt \<lparr>width = VIEW_BOX_WIDTH, height = VIEW_BOX_HEIGHT\<rparr> options)
           = fixed_generateWigglyPath fmt options"
proof -
  have size: "waveSegmentSize options \<noteq> 0"
    using assms by (auto simp: calculateSegments_def split: if_splits)
  have locals: "wigglyLocals \<lparr>width = VIEW_BOX_WIDTH, height = VIEW_BOX_HEIGHT\<rparr> options
           = fixed_wigglyLocals options"
    unfolding wigglyLocals_def fixed_wigglyLocals_def Let_def
    by (simp only: viewBox.select_convs segmentCounts.select_convs assms size
        Option.bind.simps if_False)
  then show ?thesis
    by (simp add: generateWigglyPathIn_eq fixed_generateWigglyPath_eq)
qed

theorem generations_agree_on_equal_counts_witness:
  "\<forall>fmt. calculateSegments (400 - (4 + 4) - (4 + 4)) (300 - (4 + 4) - (4 + 4)) 50
            = Some \<lparr>horizontal = 8, vertical = 6\<rparr>
     \<and> max 6 \<lfloor>400 / 50 :: real\<rfloor> = 8 \<and> max 4 \<lfloor>300 / 50 :: real\<rfloor> = 6
     \<and> map_option pathData
         (generateWigglyPathIn fmt \<lparr>width = 400, height = 300\<rparr>
            \<lparr>waveAmplitude = 4, waveSegmentSize = 50, borderWidth = 4,
             targetWidth = 400, targetHeight = 300\<rparr>)
         = fixed_generateWigglyPath fmt
             \<lparr>waveAmplitude = 4, waveSegmentSize = 50, borderWidth = 4,
              targetWidth = 400, targetHeight = 300\<rparr>"
proof
  fix fmt :: "real \<Rightarrow> string"
  let ?options = "\<lparr>waveAmplitude = 4, waveSegmentSize = 50, borderWidth = 4,
             targetWidth = 400, targetHeight = 300\<rparr>"
  have counts: "calculateSegments (400 - (4 + 4) - (4 + 4)) (300 - (4 + 4) - (4 + 4)) 50
            = Some \<lparr>horizontal = 8, vertical = 6\<rparr>"
    by (simp add: calculateSegments_def round_def)
  have floors: "max 6 \<lfloor>400 / 50 :: real\<rfloor> = 8" "max 4 \<lfloor>300 / 50 :: real\<rfloor> = 6"
    by simp_all
  have hyp: "calculateSegments
             (VIEW_BOX_WIDTH - (waveAmplitude ?options + borderWidth ?options)
                - (waveAmplitude ?options + borderWidth ?options))
             (VIEW_BOX_HEIGHT - (waveAmplitude ?options + borderWidth ?options)
                - (waveAmplitude ?options + borderWidth ?options))
             (waveSegmentSize ?options)
           = Some \<lparr>horizontal = max 6 \<lfloor>VIEW_BOX_WIDTH / waveSegmentSize ?options\<rfloor>,
                    vertical = max 4 \<lfloor>VIEW_BOX_HEIGHT / waveSegmentSize ?options\<rfloor>\<rparr>"
    using counts by (simp add: VIEW_BOX_WIDTH_def VIEW_BOX_HEIGHT_def)
  from generations_agree_on_equal_counts [OF hyp, of fmt]
  have "map_option pathData
         (generateWigglyPathIn fmt \<lparr>width = 400, height = 300\<rparr> ?options)
         = fixed_generateWigglyPath fmt ?options"
    by (simp add: VIEW_BOX_WIDTH_def VIEW_BOX_HEIGHT_def)
  with counts floors show "calculateSegments (400 - (4 + 4) - (4 + 4)) (300 - (4 + 4) - (4 + 4)) 50
            = Some \<lparr>horizontal = 8, vertical = 6\<rparr>
     \<and> max 6 \<lfloor>400 / 50 :: real\<rfloor> = 8 \<and> max 4 \<lfloor>300 / 50 :: real\<rfloor> = 6
     \<and> map_option pathData
         (generateWigglyPathIn fmt \<lparr>width = 400, height = 300\<rparr> ?options)
         = fixed_generateWigglyPath fmt ?options"
    by (intro conjI)
qed

text \<open>Counting the letter C in a path.\<close>

lemma count_C_commandText:
  assumes "\<forall>r. CHR ''C'' \<notin> set (fmt r)"
  shows "count_list (commandText fmt c) (CHR ''C'') = (if isCurve c then 1 else 0)"
proof -
  have zero: "count_list (fmt r) (CHR ''C'') = 0" for r
    using assms by (simp add: count_list_0_iff)
  show ?thesis by (cases c) (simp_all add: zero)
qed

lemma count_C_pathText:
  assumes "\<forall>r. CHR ''C'' \<notin> set (fmt r)"
  shows "count_list (pathText fmt cmds) (CHR ''C'') = length (filter isCurve cmds)"
  by (induction cmds) (simp_all add: pathText_def count_C_commandText [OF assms])

lemma curves_of_smoothCommands:
  "length (filter isCurve (smoothCommands points @ [ClosePath])) = length points - 1"
proof -
  have "filter isCurve (map (spec_curve points) [0..<length points - 1])
          = map (spec_curve points) [0..<length points - 1]"
    by (simp add: spec_curve_isCurve)
  then show ?thesis by (simp add: smoothCommands_def)
qed

lemma count_C_closed_path:
  assumes "\<forall>r. CHR ''C'' \<notin> set (fmt r)" and "2 \<le> length points"
  shows "count_list (generateSmoothPath fmt points @ '' Z'') (CHR ''C'') = length points - 1"
  using closed_path_commands [OF assms(2), of fmt] count_C_pathText [OF assms(1)]
    curves_of_smoothCommands [of points]
  by simp

text \<open>
  Claim C3 as stated has the two versions agree on every parameter set. On the default
  options and the viewBox 400 by 300 the newer version counts 15 and 11 segments and
  assembles 52 points, the older one counts 16 and 12 and assembles 56; the two path
  strings then hold 51 and 55 curve commands, and they differ for every conversion of
  numbers to text that never writes the letter C.
\<close>

theorem generations_differ_at_defaults:
  "(\<exists>locals fixedLocals.
       wigglyLocals \<lparr>width = 400, height = 300\<rparr>
         \<lparr>waveAmplitude = 4, waveSegmentSize = 25, borderWidth = 4,
          targetWidth = 400, targetHeight = 300\<rparr> = Some locals
     \<and> fixed_wigglyLocals
         \<lparr>waveAmplitude = 4, waveSegmentSize = 25, borderWidth = 4,
          targetWidth = 400, targetHeight = 300\<rparr> = Some fixedLocals
     \<and> l_segments locals = \<lparr>horizontal = 15, vertical = 11\<rparr>
     \<and> l_segments fixedLocals = \<lparr>horizontal = 16, vertical = 12\<rparr>
     \<and> length (l_allPoints locals) = 52
     \<and> length (l_allPoints fixedLocals) = 56)
   \<and> \<not> (\<exists>fmt. (\<forall>r. CHR ''C'' \<notin> set (fmt r))
          \<and> map_option pathData
              (generateWigglyPathIn fmt \<lparr>width = 400, height = 300\<rparr>
                 \<lparr>waveAmplitude = 4, waveSegmentSize = 25, borderWidth = 4,
                  targetWidth = 400, targetHeight = 300\<rparr>)
              = fixed_generateWigglyPath fmt
                  \<lparr>waveAmplitude = 4, waveSegmentSize = 25, borderWidth = 4,
                   targetWidth = 400, targetHeight = 300\<rparr>)"
proof -
  let ?options = "\<lparr>waveAmplitude = 4, waveSegmentSize = 25, borderWidth = 4,
          targetWidth = 400, targetHeight = 300\<rparr>"
  let ?viewBox = "\<lparr>width = 400, height = 300\<rparr>"
  have size: "waveSegmentSize ?options \<noteq> 0" by simp
  obtain locals where run: "wigglyLocals ?viewBox ?options = Some locals"
    using wigglyLocals_defined [OF size] by blast
  obtain fixedLocals where frun: "fixed_wigglyLocals ?options = Some fixedLocals"
    using fixed_wigglyLocals_defined [OF size] by blast
  note facts = wigglyLocals_run [OF size run]
  note ffacts = fixed_wigglyLocals_run [OF size frun]
  have p: "l_padding locals = 8" using facts(1) by simp
  have rect: "l_left locals = 8" "l_right locals = 392" "l_top locals = 8" "l_bottom locals = 292"
    using facts(2-5) p by simp_all
  have segs: "l_segments locals = \<lparr>horizontal = 15, vertical = 11\<rparr>"
    using facts(6) by (simp add: rect round_def)
  have fsegs: "l_segments fixedLocals = \<lparr>horizontal = 16, vertical = 12\<rparr>"
    using ffacts(1) by (simp add: VIEW_BOX_WIDTH_def VIEW_BOX_HEIGHT_def)
  have len: "length (l_allPoints locals) = 52"
    using facts(22) by (simp add: segs)
  have flen: "length (l_allPoints fixedLocals) = 56"
    using ffacts(4) by (simp add: fsegs)
  have first: "\<exists>locals fixedLocals.
       wigglyLocals ?viewBox ?options = Some locals
     \<and> fixed_wigglyLocals ?options = Some fixedLocals
     \<and> l_segments locals = \<lparr>horizontal = 15, vertical = 11\<rparr>
     \<and> l_segments fixedLocals = \<lparr>horizontal = 16, vertical = 12\<rparr>
     \<and> length (l_allPoints locals) = 52
     \<and> length (l_allPoints fixedLocals) = 56"
    using run frun segs fsegs len flen by blast
  have second: "map_option pathData (generateWigglyPathIn fmt ?viewBox ?options)
                  \<noteq> fixed_generateWigglyPath fmt ?options"
    if noC: "\<forall>r. CHR ''C'' \<notin> set (fmt r)" for fmt
  proof
    assume "map_option pathData (generateWigglyPathIn fmt ?viewBox ?options)
              = fixed_generateWigglyPath fmt ?options"
    then have "generateSmoothPath fmt (l_allPoints locals) @ '' Z''
                 = generateSmoothPath fmt (l_allPoints fixedLocals) @ '' Z''"
      by (simp add: generateWigglyPathIn_eq fixed_generateWigglyPath_eq run frun)
    then have "count_list (generateSmoothPath fmt (l_allPoints locals) @ '' Z'') (CHR ''C'')
                 = count_list (generateSmoothPath fmt (l_allPoints fixedLocals) @ '' Z'') (CHR ''C'')"
      by (rule arg_cong)
    moreover have "count_list (generateSmoothPath fmt (l_allPoints locals) @ '' Z'') (CHR ''C'') = 51"
      using count_C_closed_path [OF noC, of "l_allPoints locals"] len by simp
    moreover have "count_list (generateSmoothPath fmt (l_allPoints fixedLocals) @ '' Z'') (CHR ''C'') = 55"
      using count_C_closed_path [OF noC, of "l_allPoints fixedLocals"] flen by simp
    ultimately show False by simp
  qed
  show ?thesis using first second by blast
qed

section \<open>Rounding to a double\<close>

lemma floor_log2_eq:
  fixes x :: real
  assumes "2 powi e \<le> x" and "x < 2 powi (e + 1)"
  shows "\<lfloor>log 2 x\<rfloor> = e"
proof -
  have pos: "0 < x" using assms(1) zero_less_power_int [of "2::real" e] by linarith
  have "2 powr real_of_int e \<le> x" "x < 2 powr (real_of_int e + 1)"
    using assms powr_real_of_int' [of "2::real" e] powr_real_of_int' [of "2::real" "e + 1"]
    by (simp_all add: add.commute)
  then show ?thesis using floor_log_eq_powr_iff [of x 2 e] pos by simp
qed

lemma floor_log2_bounds:
  fixes x :: real
  assumes "0 < x"
  shows "2 powi \<lfloor>log 2 x\<rfloor> \<le> x" and "x < 2 powi (\<lfloor>log 2 x\<rfloor> + 1)"
proof -
  have "2 powr real_of_int \<lfloor>log 2 x\<rfloor> \<le> x \<and> x < 2 powr (real_of_int \<lfloor>log 2 x\<rfloor> + 1)"
    using floor_log_eq_powr_iff [of x 2 "\<lfloor>log 2 x\<rfloor>"] assms by simp
  then show "2 powi \<lfloor>log 2 x\<rfloor> \<le> x" and "x < 2 powi (\<lfloor>log 2 x\<rfloor> + 1)"
    using powr_real_of_int' [of "2::real" "\<lfloor>log 2 x\<rfloor>"]
      powr_real_of_int' [of "2::real" "\<lfloor>log 2 x\<rfloor> + 1"]
    by (simp_all add: add.commute)
qed

lemma ulp_pos: "0 < ulp x"
  by (simp add: ulp_def)

lemma roundEven_of_int [simp]: "roundEven (of_int k) = k"
  by (simp add: roundEven_def)

lemma roundEven_error: "\<bar>of_int (roundEven y) - y\<bar> \<le> 1 / 2"
  unfolding roundEven_def Let_def by (auto simp: abs_le_iff; linarith)

lemma roundEven_nonneg: "0 \<le> y \<Longrightarrow> 0 \<le> roundEven y"
  unfolding roundEven_def Let_def by (auto; linarith)

lemma roundEven_le: "y \<le> of_int k \<Longrightarrow> roundEven y \<le> k"
proof -
  assume le: "y \<le> of_int k"
  show ?thesis
  proof (cases "y = of_int k")
    case True then show ?thesis by simp
  next
    case False
    with le have "y < of_int k" by simp
    then have "\<lfloor>y\<rfloor> < k" by (simp add: floor_less_iff)
    then show ?thesis unfolding roundEven_def Let_def by auto
  qed
qed

lemma f64_0 [simp]: "f64 0 = 0"
  by (simp add: f64_def)

lemma binade_ge: "- 1022 \<le> binade x"
  by (simp add: binade_def)

lemma binade_eq:
  assumes "2 powi e \<le> \<bar>x\<bar>" and "\<bar>x\<bar> < 2 powi (e + 1)" and "- 1022 \<le> e"
  shows "binade x = e"
  using floor_log2_eq [OF assms(1,2)] assms(3) by (simp add: binade_def)

lemma binade_small:
  assumes "x \<noteq> 0" and "\<bar>x\<bar> < 2 powi (- 1022)"
  shows "binade x = - 1022"
proof -
  have pos: "0 < \<bar>x\<bar>" using assms(1) by simp
  have "\<lfloor>log 2 \<bar>x\<bar>\<rfloor> < - 1022"
  proof (rule ccontr)
    assume "\<not> \<lfloor>log 2 \<bar>x\<bar>\<rfloor> < - 1022"
    then have "(2::real) powi (- 1022) \<le> 2 powi \<lfloor>log 2 \<bar>x\<bar>\<rfloor>"
      by (intro power_int_increasing) simp_all
    also have "\<dots> \<le> \<bar>x\<bar>" by (rule floor_log2_bounds(1) [OF pos])
    finally show False using assms(2) by simp
  qed
  then show ?thesis by (simp add: binade_def)
qed

text \<open>Below the top of its binade: the scaled magnitude is under \<open>2^53\<close>.\<close>

lemma scaled_less:
  assumes "x \<noteq> 0"
  shows "\<bar>x\<bar> / ulp x < 2 ^ 53"
proof -
  have pos: "0 < \<bar>x\<bar>" using assms by simp
  have "\<bar>x\<bar> < 2 powi (\<lfloor>log 2 \<bar>x\<bar>\<rfloor> + 1)" by (rule floor_log2_bounds(2) [OF pos])
  also have "\<dots> \<le> 2 powi (binade x + 1)"
    by (intro power_int_increasing) (simp_all add: binade_def)
  also have "\<dots> = 2 powi 53 * ulp x"
  proof -
    have "(2::real) powi 53 * 2 powi (binade x - 52) = 2 powi (53 + (binade x - 52))"
      by (rule power_int_add [symmetric]) simp
    moreover have "53 + (binade x - 52) = binade x + 1" by simp
    ultimately show ?thesis by (simp only: ulp_def)
  qed
  finally have "\<bar>x\<bar> < 2 ^ 53 * ulp x" by simp
  then show ?thesis using ulp_pos [of x] by (simp add: divide_less_eq)
qed

lemma f64_error_ulp: "\<bar>f64 x - x\<bar> \<le> ulp x / 2"
proof (cases "x = 0")
  case True then show ?thesis using ulp_pos [of 0] by simp
next
  case False
  let ?n = "roundEven (\<bar>x\<bar> / ulp x)"
  have x: "x = sgn x * (\<bar>x\<bar> / ulp x) * ulp x"
    using ulp_pos [of x] by (simp add: sgn_real_def)
  have "f64 x - x = sgn x * (of_int ?n - \<bar>x\<bar> / ulp x) * ulp x"
    using ulp_pos [of x] False by (simp add: f64_def algebra_simps sgn_real_def)
  then have "\<bar>f64 x - x\<bar> = \<bar>of_int ?n - \<bar>x\<bar> / ulp x\<bar> * ulp x"
    using ulp_pos [of x] False by (simp add: abs_mult sgn_real_def)
  also have "\<dots> \<le> 1 / 2 * ulp x"
    using ulp_pos [of x] roundEven_error [of "\<bar>x\<bar> / ulp x"]
    by (intro mult_right_mono) simp_all
  finally show ?thesis by simp
qed

text \<open>The relative error in the normal range.\<close>

lemma f64_error:
  assumes "2 powi (- 1022) \<le> \<bar>x\<bar>"
  shows "\<bar>f64 x - x\<bar> \<le> 2 powi (- 53) * \<bar>x\<bar>"
proof -
  have pos: "0 < \<bar>x\<bar>" using assms zero_less_power_int [of "2::real" "- 1022"] by linarith
  have "(2::real) powi (- 1022) \<le> \<bar>x\<bar>" by (rule assms)
  have ge: "- 1022 \<le> \<lfloor>log 2 \<bar>x\<bar>\<rfloor>"
  proof (rule ccontr)
    assume "\<not> - 1022 \<le> \<lfloor>log 2 \<bar>x\<bar>\<rfloor>"
    then have "\<lfloor>log 2 \<bar>x\<bar>\<rfloor> + 1 \<le> - 1022" by linarith
    then have "(2::real) powi (\<lfloor>log 2 \<bar>x\<bar>\<rfloor> + 1) \<le> 2 powi (- 1022)"
      by (intro power_int_increasing) simp_all
    with floor_log2_bounds(2) [OF pos] assms show False by linarith
  qed
  then have b: "binade x = \<lfloor>log 2 \<bar>x\<bar>\<rfloor>" by (simp add: binade_def)
  have "ulp x / 2 = 2 powi (- 53) * 2 powi binade x"
  proof -
    have "(2::real) powi (- 53) * 2 powi binade x = 2 powi (- 53 + binade x)"
      by (rule power_int_add [symmetric]) simp
    moreover have "(2::real) powi (binade x - 52) = 2 powi (- 53 + binade x) * 2 powi 1"
      by (subst power_int_add [symmetric]) simp_all
    ultimately show ?thesis by (simp add: ulp_def)
  qed
  also have "\<dots> \<le> 2 powi (- 53) * \<bar>x\<bar>"
    unfolding b using floor_log2_bounds(1) [OF pos]
    by (intro mult_left_mono) simp_all
  finally show ?thesis using f64_error_ulp [of x] by linarith
qed

lemma two_powi_split: "c = a + b \<Longrightarrow> (2::real) powi c = 2 powi a * 2 powi b"
  by (simp add: power_int_add)

lemma f64_of_scaled_int:
  assumes "x \<noteq> 0" and "\<bar>x\<bar> / ulp x = of_int j"
  shows "f64 x = x"
proof -
  have "f64 x = sgn x * (\<bar>x\<bar> / ulp x) * ulp x"
    using assms by (simp add: f64_def)
  also have "\<dots> = x" using ulp_pos [of x] by (simp add: sgn_real_def)
  finally show ?thesis .
qed

text \<open>A number \<open>m \<cdot> 2^k\<close> with at most 53 bits in \<open>m\<close> and \<open>k\<close> in range is a double.\<close>

lemma f64_representable:
  assumes x: "x = of_int m * 2 powi k" and m: "\<bar>m\<bar> \<le> 2 ^ 53" and k: "- 1074 \<le> k"
  shows "f64 x = x"
proof (cases "m = 0")
  case True then show ?thesis using x by simp
next
  case False
  have two: "(2::real) powi k > 0" by simp
  have x0: "x \<noteq> 0" using False x by simp
  have ax: "\<bar>x\<bar> = of_int \<bar>m\<bar> * 2 powi k"
    using x by (simp add: abs_mult)
  have pos: "0 < \<bar>x\<bar>" using x0 by simp
  show ?thesis
  proof (cases "\<bar>m\<bar> = 2 ^ 53")
    case True
    have "\<bar>x\<bar> = 2 powi k * 2 powi 53" using ax True by simp
    also have "\<dots> = 2 powi (k + 53)" by (rule power_int_add [symmetric]) simp
    finally have ax': "\<bar>x\<bar> = 2 powi (k + 53)" .
    have b: "binade x = k + 53"
    proof (rule binade_eq)
      show "2 powi (k + 53) \<le> \<bar>x\<bar>" using ax' by simp
      show "\<bar>x\<bar> < 2 powi (k + 53 + 1)"
        unfolding ax' by (rule power_int_strict_increasing) simp_all
      show "- 1022 \<le> k + 53" using k by simp
    qed
    have "(2::real) powi (k + 53) = 2 powi 52 * 2 powi (k + 53 - 52)"
      by (rule two_powi_split) simp
    then have "\<bar>x\<bar> / ulp x = of_int (2 ^ 52)"
      by (simp add: ulp_def b ax')
    then show ?thesis by (rule f64_of_scaled_int [OF x0])
  next
    case False
    with m have lt: "\<bar>m\<bar> < 2 ^ 53" by simp
    have "\<bar>x\<bar> < 2 powi 53 * 2 powi k"
      unfolding ax using lt two by (intro mult_strict_right_mono) simp_all
    also have "\<dots> = 2 powi k * 2 powi 53" by simp
    also have "\<dots> = 2 powi (k + 53)" by (rule power_int_add [symmetric]) simp
    finally have up: "\<bar>x\<bar> < 2 powi (k + 53)" .
    have fl: "\<lfloor>log 2 \<bar>x\<bar>\<rfloor> \<le> k + 52"
    proof (rule ccontr)
      assume "\<not> \<lfloor>log 2 \<bar>x\<bar>\<rfloor> \<le> k + 52"
      then have "k + 53 \<le> \<lfloor>log 2 \<bar>x\<bar>\<rfloor>" by linarith
      then have "(2::real) powi (k + 53) \<le> 2 powi \<lfloor>log 2 \<bar>x\<bar>\<rfloor>"
        by (intro power_int_increasing) simp_all
      also have "\<dots> \<le> \<bar>x\<bar>" by (rule floor_log2_bounds(1) [OF pos])
      finally show False using up by simp
    qed
    have b: "binade x \<le> k + 52" using fl k by (simp add: binade_def)
    define d where "d = nat (k + 52 - binade x)"
    have d: "int d = k + 52 - binade x" using b by (simp add: d_def)
    have "(2::real) powi k = 2 powi (int d) * 2 powi (binade x - 52)"
      by (rule two_powi_split) (simp add: d)
    then have "\<bar>x\<bar> / ulp x = of_int (\<bar>m\<bar> * 2 ^ d)"
      by (simp add: ulp_def ax)
    then show ?thesis by (rule f64_of_scaled_int [OF x0])
  qed
qed

lemma f64_of_int:
  assumes "\<bar>n\<bar> \<le> 2 ^ 53"
  shows "f64 (of_int n) = of_int n"
  by (rule f64_representable [of _ n 0]) (use assms in simp_all)

lemma f64_idem [simp]: "f64 (f64 x) = f64 x"
proof (cases "x = 0")
  case True then show ?thesis by simp
next
  case False
  define n where "n = roundEven (\<bar>x\<bar> / ulp x)"
  have n0: "0 \<le> n"
    unfolding n_def using ulp_pos [of x] by (intro roundEven_nonneg) simp
  have n1: "n \<le> 2 ^ 53"
    unfolding n_def using scaled_less [OF False] by (intro roundEven_le) simp
  have sg: "sgn x = of_int (if 0 < x then 1 else - 1)"
    using False by (simp add: sgn_real_def)
  have "f64 x = of_int ((if 0 < x then 1 else - 1) * n) * 2 powi (binade x - 52)"
    using False by (simp add: f64_def n_def ulp_def sg)
  then show ?thesis
    by (rule f64_representable) (use n0 n1 binade_ge [of x] in \<open>simp_all add: abs_mult\<close>)
qed

text \<open>Evaluation on a number whose binade is known.\<close>

lemma roundEven_eval:
  assumes "of_int n - 1 / 2 < y" and "y < of_int n + 1 / 2"
  shows "roundEven y = n"
proof -
  have "of_int \<lfloor>y\<rfloor> \<le> y" by simp
  with assms(2) have "real_of_int \<lfloor>y\<rfloor> < of_int n + 1" by linarith
  then have "real_of_int \<lfloor>y\<rfloor> < of_int (n + 1)" by simp
  then have hi: "\<lfloor>y\<rfloor> < n + 1" by (simp only: of_int_less_iff)
  have "real_of_int (n - 1) \<le> y" using assms(1) by simp
  then have lo: "n - 1 \<le> \<lfloor>y\<rfloor>" by (simp only: le_floor_iff)
  from hi lo consider "\<lfloor>y\<rfloor> = n" | "\<lfloor>y\<rfloor> = n - 1" by linarith
  then show ?thesis
  proof cases
    case 1
    then show ?thesis using assms unfolding roundEven_def Let_def by auto
  next
    case 2
    then have "y - of_int \<lfloor>y\<rfloor> > 1 / 2" using assms by simp
    then show ?thesis using 2 unfolding roundEven_def Let_def by auto
  qed
qed

lemma f64_eval:
  assumes "2 powi e \<le> \<bar>x\<bar>" and "\<bar>x\<bar> < 2 powi (e + 1)" and "- 1022 \<le> e"
    and "of_int n - 1 / 2 < \<bar>x\<bar> / 2 powi (e - 52)" and "\<bar>x\<bar> / 2 powi (e - 52) < of_int n + 1 / 2"
  shows "f64 x = sgn x * of_int n * 2 powi (e - 52)"
proof -
  have "(0::real) < 2 powi e" by simp
  with assms(1) have "0 < \<bar>x\<bar>" by linarith
  then have x0: "x \<noteq> 0" by auto
  have b: "binade x = e" by (rule binade_eq [OF assms(1-3)])
  show ?thesis
    using x0 roundEven_eval [OF assms(4,5)] by (simp add: f64_def ulp_def b)
qed

text \<open>The values the examples below need.\<close>

lemma f64_4_3: "f64 (400 / 300) = 6004799503160661 / 2 ^ 52"
  using f64_eval [of 0 "400 / 300" 6004799503160661] by simp

lemma f64_w: "f64 (400 * (6004799503160661 / 2 ^ 52)) = 4691249611844266 / 2 ^ 43"
  using f64_eval [of 9 "400 * (6004799503160661 / 2 ^ 52)" 4691249611844266] by simp

lemma f64_3_4: "f64 (300 / 400) = 3 / 4"
  using f64_representable [of "3 / 4" 3 "- 2"] by simp

lemma f64_h: "f64 (400 / (3 / 4)) = 4691249611844267 / 2 ^ 43"
  using f64_eval [of 9 "400 / (3 / 4)" 4691249611844267] by simp

lemma f64_1_49: "f64 (1 / 49) = 5882252574524729 / 2 ^ 58"
  using f64_eval [of "- 6" "1 / 49" 5882252574524729] by simp

lemma f64_dx49: "f64 (5882252574524729 / 2 ^ 58 * 49) = 9007199254740991 / 2 ^ 53"
  using f64_eval [of "- 1" "5882252574524729 / 2 ^ 58 * 49" 9007199254740991] by simp

lemma f64_numeral: "numeral n \<le> (2::int) ^ 53 \<Longrightarrow> f64 (numeral n) = numeral n"
  using f64_of_int [of "numeral n"] by simp

lemma f64_1 [simp]: "f64 1 = 1"
  using f64_of_int [of 1] by simp

section \<open>The arithmetics\<close>

lemma exact_ops [simp]:
  "lit exact c = c" "fadd exact a b = a + b" "fsub exact a b = a - b"
  "fmul exact a b = a * b" "fdiv exact a b = a / b" "msin exact = sin" "rnd exact x = x"
  by (simp_all add: exact_def lit_def fadd_def fsub_def fmul_def fdiv_def)

lemma double_ops:
  "lit (double s) c = f64 c" "fadd (double s) a b = f64 (a + b)"
  "fsub (double s) a b = f64 (a - b)" "fmul (double s) a b = f64 (a * b)"
  "fdiv (double s) a b = f64 (a / b)" "msin (double s) = s" "rnd (double s) = f64"
  by (simp_all add: double_def lit_def fadd_def fsub_def fmul_def fdiv_def)

lemma rounding_exact: "rounding exact"
  by (simp add: rounding_def)

lemma rounding_double: "rounding (double s)"
  by (simp add: rounding_def double_ops)

lemma getOrganicOffset_fl_exact: "getOrganicOffset_fl exact = getOrganicOffset"
  by (intro ext) (simp add: getOrganicOffset_fl_def getOrganicOffset_def Let_def)

lemma edgePoint_fl_exact: "edgePoint_fl exact = edgePoint"
  by (intro ext) (simp add: edgePoint_fl_def edgePoint_def getOrganicOffset_fl_exact Let_def)

lemma generateEdgePoints_fl_exact: "generateEdgePoints_fl exact = generateEdgePoints"
  by (intro ext) (simp add: generateEdgePoints_fl_def generateEdgePoints_def edgePoint_fl_exact Let_def)

lemma calculateViewBox_fl_exact: "calculateViewBox_fl exact = calculateViewBox"
  by (intro ext) (simp add: calculateViewBox_fl_def calculateViewBox_def Let_def)

lemma calculateSegments_fl_exact: "calculateSegments_fl exact = calculateSegments"
  by (intro ext) (simp add: calculateSegments_fl_def calculateSegments_def Let_def)

text \<open>Rounding keeps a number on its side of a power of two.\<close>

lemma roundEven_ge: "of_int k \<le> y \<Longrightarrow> k \<le> roundEven y"
proof -
  assume "of_int k \<le> y"
  then have "k \<le> \<lfloor>y\<rfloor>" by (simp add: le_floor_iff)
  then show ?thesis unfolding roundEven_def Let_def by auto
qed

lemma f64_ge_powi:
  assumes "2 powi k \<le> x" and "- 1022 \<le> k"
  shows "2 powi k \<le> f64 x"
proof -
  have kpos: "(0::real) < 2 powi k" by simp
  with assms(1) have pos: "0 < x" by linarith
  then have ax: "\<bar>x\<bar> = x" by simp
  have fl: "k \<le> \<lfloor>log 2 x\<rfloor>"
  proof (rule ccontr)
    assume "\<not> k \<le> \<lfloor>log 2 x\<rfloor>"
    then have "\<lfloor>log 2 x\<rfloor> + 1 \<le> k" by linarith
    then have "(2::real) powi (\<lfloor>log 2 x\<rfloor> + 1) \<le> 2 powi k"
      by (intro power_int_increasing) simp_all
    with floor_log2_bounds(2) [OF pos] assms(1) show False by linarith
  qed
  then have b: "binade x = \<lfloor>log 2 x\<rfloor>" using assms(2) by (simp add: binade_def ax)
  have "(2::real) powi binade x = 2 powi 52 * 2 powi (binade x - 52)"
    by (rule two_powi_split) simp
  then have e: "(2::real) powi binade x = 2 ^ 52 * ulp x" by (simp add: ulp_def)
  have "2 ^ 52 * ulp x \<le> x"
    unfolding e [symmetric] b by (rule floor_log2_bounds(1) [OF pos])
  then have "real_of_int (2 ^ 52) \<le> \<bar>x\<bar> / ulp x"
    using ulp_pos [of x] by (simp add: ax pos_le_divide_eq)
  then have n: "2 ^ 52 \<le> roundEven (\<bar>x\<bar> / ulp x)" by (rule roundEven_ge)
  have "(2::real) powi k \<le> 2 powi binade x"
    using fl b by (intro power_int_increasing) simp_all
  also have "\<dots> = of_int (2 ^ 52) * ulp x" using e by simp
  also have "\<dots> \<le> of_int (roundEven (\<bar>x\<bar> / ulp x)) * ulp x"
  proof (rule mult_right_mono)
    show "real_of_int (2 ^ 52) \<le> real_of_int (roundEven (\<bar>x\<bar> / ulp x))"
      using n by (simp only: of_int_le_iff)
    show "0 \<le> ulp x" using ulp_pos [of x] by simp
  qed
  also have "\<dots> = f64 x" using pos by (simp add: f64_def)
  finally show ?thesis .
qed

lemma f64_le_powi:
  assumes "0 < x" and "x \<le> 2 powi k" and "- 1021 \<le> k"
  shows "f64 x \<le> 2 powi k"
proof (cases "x = 2 powi k")
  case True
  have "f64 x = x"
    by (rule f64_representable [of _ 1 k]) (use True assms(3) in simp_all)
  then show ?thesis using True by simp
next
  case False
  with assms(2) have lt: "x < 2 powi k" by simp
  have ax: "\<bar>x\<bar> = x" using assms(1) by simp
  have fl: "\<lfloor>log 2 x\<rfloor> \<le> k - 1"
  proof (rule ccontr)
    assume "\<not> \<lfloor>log 2 x\<rfloor> \<le> k - 1"
    then have "k \<le> \<lfloor>log 2 x\<rfloor>" by linarith
    then have "(2::real) powi k \<le> 2 powi \<lfloor>log 2 x\<rfloor>"
      by (intro power_int_increasing) simp_all
    with floor_log2_bounds(1) [OF assms(1)] lt show False by linarith
  qed
  then have b: "binade x + 1 \<le> k" using assms(3) by (simp add: binade_def ax)
  have n: "roundEven (\<bar>x\<bar> / ulp x) \<le> 2 ^ 53"
    using scaled_less [of x] assms(1) by (intro roundEven_le) simp
  have "f64 x = of_int (roundEven (\<bar>x\<bar> / ulp x)) * ulp x"
    using assms(1) by (simp add: f64_def)
  also have "\<dots> \<le> of_int (2 ^ 53) * ulp x"
  proof (rule mult_right_mono)
    show "real_of_int (roundEven (\<bar>x\<bar> / ulp x)) \<le> real_of_int (2 ^ 53)"
      using n by (simp only: of_int_le_iff)
    show "0 \<le> ulp x" using ulp_pos [of x] by simp
  qed
  also have "\<dots> = 2 powi 53 * 2 powi (binade x - 52)" by (simp add: ulp_def)
  also have "\<dots> = 2 powi (binade x + 1)"
    by (rule two_powi_split [symmetric]) simp
  also have "\<dots> \<le> 2 powi k" using b by (intro power_int_increasing) simp_all
  finally show ?thesis .
qed

lemma f64_ge_1: "1 \<le> x \<Longrightarrow> 1 \<le> f64 x"
  using f64_ge_powi [of 0 x] by simp

lemma f64_le_1: "0 < x \<Longrightarrow> x \<le> 1 \<Longrightarrow> f64 x \<le> 1"
  using f64_le_powi [of x 0] by simp

section \<open>The viewBox in doubles\<close>

lemma f64_400 [simp]: "f64 400 = 400"
  by (simp add: f64_numeral)

lemma calculateViewBox_double:
  fixes tw th :: real
  assumes "0 < tw" and "0 < th" and low: "2 powi (- 1000) \<le> tw / th"
  shows "calculateViewBox_fl (double s) tw th
           = Some (if th \<le> tw
                   then \<lparr>width = f64 (BASE_VIEWBOX_SIZE * f64 (tw / th)),
                         height = BASE_VIEWBOX_SIZE\<rparr>
                   else \<lparr>width = BASE_VIEWBOX_SIZE,
                         height = f64 (BASE_VIEWBOX_SIZE / f64 (tw / th))\<rparr>)"
proof -
  have th0: "th \<noteq> 0" using assms(2) by simp
  have q: "0 < tw / th" using assms(1,2) by simp
  have "(0::real) < 2 powi (- 1000)" by (rule zero_less_power_int) simp
  also have "\<dots> \<le> f64 (tw / th)" by (rule f64_ge_powi [OF low]) simp
  finally have a: "0 < f64 (tw / th)" .
  show ?thesis
  proof (cases "th \<le> tw")
    case True
    then have "1 \<le> tw / th" using assms(2) by simp
    then have "1 \<le> f64 (tw / th)" by (rule f64_ge_1)
    then show ?thesis
      using True th0 by (simp add: calculateViewBox_fl_def double_ops Let_def)
  next
    case False
    then have "tw / th \<le> 1" using assms(2) by simp
    then have le: "f64 (tw / th) \<le> 1" by (rule f64_le_1 [OF q])
    show ?thesis
    proof (cases "f64 (tw / th) = 1")
      case True
      then show ?thesis
        using False th0
        by (simp add: calculateViewBox_fl_def double_ops Let_def BASE_VIEWBOX_SIZE_def)
    next
      case neq: False
      with le have "\<not> 1 \<le> f64 (tw / th)" by simp
      then show ?thesis
        using False th0 a by (simp add: calculateViewBox_fl_def double_ops Let_def)
    qed
  qed
qed

text \<open>Two roundings keep the ratio within \<open>2^-51\<close> of the target ratio.\<close>

lemma eps_small: "(2::real) powi (- 53) \<le> 1 / 4" "(0::real) < 2 powi (- 53)"
  by simp_all

lemma wide_ratio:
  fixes q a w e :: real
  assumes q: "0 < q" and e: "0 < e" "e \<le> 1 / 4"
    and a: "\<bar>a - q\<bar> \<le> e * q" and w: "\<bar>w - 400 * a\<bar> \<le> e * (400 * a)"
  shows "\<bar>w / 400 - q\<bar> \<le> 4 * e * q"
proof -
  have a_le: "a \<le> q + e * q" using a by (simp add: abs_le_iff) 
  have a_ge: "q - e * q \<le> a" using a by (simp add: abs_le_iff)
  have "e * q \<le> 1 / 4 * q" using e q by (intro mult_right_mono) simp_all
  then have a_pos: "0 < a" using a_ge q by linarith
  have "w / 400 - a = (w - 400 * a) / 400" by (simp add: field_simps)
  then have "\<bar>w / 400 - a\<bar> = \<bar>(w - 400 * a) / 400\<bar>" by (simp only:)
  also have "\<dots> = \<bar>w - 400 * a\<bar> / 400" by (simp only: abs_divide abs_numeral)
  also have "\<dots> \<le> e * (400 * a) / 400" using w by (simp add: divide_right_mono)
  also have "\<dots> = e * a" by simp
  finally have 1: "\<bar>w / 400 - a\<bar> \<le> e * a" .
  have "e * a \<le> e * (q + e * q)" using a_le e by (intro mult_left_mono) simp_all
  also have "\<dots> = e * q + e * (e * q)" by (simp add: algebra_simps)
  also have "e * (e * q) \<le> 1 * (e * q)" using e q by (intro mult_right_mono) simp_all
  finally have 2: "e * a \<le> 2 * (e * q)" by simp
  have "\<bar>w / 400 - q\<bar> \<le> \<bar>w / 400 - a\<bar> + \<bar>a - q\<bar>" by simp
  also have "\<dots> \<le> 2 * (e * q) + e * q" using 1 2 a by linarith
  also have "\<dots> \<le> 4 * e * q" using e q by simp
  finally show ?thesis .
qed

lemma tall_ratio:
  fixes q a h e :: real
  assumes q: "0 < q" and e: "0 < e" "e \<le> 1 / 4"
    and a: "\<bar>a - q\<bar> \<le> e * q" and h: "\<bar>h - 400 / a\<bar> \<le> e * (400 / a)"
  shows "\<bar>400 / h - q\<bar> \<le> 4 * e * q"
proof -
  have a_le: "a \<le> q + e * q" using a by (simp add: abs_le_iff)
  have a_ge: "q - e * q \<le> a" using a by (simp add: abs_le_iff)
  have "e * q \<le> 1 / 4 * q" using e q by (intro mult_right_mono) simp_all
  then have a_pos: "0 < a" using a_ge q by linarith
  define t where "t = 400 / a"
  have t_pos: "0 < t" using a_pos by (simp add: t_def)
  have h_ge: "t - e * t \<le> h" using h by (simp add: abs_le_iff t_def)
  have "e * t \<le> 1 / 4 * t" using e t_pos by (intro mult_right_mono) simp_all
  then have h_lo: "3 / 4 * t \<le> h" using h_ge by linarith
  then have h_pos: "0 < h" using t_pos by linarith
  have at: "a = 400 / t" using a_pos by (simp add: t_def)
  have eq: "400 / h - a = 400 * (t - h) / (h * t)"
    using h_pos t_pos by (simp add: at field_simps)
  have "\<bar>400 / h - a\<bar> = \<bar>400 * (t - h) / (h * t)\<bar>" by (simp only: eq)
  also have "\<dots> = \<bar>400 * (t - h)\<bar> / \<bar>h * t\<bar>" by (simp only: abs_divide)
  also have "\<dots> = 400 * \<bar>t - h\<bar> / (h * t)"
  proof -
    have "\<bar>400 * (t - h)\<bar> = 400 * \<bar>t - h\<bar>" by (simp only: abs_mult abs_numeral)
    moreover have "\<bar>h * t\<bar> = h * t" using h_pos t_pos by simp
    ultimately show ?thesis by (simp only:)
  qed
  finally have "\<bar>400 / h - a\<bar> = 400 * \<bar>t - h\<bar> / (h * t)" .
  also have "\<dots> \<le> 400 * (e * t) / (h * t)"
    using h h_pos t_pos by (intro divide_right_mono mult_left_mono) (simp_all add: t_def abs_minus_commute)
  also have "\<dots> = 400 * e / h" using t_pos by simp
  also have "\<dots> \<le> 400 * e / (3 / 4 * t)"
    using h_lo t_pos e by (intro divide_left_mono) simp_all
  also have "\<dots> = 4 / 3 * e * a" using t_pos by (simp add: at)
  finally have 1: "\<bar>400 / h - a\<bar> \<le> 4 / 3 * e * a" .
  have "e * a \<le> e * (q + e * q)" using a_le e by (intro mult_left_mono) simp_all
  also have "\<dots> = e * q + e * (e * q)" by (simp add: algebra_simps)
  also have "e * (e * q) \<le> 1 / 4 * (e * q)" using e q by (intro mult_right_mono) simp_all
  finally have 2: "e * a \<le> 5 / 4 * (e * q)" by simp
  have "\<bar>400 / h - q\<bar> \<le> \<bar>400 / h - a\<bar> + \<bar>a - q\<bar>" by simp
  also have "\<dots> \<le> 4 / 3 * (5 / 4 * (e * q)) + e * q" using 1 2 a by linarith
  also have "\<dots> \<le> 4 * e * q" using e q by simp
  finally show ?thesis .
qed

lemma calculateViewBox_double_ratio:
  fixes tw th :: real
  assumes "0 < tw" and "0 < th" and low: "2 powi (- 1000) \<le> tw / th"
    and res: "calculateViewBox_fl (double s) tw th = Some viewBox"
  shows "\<bar>width viewBox / height viewBox - tw / th\<bar> \<le> 2 powi (- 51) * (tw / th)"
proof -
  define q where "q = tw / th"
  define a where "a = f64 q"
  define lo :: real where "lo = 2 powi (- 1000)"
  define tiny :: real where "tiny = 2 powi (- 1022)"
  have q: "0 < q" using assms(1,2) by (simp add: q_def)
  have lo_pos: "0 < lo" unfolding lo_def by (rule zero_less_power_int) simp
  have tiny_lo: "tiny \<le> lo" unfolding lo_def tiny_def by (intro power_int_increasing) simp_all
  have tiny_1: "tiny \<le> 1"
    using power_int_increasing [of "- 1022" 0 "2::real"] unfolding tiny_def by (simp only: power_int_0_right)
  have low': "lo \<le> q" using low by (simp only: lo_def q_def)
  have "tiny \<le> \<bar>q\<bar>" using tiny_lo low' q by linarith
  then have qn: "2 powi (- 1022) \<le> \<bar>q\<bar>" by (simp only: tiny_def)
  have a: "\<bar>a - q\<bar> \<le> 2 powi (- 53) * q"
    using f64_error [OF qn] q unfolding a_def by (simp only: abs_of_pos)
  have "2 powi (- 1000) \<le> f64 (tw / th)" by (rule f64_ge_powi [OF low]) simp
  then have an: "lo \<le> a" by (simp only: lo_def a_def q_def)
  have apos: "0 < a" using an lo_pos by linarith
  have four: "4 * 2 powi (- 53) = (2::real) powi (- 51)"
    by simp
  have vb: "viewBox = (if th \<le> tw
                   then \<lparr>width = f64 (400 * a), height = 400\<rparr>
                   else \<lparr>width = 400, height = f64 (400 / a)\<rparr>)"
    using res unfolding calculateViewBox_double [OF assms(1-3), of s] a_def q_def
      BASE_VIEWBOX_SIZE_def by (simp only: option.inject)
  show ?thesis
  proof (cases "th \<le> tw")
    case True
    have "tiny \<le> 400 * a" using tiny_lo an apos by linarith
    then have "tiny \<le> \<bar>400 * a\<bar>" using apos by simp
    then have n: "2 powi (- 1022) \<le> \<bar>400 * a\<bar>" by (simp only: tiny_def)
    have "\<bar>400 * a\<bar> = 400 * a" using apos by simp
    then have w: "\<bar>f64 (400 * a) - 400 * a\<bar> \<le> 2 powi (- 53) * (400 * a)"
      using f64_error [OF n] by (simp only:)
    have "\<bar>f64 (400 * a) / 400 - q\<bar> \<le> 4 * 2 powi (- 53) * q"
      by (rule wide_ratio [OF q eps_small(2,1) a w])
    then have "\<bar>f64 (400 * a) / 400 - q\<bar> \<le> 2 powi (- 51) * q" by (simp only: four)
    then show ?thesis using True unfolding vb q_def by simp
  next
    case False
    have "tw / th \<le> 1" using False assms(2) by simp
    then have "f64 (tw / th) \<le> 1" using assms(1,2) by (intro f64_le_1) simp_all
    then have "a \<le> 1" by (simp only: a_def q_def)
    then have "1 \<le> 400 / a" using apos by (simp add: pos_le_divide_eq)
    then have "tiny \<le> \<bar>400 / a\<bar>" using tiny_1 by linarith
    then have n: "2 powi (- 1022) \<le> \<bar>400 / a\<bar>" by (simp only: tiny_def)
    have "\<bar>400 / a\<bar> = 400 / a" using apos by simp
    then have h: "\<bar>f64 (400 / a) - 400 / a\<bar> \<le> 2 powi (- 53) * (400 / a)"
      using f64_error [OF n] by (simp only:)
    have "\<bar>400 / f64 (400 / a) - q\<bar> \<le> 4 * 2 powi (- 53) * q"
      by (rule tall_ratio [OF q eps_small(2,1) a h])
    then have "\<bar>400 / f64 (400 / a) - q\<bar> \<le> 2 powi (- 51) * q" by (simp only: four)
    then show ?thesis using False unfolding vb q_def by simp
  qed
qed

lemma calculateViewBox_double_square:
  "calculateViewBox_fl (double s) 300 300
     = Some \<lparr>width = BASE_VIEWBOX_SIZE, height = BASE_VIEWBOX_SIZE\<rparr>"
  by (simp add: calculateViewBox_fl_def double_ops BASE_VIEWBOX_SIZE_def)

text \<open>
  Claim C4, as amended. For positive target dimensions: in exact arithmetic the ratio of
  width to height is the ratio of the targets, with the height on the base constant and
  the width \<open>base \<cdot> (targetWidth / targetHeight)\<close> when the target is at least as wide as
  tall, and the width on the base constant and the height
  \<open>base \<cdot> (targetHeight / targetWidth)\<close> otherwise. In double arithmetic, for a target
  ratio between \<open>2^-1000\<close> and \<open>2^1000\<close>, the same axis is on the base constant exactly,
  the other axis is the rounded product \<open>base \<cdot> (targetWidth / targetHeight)\<close> or the
  rounded quotient \<open>base / (targetWidth / targetHeight)\<close> of the rounded ratio, and the
  ratio of width to height is within a relative error of \<open>2^-51\<close> of the target ratio. A
  square target of 300 gives the base constant on both axes, in doubles too.
\<close>

theorem calculateViewBox_fl_aspect:
  fixes targetWidth targetHeight :: real
  assumes "0 < targetWidth" and "0 < targetHeight"
  shows "(\<exists>viewBox.
            calculateViewBox_fl exact targetWidth targetHeight = Some viewBox
          \<and> width viewBox / height viewBox = targetWidth / targetHeight
          \<and> (if targetWidth \<ge> targetHeight
              then height viewBox = BASE_VIEWBOX_SIZE
                 \<and> width viewBox = BASE_VIEWBOX_SIZE * (targetWidth / targetHeight)
              else width viewBox = BASE_VIEWBOX_SIZE
                 \<and> height viewBox = BASE_VIEWBOX_SIZE * (targetHeight / targetWidth)))
       \<and> (2 powi (- 1000) \<le> targetWidth / targetHeight
            \<and> targetWidth / targetHeight \<le> 2 powi 1000 \<longrightarrow>
          (\<exists>viewBox.
              calculateViewBox_fl (double s) targetWidth targetHeight = Some viewBox
            \<and> (if targetWidth \<ge> targetHeight
                then height viewBox = BASE_VIEWBOX_SIZE
                   \<and> width viewBox
                       = f64 (BASE_VIEWBOX_SIZE * f64 (targetWidth / targetHeight))
                else width viewBox = BASE_VIEWBOX_SIZE
                   \<and> height viewBox
                       = f64 (BASE_VIEWBOX_SIZE / f64 (targetWidth / targetHeight)))
            \<and> \<bar>width viewBox / height viewBox - targetWidth / targetHeight\<bar>
                \<le> 2 powi (- 51) * (targetWidth / targetHeight)))
       \<and> calculateViewBox_fl (double s) 300 300
           = Some \<lparr>width = BASE_VIEWBOX_SIZE, height = BASE_VIEWBOX_SIZE\<rparr>"
proof (intro conjI impI)
  show "\<exists>viewBox.
            calculateViewBox_fl exact targetWidth targetHeight = Some viewBox
          \<and> width viewBox / height viewBox = targetWidth / targetHeight
          \<and> (if targetWidth \<ge> targetHeight
              then height viewBox = BASE_VIEWBOX_SIZE
                 \<and> width viewBox = BASE_VIEWBOX_SIZE * (targetWidth / targetHeight)
              else width viewBox = BASE_VIEWBOX_SIZE
                 \<and> height viewBox = BASE_VIEWBOX_SIZE * (targetHeight / targetWidth))"
    using calculateViewBox_aspect [OF assms] unfolding calculateViewBox_fl_exact by blast
next
  assume range: "2 powi (- 1000) \<le> targetWidth / targetHeight
            \<and> targetWidth / targetHeight \<le> 2 powi 1000"
  then have low: "2 powi (- 1000) \<le> targetWidth / targetHeight" by (rule conjunct1)
  let ?viewBox = "if targetHeight \<le> targetWidth
                   then \<lparr>width = f64 (BASE_VIEWBOX_SIZE * f64 (targetWidth / targetHeight)),
                         height = BASE_VIEWBOX_SIZE\<rparr>
                   else \<lparr>width = BASE_VIEWBOX_SIZE,
                         height = f64 (BASE_VIEWBOX_SIZE / f64 (targetWidth / targetHeight))\<rparr>"
  have res: "calculateViewBox_fl (double s) targetWidth targetHeight = Some ?viewBox"
    by (rule calculateViewBox_double [OF assms low])
  have ratio: "\<bar>width ?viewBox / height ?viewBox - targetWidth / targetHeight\<bar>
                \<le> 2 powi (- 51) * (targetWidth / targetHeight)"
    by (rule calculateViewBox_double_ratio [OF assms low res])
  have shape: "if targetWidth \<ge> targetHeight
                then height ?viewBox = BASE_VIEWBOX_SIZE
                   \<and> width ?viewBox
                       = f64 (BASE_VIEWBOX_SIZE * f64 (targetWidth / targetHeight))
                else width ?viewBox = BASE_VIEWBOX_SIZE
                   \<and> height ?viewBox
                       = f64 (BASE_VIEWBOX_SIZE / f64 (targetWidth / targetHeight))"
    by simp
  show "\<exists>viewBox.
              calculateViewBox_fl (double s) targetWidth targetHeight = Some viewBox
            \<and> (if targetWidth \<ge> targetHeight
                then height viewBox = BASE_VIEWBOX_SIZE
                   \<and> width viewBox
                       = f64 (BASE_VIEWBOX_SIZE * f64 (targetWidth / targetHeight))
                else width viewBox = BASE_VIEWBOX_SIZE
                   \<and> height viewBox
                       = f64 (BASE_VIEWBOX_SIZE / f64 (targetWidth / targetHeight)))
            \<and> \<bar>width viewBox / height viewBox - targetWidth / targetHeight\<bar>
                \<le> 2 powi (- 51) * (targetWidth / targetHeight)"
    by (rule exI [of _ ?viewBox]) (intro conjI res shape ratio)
next
  show "calculateViewBox_fl (double s) 300 300
           = Some \<lparr>width = BASE_VIEWBOX_SIZE, height = BASE_VIEWBOX_SIZE\<rparr>"
    by (rule calculateViewBox_double_square)
qed

lemma f64_w_400: "f64 (4691249611844266 / 2 ^ 43 / 400) = 6004799503160660 / 2 ^ 52"
  using f64_eval [of 0 "4691249611844266 / 2 ^ 43 / 400" 6004799503160660] by simp

lemma range_4_3: "(2::real) powi (- 1000) \<le> 400 / 300" "(400::real) / 300 \<le> 2 powi 1000"
proof -
  have "(2::real) powi (- 1000) \<le> 2 powi 0" by (intro power_int_increasing) simp_all
  also have "\<dots> \<le> 400 / 300" by simp
  finally show "(2::real) powi (- 1000) \<le> 400 / 300" .
  have "(400::real) / 300 \<le> 2 powi 1" by simp
  also have "\<dots> \<le> 2 powi 1000" by (intro power_int_increasing) simp_all
  finally show "(400::real) / 300 \<le> 2 powi 1000" .
qed

lemma range_3_4: "(2::real) powi (- 1000) \<le> 300 / 400"
proof -
  have "(2::real) powi (- 1000) \<le> 2 powi (- 1)" by (intro power_int_increasing) simp_all
  also have "\<dots> \<le> 300 / 400" by simp
  finally show ?thesis .
qed

lemma viewBox_400_300:
  "calculateViewBox_fl (double s) 400 300
     = Some \<lparr>width = 4691249611844266 / 2 ^ 43, height = 400\<rparr>"
proof -
  have c: "f64 (400 * f64 (400 / 300)) = 4691249611844266 / 2 ^ 43"
    by (simp only: f64_4_3 f64_w)
  have le: "(300::real) \<le> 400" by simp
  have pos: "(0::real) < 400" "(0::real) < 300" by simp_all
  show ?thesis
    unfolding calculateViewBox_double [OF pos range_4_3(1)]
    by (simp only: if_P [OF le] BASE_VIEWBOX_SIZE_def c)
qed

lemma viewBox_300_400:
  "calculateViewBox_fl (double s) 300 400
     = Some \<lparr>width = 400, height = 4691249611844267 / 2 ^ 43\<rparr>"
proof -
  have c: "f64 (400 / f64 (300 / 400)) = 4691249611844267 / 2 ^ 43"
    by (simp only: f64_3_4 f64_h)
  have le: "\<not> (400::real) \<le> 300" by simp
  have pos: "(0::real) < 300" "(0::real) < 400" by simp_all
  show ?thesis
    unfolding calculateViewBox_double [OF pos range_3_4]
    by (simp only: if_not_P [OF le] BASE_VIEWBOX_SIZE_def c)
qed

theorem calculateViewBox_fl_aspect_witness:
  "\<forall>s. (0::real) < 400 \<and> (0::real) < 300
     \<and> (2::real) powi (- 1000) \<le> 400 / 300 \<and> (400::real) / 300 \<le> 2 powi 1000
     \<and> calculateViewBox_fl (double s) 400 300
         = Some \<lparr>width = 4691249611844266 / 2 ^ 43, height = 400\<rparr>
     \<and> \<bar>(4691249611844266 / 2 ^ 43) / 400 - 400 / 300\<bar> \<le> 2 powi (- 51) * (400 / (300::real))"
proof
  fix s :: "real \<Rightarrow> real"
  have pos: "(0::real) < 400" "(0::real) < 300" by simp_all
  from calculateViewBox_fl_aspect [OF pos, of s] range_4_3
  obtain viewBox where res: "calculateViewBox_fl (double s) 400 300 = Some viewBox"
    and ratio: "\<bar>width viewBox / height viewBox - 400 / 300\<bar> \<le> 2 powi (- 51) * (400 / 300)"
    by blast
  have vb: "viewBox = \<lparr>width = 4691249611844266 / 2 ^ 43, height = 400\<rparr>"
    using res unfolding viewBox_400_300 by (simp only: option.inject)
  have r: "\<bar>(4691249611844266 / 2 ^ 43) / 400 - 400 / 300\<bar> \<le> 2 powi (- 51) * (400 / (300::real))"
    using ratio unfolding vb by (simp only: viewBox.select_convs)
  show "(0::real) < 400 \<and> (0::real) < 300
     \<and> (2::real) powi (- 1000) \<le> 400 / 300 \<and> (400::real) / 300 \<le> 2 powi 1000
     \<and> calculateViewBox_fl (double s) 400 300
         = Some \<lparr>width = 4691249611844266 / 2 ^ 43, height = 400\<rparr>
     \<and> \<bar>(4691249611844266 / 2 ^ 43) / 400 - 400 / 300\<bar> \<le> 2 powi (- 51) * (400 / (300::real))"
    by (intro conjI pos range_4_3 viewBox_400_300 r)
qed

text \<open>
  Claim C4 as stated has the ratio exact and the taller height equal to
  \<open>base \<cdot> (targetHeight / targetWidth)\<close>. In doubles a target of 400 by 300 gives the width
  \<open>4691249611844266 / 2^43\<close>, printed 533.3333333333333: its ratio to the height 400 is
  not \<open>400 / 300\<close>, as a real number and as a double quotient. A target of 300 by 400
  gives the height \<open>4691249611844267 / 2^43\<close>, printed 533.3333333333334, which is not
  the product \<open>400 \<cdot> (400 / 300)\<close> in doubles.
\<close>

theorem calculateViewBox_ratio_inexact:
  "(\<forall>s. calculateViewBox_fl (double s) 400 300
           = Some \<lparr>width = 4691249611844266 / 2 ^ 43, height = 400\<rparr>)
   \<and> (4691249611844266 / 2 ^ 43) / 400 \<noteq> (400 / 300 :: real)
   \<and> f64 ((4691249611844266 / 2 ^ 43) / 400) \<noteq> f64 (400 / 300)
   \<and> (\<forall>s. calculateViewBox_fl (double s) 300 400
           = Some \<lparr>width = 400, height = 4691249611844267 / 2 ^ 43\<rparr>)
   \<and> f64 (400 * f64 (400 / 300)) \<noteq> 4691249611844267 / 2 ^ 43"
proof (intro conjI allI)
  fix s :: "real \<Rightarrow> real"
  show "calculateViewBox_fl (double s) 400 300
           = Some \<lparr>width = 4691249611844266 / 2 ^ 43, height = 400\<rparr>"
    by (rule viewBox_400_300)
  show "calculateViewBox_fl (double s) 300 400
           = Some \<lparr>width = 400, height = 4691249611844267 / 2 ^ 43\<rparr>"
    by (rule viewBox_300_400)
next
  show "(4691249611844266 / 2 ^ 43) / 400 \<noteq> (400 / 300 :: real)" by simp
  show "f64 ((4691249611844266 / 2 ^ 43) / 400) \<noteq> f64 (400 / 300)"
    by (simp only: f64_w_400 f64_4_3) simp
  show "f64 (400 * f64 (400 / 300)) \<noteq> 4691249611844267 / 2 ^ 43"
    by (simp only: f64_4_3 f64_w) simp
qed

section \<open>The edge sampler in an arbitrary arithmetic\<close>

lemma generateEdgePoints_fl_eq:
  "segments \<noteq> 0 \<Longrightarrow>
   generateEdgePoints_fl ar startX startY endX endY segments amplitude seed perpDirection
     = Some (map (edgePoint_fl ar startX startY
                    (fdiv ar (fsub ar endX startX) (of_int segments))
                    (fdiv ar (fsub ar endY startY) (of_int segments))
                    segments amplitude seed perpDirection)
               [0..segments])"
  by (simp add: generateEdgePoints_fl_def edgeLoop_eq)

lemma rounding_zero: "rounding ar \<Longrightarrow> rnd ar 0 = 0"
  by (simp add: rounding_def)

lemma rounding_idem: "rounding ar \<Longrightarrow> rnd ar (rnd ar x) = rnd ar x"
  by (simp add: rounding_def)

lemma fadd_zero_step:
  assumes "rounding ar" and "rnd ar a = a"
  shows "fadd ar a (fmul ar d 0) = a"
  using assms by (simp add: fadd_def fmul_def rounding_zero)

lemma fadd_rounded_zero:
  assumes "rounding ar"
  shows "fadd ar (fadd ar a b) (fmul ar (fmul ar p 0) d) = fadd ar a b"
  using assms by (simp add: fadd_def fmul_def rounding_zero rounding_idem)

lemma getOrganicOffset_fl_zero:
  "rounding ar \<Longrightarrow> getOrganicOffset_fl ar index 0 seed = 0"
  by (simp add: getOrganicOffset_fl_def fmul_def rounding_zero Let_def)

lemma edgePoint_fl_first:
  assumes "rounding ar" and "rnd ar startX = startX" and "rnd ar startY = startY"
  shows "edgePoint_fl ar startX startY dx dy segments amplitude seed perpDirection 0
           = \<lparr>px = startX, py = startY\<rparr>"
  using assms by (simp add: edgePoint_fl_def fadd_zero_step)

lemma edgePoint_fl_last:
  "segments \<noteq> 0 \<Longrightarrow>
   edgePoint_fl ar startX startY dx dy segments amplitude seed perpDirection segments
     = \<lparr>px = fadd ar startX (fmul ar dx (of_int segments)),
        py = fadd ar startY (fmul ar dy (of_int segments))\<rparr>"
  by (simp add: edgePoint_fl_def)

lemma edgePoint_fl_interior:
  "i \<noteq> 0 \<Longrightarrow> i \<noteq> segments \<Longrightarrow>
   edgePoint_fl ar startX startY dx dy segments amplitude seed perpDirection i
     = \<lparr>px = fadd ar (fadd ar startX (fmul ar dx (of_int i)))
              (fmul ar (fmul ar (px perpDirection)
                          (getOrganicOffset_fl ar (of_int i) amplitude seed))
                 (if even i then 1 else - 1)),
        py = fadd ar (fadd ar startY (fmul ar dy (of_int i)))
              (fmul ar (fmul ar (py perpDirection)
                          (getOrganicOffset_fl ar (of_int i) amplitude seed))
                 (if even i then 1 else - 1))\<rparr>"
  by (simp add: edgePoint_fl_def Let_def even_iff_mod_2_eq_zero)

lemma edge_shape_fl:
  assumes "1 \<le> segments"
    and "generateEdgePoints_fl ar startX startY endX endY segments amplitude seed perpDirection
           = Some points"
  shows "length points = nat segments + 1"
    and "points \<noteq> []"
    and "last points
           = \<lparr>px = fadd ar startX
                    (fmul ar (fdiv ar (fsub ar endX startX) (of_int segments)) (of_int segments)),
              py = fadd ar startY
                    (fmul ar (fdiv ar (fsub ar endY startY) (of_int segments)) (of_int segments))\<rparr>"
    and "rounding ar \<Longrightarrow> rnd ar startX = startX \<Longrightarrow> rnd ar startY = startY \<Longrightarrow>
           hd points = \<lparr>px = startX, py = startY\<rparr>"
    and "\<And>i. 0 \<le> i \<Longrightarrow> i \<le> segments \<Longrightarrow>
           points ! nat i
             = edgePoint_fl ar startX startY (fdiv ar (fsub ar endX startX) (of_int segments))
                 (fdiv ar (fsub ar endY startY) (of_int segments)) segments amplitude seed
                 perpDirection i"
proof -
  let ?body = "edgePoint_fl ar startX startY (fdiv ar (fsub ar endX startX) (of_int segments))
     (fdiv ar (fsub ar endY startY) (of_int segments)) segments amplitude seed perpDirection"
  have ne: "segments \<noteq> 0" using assms(1) by simp
  have pts: "points = map ?body [0..segments]"
    using assms(2) generateEdgePoints_fl_eq [OF ne] by simp
  show len: "length points = nat segments + 1"
    using assms(1) by (simp add: pts)
  then show nonempty: "points \<noteq> []" by auto
  show nth: "points ! nat i = ?body i" if "0 \<le> i" "i \<le> segments" for i
    using that by (simp add: pts nth_upto)
  have "last points = points ! nat segments"
    using nonempty len by (simp add: last_conv_nth)
  also have "\<dots> = ?body segments" using assms(1) by (intro nth) simp_all
  finally show "last points
           = \<lparr>px = fadd ar startX
                    (fmul ar (fdiv ar (fsub ar endX startX) (of_int segments)) (of_int segments)),
              py = fadd ar startY
                    (fmul ar (fdiv ar (fsub ar endY startY) (of_int segments)) (of_int segments))\<rparr>"
    using ne by (simp add: edgePoint_fl_last)
  show "hd points = \<lparr>px = startX, py = startY\<rparr>"
    if "rounding ar" "rnd ar startX = startX" "rnd ar startY = startY"
  proof -
    have "hd points = points ! nat 0" using nonempty by (simp add: hd_conv_nth)
    also have "\<dots> = ?body 0" using assms(1) by (intro nth) simp_all
    finally show ?thesis using that by (simp add: edgePoint_fl_first)
  qed
qed

text \<open>
  Claim C5, as amended. For every edge whose start is a double, every segment count of at
  least one, every amplitude and seed, generateEdgePoints returns segments + 1 points. The
  first is the start exactly. The last is \<open>start + dx \<cdot> segments\<close> with
  \<open>dx = (end - start) / segments\<close>, every operation rounded: it is the end in exact
  arithmetic, and in doubles the end up to rounding. The interior point \<open>i\<close> is the
  interpolation position \<open>start + dx \<cdot> i\<close> moved along the normal by the offset of \<open>i\<close> times
  the direction, \<open>+1\<close> for an even \<open>i\<close> and \<open>-1\<close> for an odd one; with amplitude zero it is
  the interpolation position itself. The first conjunct holds in every arithmetic that
  keeps zero and its own results, doubles among them; the second is exact arithmetic.
\<close>

theorem generateEdgePoints_fl_contract:
  assumes "1 \<le> segments" and "rounding ar"
    and "rnd ar startX = startX" and "rnd ar startY = startY"
  shows "(\<exists>points.
            generateEdgePoints_fl ar startX startY endX endY segments amplitude seed perpDirection
              = Some points
          \<and> length points = nat segments + 1
          \<and> hd points = \<lparr>px = startX, py = startY\<rparr>
          \<and> last points
              = \<lparr>px = fadd ar startX
                       (fmul ar (fdiv ar (fsub ar endX startX) (of_int segments))
                          (of_int segments)),
                 py = fadd ar startY
                       (fmul ar (fdiv ar (fsub ar endY startY) (of_int segments))
                          (of_int segments))\<rparr>
          \<and> (\<forall>i. 1 \<le> i \<and> i < segments \<longrightarrow>
                points ! nat i
                  = \<lparr>px = fadd ar
                           (fadd ar startX
                              (fmul ar (fdiv ar (fsub ar endX startX) (of_int segments))
                                 (of_int i)))
                           (fmul ar
                              (fmul ar (px perpDirection)
                                 (getOrganicOffset_fl ar (of_int i) amplitude seed))
                              (if even i then 1 else - 1)),
                     py = fadd ar
                           (fadd ar startY
                              (fmul ar (fdiv ar (fsub ar endY startY) (of_int segments))
                                 (of_int i)))
                           (fmul ar
                              (fmul ar (py perpDirection)
                                 (getOrganicOffset_fl ar (of_int i) amplitude seed))
                              (if even i then 1 else - 1))\<rparr>)
          \<and> (amplitude = 0 \<longrightarrow>
                (\<forall>i. 1 \<le> i \<and> i < segments \<longrightarrow>
                   points ! nat i
                     = \<lparr>px = fadd ar startX
                              (fmul ar (fdiv ar (fsub ar endX startX) (of_int segments))
                                 (of_int i)),
                        py = fadd ar startY
                              (fmul ar (fdiv ar (fsub ar endY startY) (of_int segments))
                                 (of_int i))\<rparr>)))
       \<and> (\<exists>points.
            generateEdgePoints_fl exact startX startY endX endY segments amplitude seed
              perpDirection = Some points
          \<and> last points = \<lparr>px = endX, py = endY\<rparr>
          \<and> (\<forall>i. 1 \<le> i \<and> i < segments \<longrightarrow>
                points ! nat i
                  = \<lparr>px = startX + (endX - startX) * of_int i / of_int segments
                           + px perpDirection * getOrganicOffset (of_int i) amplitude seed
                               * (if even i then 1 else - 1),
                     py = startY + (endY - startY) * of_int i / of_int segments
                           + py perpDirection * getOrganicOffset (of_int i) amplitude seed
                               * (if even i then 1 else - 1)\<rparr>))"
proof (rule conjI)
  let ?dx = "fdiv ar (fsub ar endX startX) (of_int segments)"
  let ?dy = "fdiv ar (fsub ar endY startY) (of_int segments)"
  let ?body = "edgePoint_fl ar startX startY ?dx ?dy segments amplitude seed perpDirection"
  let ?points = "map ?body [0..segments]"
  have ne: "segments \<noteq> 0" using assms(1) by simp
  have gen: "generateEdgePoints_fl ar startX startY endX endY segments amplitude seed
               perpDirection = Some ?points"
    by (rule generateEdgePoints_fl_eq [OF ne])
  note shape = edge_shape_fl [OF assms(1) gen]
  have first: "hd ?points = \<lparr>px = startX, py = startY\<rparr>"
    by (rule shape(4) [OF assms(2-4)])
  have interior: "?points ! nat i
      = \<lparr>px = fadd ar (fadd ar startX (fmul ar ?dx (of_int i)))
               (fmul ar (fmul ar (px perpDirection)
                           (getOrganicOffset_fl ar (of_int i) amplitude seed))
                  (if even i then 1 else - 1)),
         py = fadd ar (fadd ar startY (fmul ar ?dy (of_int i)))
               (fmul ar (fmul ar (py perpDirection)
                           (getOrganicOffset_fl ar (of_int i) amplitude seed))
                  (if even i then 1 else - 1))\<rparr>"
    if "1 \<le> i \<and> i < segments" for i
  proof -
    have "?points ! nat i = ?body i" using that by (intro shape(5)) simp_all
    also have "\<dots> = \<lparr>px = fadd ar (fadd ar startX (fmul ar ?dx (of_int i)))
               (fmul ar (fmul ar (px perpDirection)
                           (getOrganicOffset_fl ar (of_int i) amplitude seed))
                  (if even i then 1 else - 1)),
         py = fadd ar (fadd ar startY (fmul ar ?dy (of_int i)))
               (fmul ar (fmul ar (py perpDirection)
                           (getOrganicOffset_fl ar (of_int i) amplitude seed))
                  (if even i then 1 else - 1))\<rparr>"
      using that by (intro edgePoint_fl_interior) simp_all
    finally show ?thesis .
  qed
  have flat: "?points ! nat i
      = \<lparr>px = fadd ar startX (fmul ar ?dx (of_int i)),
         py = fadd ar startY (fmul ar ?dy (of_int i))\<rparr>"
    if "amplitude = 0" "1 \<le> i \<and> i < segments" for i
    using interior [OF that(2)] that(1)
    by (simp add: getOrganicOffset_fl_zero [OF assms(2)] fadd_rounded_zero [OF assms(2)])
  show "\<exists>points.
            generateEdgePoints_fl ar startX startY endX endY segments amplitude seed perpDirection
              = Some points
          \<and> length points = nat segments + 1
          \<and> hd points = \<lparr>px = startX, py = startY\<rparr>
          \<and> last points
              = \<lparr>px = fadd ar startX (fmul ar ?dx (of_int segments)),
                 py = fadd ar startY (fmul ar ?dy (of_int segments))\<rparr>
          \<and> (\<forall>i. 1 \<le> i \<and> i < segments \<longrightarrow>
                points ! nat i
                  = \<lparr>px = fadd ar (fadd ar startX (fmul ar ?dx (of_int i)))
                           (fmul ar
                              (fmul ar (px perpDirection)
                                 (getOrganicOffset_fl ar (of_int i) amplitude seed))
                              (if even i then 1 else - 1)),
                     py = fadd ar (fadd ar startY (fmul ar ?dy (of_int i)))
                           (fmul ar
                              (fmul ar (py perpDirection)
                                 (getOrganicOffset_fl ar (of_int i) amplitude seed))
                              (if even i then 1 else - 1))\<rparr>)
          \<and> (amplitude = 0 \<longrightarrow>
                (\<forall>i. 1 \<le> i \<and> i < segments \<longrightarrow>
                   points ! nat i
                     = \<lparr>px = fadd ar startX (fmul ar ?dx (of_int i)),
                        py = fadd ar startY (fmul ar ?dy (of_int i))\<rparr>))"
    using gen shape(1,3) first interior flat
    by (intro exI [of _ ?points] conjI allI impI) blast+
next
  from generateEdgePoints_contract [OF assms(1), of startX startY endX endY amplitude seed
      perpDirection]
  show "\<exists>points.
            generateEdgePoints_fl exact startX startY endX endY segments amplitude seed
              perpDirection = Some points
          \<and> last points = \<lparr>px = endX, py = endY\<rparr>
          \<and> (\<forall>i. 1 \<le> i \<and> i < segments \<longrightarrow>
                points ! nat i
                  = \<lparr>px = startX + (endX - startX) * of_int i / of_int segments
                           + px perpDirection * getOrganicOffset (of_int i) amplitude seed
                               * (if even i then 1 else - 1),
                     py = startY + (endY - startY) * of_int i / of_int segments
                           + py perpDirection * getOrganicOffset (of_int i) amplitude seed
                               * (if even i then 1 else - 1)\<rparr>)"
    unfolding generateEdgePoints_fl_exact by blast
qed

lemma f64_below_one: "f64 (9007199254740991 / 2 ^ 53) = 9007199254740991 / 2 ^ 53"
  using f64_representable [of "9007199254740991 / 2 ^ 53" 9007199254740991 "- 53"] by simp

text \<open>
  Claim C5 as stated has the last point equal to the end exactly. In doubles the edge from
  (0, 0) to (1, 0) in 49 segments ends in \<open>(1 - 2^-53, 0)\<close>, printed 0.9999999999999999:
  \<open>1 / 49\<close> rounds down, and 49 times the rounded step stays below 1.
\<close>

theorem generateEdgePoints_last_inexact:
  "\<forall>s. \<exists>points.
      generateEdgePoints_fl (double s) 0 0 1 0 49 4 1.23 \<lparr>px = 0, py = - 1\<rparr> = Some points
    \<and> last points = \<lparr>px = 9007199254740991 / 2 ^ 53, py = 0\<rparr>
    \<and> last points \<noteq> \<lparr>px = 1, py = 0\<rparr>"
proof
  fix s :: "real \<Rightarrow> real"
  let ?ar = "double s"
  have seg: "(1::int) \<le> 49" by simp
  obtain points where
    gen: "generateEdgePoints_fl ?ar 0 0 1 0 49 4 1.23 \<lparr>px = 0, py = - 1\<rparr> = Some points"
    using generateEdgePoints_fl_eq [of 49 ?ar] by simp
  note shape = edge_shape_fl [OF seg gen]
  have dx: "fdiv ?ar (fsub ?ar 1 0) (of_int 49) = 5882252574524729 / 2 ^ 58"
    by (simp add: double_ops f64_1_49)
  have dy: "fdiv ?ar (fsub ?ar 0 0) (of_int 49) = 0"
    by (simp add: double_ops)
  have x: "fadd ?ar 0 (fmul ?ar (5882252574524729 / 2 ^ 58) (of_int 49))
             = 9007199254740991 / 2 ^ 53"
    unfolding double_ops of_int_numeral f64_dx49 add_0 by (rule f64_below_one)
  have y: "fadd ?ar 0 (fmul ?ar 0 (of_int 49)) = 0"
    by (simp add: double_ops)
  have last: "last points = \<lparr>px = 9007199254740991 / 2 ^ 53, py = 0\<rparr>"
    unfolding shape(3) dx dy x y ..
  have "last points \<noteq> \<lparr>px = 1, py = 0\<rparr>"
    unfolding last by simp
  with gen last show "\<exists>points.
      generateEdgePoints_fl (double s) 0 0 1 0 49 4 1.23 \<lparr>px = 0, py = - 1\<rparr> = Some points
    \<and> last points = \<lparr>px = 9007199254740991 / 2 ^ 53, py = 0\<rparr>
    \<and> last points \<noteq> \<lparr>px = 1, py = 0\<rparr>"
    by blast
qed

theorem generateEdgePoints_fl_contract_witness:
  "\<forall>s. (1::int) \<le> 4 \<and> rounding (double s) \<and> rnd (double s) 8 = 8
     \<and> (\<exists>points.
           generateEdgePoints_fl (double s) 8 8 392 8 4 4 1.23 \<lparr>px = 0, py = - 1\<rparr> = Some points
         \<and> length points = 5
         \<and> hd points = \<lparr>px = 8, py = 8\<rparr>
         \<and> last points = \<lparr>px = 392, py = 8\<rparr>
         \<and> points ! 1
             = \<lparr>px = 104,
                py = fadd (double s) 8
                       (fmul (double s)
                          (fmul (double s) (- 1) (getOrganicOffset_fl (double s) 1 4 1.23))
                          (- 1))\<rparr>)"
proof
  fix s :: "real \<Rightarrow> real"
  let ?ar = "double s"
  let ?off = "getOrganicOffset_fl ?ar 1 4 1.23"
  have seg: "(1::int) \<le> 4" by simp
  have r8: "rnd ?ar 8 = 8" by (simp add: double_ops f64_numeral)
  from generateEdgePoints_fl_contract [OF seg rounding_double r8 r8,
      where endX = 392 and endY = 8 and amplitude = 4 and seed = "1.23"
        and perpDirection = "\<lparr>px = 0, py = - 1\<rparr>"]
  obtain points where
    gen: "generateEdgePoints_fl ?ar 8 8 392 8 4 4 1.23 \<lparr>px = 0, py = - 1\<rparr> = Some points"
    and len: "length points = nat 4 + 1"
    and first: "hd points = \<lparr>px = 8, py = 8\<rparr>"
    and final: "last points
              = \<lparr>px = fadd ?ar 8 (fmul ?ar (fdiv ?ar (fsub ?ar 392 8) (of_int 4)) (of_int 4)),
                 py = fadd ?ar 8 (fmul ?ar (fdiv ?ar (fsub ?ar 8 8) (of_int 4)) (of_int 4))\<rparr>"
    and inner: "\<forall>i::int. 1 \<le> i \<and> i < 4 \<longrightarrow>
                points ! nat i
                  = \<lparr>px = fadd ?ar
                           (fadd ?ar 8 (fmul ?ar (fdiv ?ar (fsub ?ar 392 8) (of_int 4)) (of_int i)))
                           (fmul ?ar
                              (fmul ?ar (px \<lparr>px = 0, py = - 1\<rparr>)
                                 (getOrganicOffset_fl ?ar (of_int i) 4 1.23))
                              (if even i then 1 else - 1)),
                     py = fadd ?ar
                           (fadd ?ar 8 (fmul ?ar (fdiv ?ar (fsub ?ar 8 8) (of_int 4)) (of_int i)))
                           (fmul ?ar
                              (fmul ?ar (py \<lparr>px = 0, py = - 1\<rparr>)
                                 (getOrganicOffset_fl ?ar (of_int i) 4 1.23))
                              (if even i then 1 else - 1))\<rparr>"
    by blast
  have lx: "fadd ?ar 8 (fmul ?ar (fdiv ?ar (fsub ?ar 392 8) (of_int 4)) (of_int 4)) = 392"
    by (simp add: double_ops f64_numeral)
  have ly: "fadd ?ar 8 (fmul ?ar (fdiv ?ar (fsub ?ar 8 8) (of_int 4)) (of_int 4)) = 8"
    by (simp add: double_ops f64_numeral)
  have bx: "fadd ?ar 8 (fmul ?ar (fdiv ?ar (fsub ?ar 392 8) (of_int 4)) (of_int 1)) = 104"
    by (simp add: double_ops f64_numeral)
  have by': "fadd ?ar 8 (fmul ?ar (fdiv ?ar (fsub ?ar 8 8) (of_int 4)) (of_int 1)) = 8"
    by (simp add: double_ops f64_numeral)
  have wx: "fadd ?ar 104 (fmul ?ar (fmul ?ar 0 z) (- 1)) = 104" for z
    by (simp add: double_ops f64_numeral)
  from inner have "points ! nat 1
                  = \<lparr>px = fadd ?ar
                           (fadd ?ar 8 (fmul ?ar (fdiv ?ar (fsub ?ar 392 8) (of_int 4)) (of_int 1)))
                           (fmul ?ar
                              (fmul ?ar (px \<lparr>px = 0, py = - 1\<rparr>)
                                 (getOrganicOffset_fl ?ar (of_int 1) 4 1.23))
                              (if even (1::int) then 1 else - 1)),
                     py = fadd ?ar
                           (fadd ?ar 8 (fmul ?ar (fdiv ?ar (fsub ?ar 8 8) (of_int 4)) (of_int 1)))
                           (fmul ?ar
                              (fmul ?ar (py \<lparr>px = 0, py = - 1\<rparr>)
                                 (getOrganicOffset_fl ?ar (of_int 1) 4 1.23))
                              (if even (1::int) then 1 else - 1))\<rparr>"
    by (rule allE [of _ 1]) simp
  then have p1: "points ! 1
             = \<lparr>px = 104,
                py = fadd ?ar 8 (fmul ?ar (fmul ?ar (- 1) ?off) (- 1))\<rparr>"
    unfolding bx by' by (simp add: wx)
  have final': "last points = \<lparr>px = 392, py = 8\<rparr>"
    using final unfolding lx ly .
  have "generateEdgePoints_fl ?ar 8 8 392 8 4 4 1.23 \<lparr>px = 0, py = - 1\<rparr> = Some points
         \<and> length points = 5
         \<and> hd points = \<lparr>px = 8, py = 8\<rparr>
         \<and> last points = \<lparr>px = 392, py = 8\<rparr>
         \<and> points ! 1
             = \<lparr>px = 104,
                py = fadd ?ar 8 (fmul ?ar (fmul ?ar (- 1) ?off) (- 1))\<rparr>"
    using gen len first final' p1 by simp
  then have "\<exists>points.
           generateEdgePoints_fl ?ar 8 8 392 8 4 4 1.23 \<lparr>px = 0, py = - 1\<rparr> = Some points
         \<and> length points = 5
         \<and> hd points = \<lparr>px = 8, py = 8\<rparr>
         \<and> last points = \<lparr>px = 392, py = 8\<rparr>
         \<and> points ! 1
             = \<lparr>px = 104,
                py = fadd ?ar 8 (fmul ?ar (fmul ?ar (- 1) ?off) (- 1))\<rparr>"
    by (rule exI)
  with seg rounding_double [of s] r8
  show "(1::int) \<le> 4 \<and> rounding (double s) \<and> rnd (double s) 8 = 8
     \<and> (\<exists>points.
           generateEdgePoints_fl (double s) 8 8 392 8 4 4 1.23 \<lparr>px = 0, py = - 1\<rparr> = Some points
         \<and> length points = 5
         \<and> hd points = \<lparr>px = 8, py = 8\<rparr>
         \<and> last points = \<lparr>px = 392, py = 8\<rparr>
         \<and> points ! 1
             = \<lparr>px = 104,
                py = fadd (double s) 8
                       (fmul (double s)
                          (fmul (double s) (- 1) (getOrganicOffset_fl (double s) 1 4 1.23))
                          (- 1))\<rparr>)"
    by (intro conjI)
qed

section \<open>The spline converter and the path assembler in an arbitrary arithmetic\<close>

lemma smoothLoop_fl_eq:
  "smoothLoop_fl ar fmt points i path
     = path @ concat (map (curveText_fl ar fmt points) [i..<length points - 1])"
proof (induction ar fmt points i path rule: smoothLoop_fl.induct)
  case (1 ar fmt points i path)
  show ?case
  proof (cases "int i < int (length points) - 1")
    case True
    then have lt: "i < length points - 1" by linarith
    have "smoothLoop_fl ar fmt points i path
            = smoothLoop_fl ar fmt points (i + 1) (path @ curveText_fl ar fmt points i)"
      using True by (subst smoothLoop_fl.simps) simp
    also have "\<dots> = (path @ curveText_fl ar fmt points i)
                      @ concat (map (curveText_fl ar fmt points) [i + 1..<length points - 1])"
      using True by (rule 1)
    finally show ?thesis using lt by (simp add: upt_conv_Cons)
  next
    case False
    then have "\<not> i < length points - 1" by linarith
    then show ?thesis using False by (subst smoothLoop_fl.simps) simp
  qed
qed

lemma curveText_fl_command:
  "curveText_fl ar fmt points i = commandText fmt (curve_fl ar points i)"
proof -
  have p0: "nat (max 0 (int i - 1)) = i - 1" by simp
  have p3: "nat (min (int (length points) - 1) (int i + 2)) = min (length points - 1) (i + 2)"
    by (cases "int (length points) - 1 \<le> int i + 2") (simp_all add: min_def, linarith+)
  show ?thesis
    unfolding curveText_fl_def curve_fl_def p0 p3
    by (simp add: Let_def)
qed

lemma generateSmoothPath_fl_pathText:
  assumes "2 \<le> length points"
  shows "generateSmoothPath_fl ar fmt points = pathText fmt (smoothCommands_fl ar points)"
proof -
  have "generateSmoothPath_fl ar fmt points
          = (''M '' @ fmt (px (points ! 0)) @ '' '' @ fmt (py (points ! 0)))
              @ concat (map (curveText_fl ar fmt points) [0..<length points - 1])"
    using assms by (simp add: generateSmoothPath_fl_def smoothLoop_fl_eq)
  also have "map (curveText_fl ar fmt points) [0..<length points - 1]
               = map (commandText fmt) (map (curve_fl ar points) [0..<length points - 1])"
    by (simp add: curveText_fl_command)
  finally show ?thesis
    by (simp add: pathText_def smoothCommands_fl_def)
qed

lemma curve_fl_not_close:
  "curve_fl ar points i \<noteq> ClosePath" "ClosePath \<noteq> curve_fl ar points i"
  by (simp_all add: curve_fl_def Let_def)

lemma smoothCommands_fl_open: "ClosePath \<notin> set (smoothCommands_fl ar points)"
  by (auto simp: smoothCommands_fl_def curve_fl_not_close)

lemma closed_path_commands_fl:
  assumes "2 \<le> length points"
  shows "generateSmoothPath_fl ar fmt points @ '' Z''
           = pathText fmt (smoothCommands_fl ar points @ [ClosePath])"
  using generateSmoothPath_fl_pathText [OF assms, of ar fmt] by (simp add: pathText_def)

lemma smoothCommands_fl_hd: "hd (smoothCommands_fl ar points) = MoveTo (points ! 0)"
  by (simp add: smoothCommands_fl_def)

lemma calculateSegments_fl_eq:
  fixes waveSegmentSize :: real
  shows "waveSegmentSize \<noteq> 0 \<Longrightarrow>
    calculateSegments_fl ar horizontalLength verticalLength waveSegmentSize
      = Some \<lparr>horizontal = max 4 (round (fdiv ar horizontalLength waveSegmentSize)),
               vertical = max 4 (round (fdiv ar verticalLength waveSegmentSize))\<rparr>"
  by (simp add: calculateSegments_fl_def)

lemma wigglyLocals_fl_shape:
  fixes ar :: arith and viewBox :: viewBox and options :: options
  defines "p \<equiv> fadd ar (waveAmplitude options) (borderWidth options)"
  defines "r \<equiv> fsub ar (width viewBox) p"
  defines "b \<equiv> fsub ar (height viewBox) p"
  defines "counts \<equiv>
    \<lparr>horizontal = max 4 (round (fdiv ar (fsub ar r p) (waveSegmentSize options))),
     vertical = max 4 (round (fdiv ar (fsub ar b p) (waveSegmentSize options)))\<rparr>"
  assumes size: "waveSegmentSize options \<noteq> 0"
  shows "\<exists>topPoints rightPoints bottomPoints leftPoints.
      generateEdgePoints_fl ar p p r p (horizontal counts) (waveAmplitude options)
        (lit ar EDGE_SEEDS_top) \<lparr>px = 0, py = - 1\<rparr> = Some topPoints
    \<and> generateEdgePoints_fl ar r p r b (vertical counts) (waveAmplitude options)
        (lit ar EDGE_SEEDS_right) \<lparr>px = 1, py = 0\<rparr> = Some rightPoints
    \<and> generateEdgePoints_fl ar r b p b (horizontal counts) (waveAmplitude options)
        (lit ar EDGE_SEEDS_bottom) \<lparr>px = 0, py = 1\<rparr> = Some bottomPoints
    \<and> generateEdgePoints_fl ar p b p p (vertical counts) (waveAmplitude options)
        (lit ar EDGE_SEEDS_left) \<lparr>px = - 1, py = 0\<rparr> = Some leftPoints
    \<and> wigglyLocals_fl ar viewBox options
       = Some \<lparr>l_padding = p, l_left = p, l_right = r, l_top = p,
           l_bottom = b, l_segments = counts, l_topPoints = topPoints,
           l_rightPoints = rightPoints, l_bottomPoints = bottomPoints,
           l_leftPoints = leftPoints,
           l_allPoints = topPoints @ tl rightPoints @ tl bottomPoints @ butlast (tl leftPoints)\<rparr>"
proof -
  have h: "horizontal counts \<noteq> 0" and v: "vertical counts \<noteq> 0"
    by (simp_all add: counts_def)
  have segs: "calculateSegments_fl ar (fsub ar r p) (fsub ar b p) (waveSegmentSize options)
      = Some counts"
    unfolding counts_def by (rule calculateSegments_fl_eq [OF size])
  show ?thesis
    unfolding wigglyLocals_fl_def Let_def p_def [symmetric] r_def [symmetric] b_def [symmetric]
    by (simp add: segs generateEdgePoints_fl_eq [OF h] generateEdgePoints_fl_eq [OF v]
        slice_from_1 slice_1_minus_1)
qed

lemma wigglyLocals_fl_defined:
  assumes "waveSegmentSize options \<noteq> 0"
  shows "\<exists>locals. wigglyLocals_fl ar viewBox options = Some locals"
  using wigglyLocals_fl_shape [OF assms, of ar viewBox] by blast

lemma rounded_ops:
  assumes "rounding ar"
  shows "rnd ar (fadd ar a b) = fadd ar a b" and "rnd ar (fsub ar a b) = fsub ar a b"
  using assms by (simp_all add: fadd_def fsub_def rounding_idem)

lemma wigglyLocals_fl_run:
  assumes size: "waveSegmentSize options \<noteq> 0"
    and ar: "rounding ar"
    and run: "wigglyLocals_fl ar viewBox options = Some locals"
  shows "l_padding locals = fadd ar (waveAmplitude options) (borderWidth options)"
    and "l_left locals = l_padding locals"
    and "l_right locals = fsub ar (width viewBox) (l_padding locals)"
    and "l_top locals = l_padding locals"
    and "l_bottom locals = fsub ar (height viewBox) (l_padding locals)"
    and "calculateSegments_fl ar (fsub ar (l_right locals) (l_left locals))
           (fsub ar (l_bottom locals) (l_top locals)) (waveSegmentSize options)
           = Some (l_segments locals)"
    and "4 \<le> horizontal (l_segments locals)"
    and "4 \<le> vertical (l_segments locals)"
    and "generateEdgePoints_fl ar (l_left locals) (l_top locals) (l_right locals) (l_top locals)
           (horizontal (l_segments locals)) (waveAmplitude options) (lit ar EDGE_SEEDS_top)
           \<lparr>px = 0, py = - 1\<rparr> = Some (l_topPoints locals)"
    and "generateEdgePoints_fl ar (l_right locals) (l_top locals) (l_right locals)
           (l_bottom locals) (vertical (l_segments locals)) (waveAmplitude options)
           (lit ar EDGE_SEEDS_right) \<lparr>px = 1, py = 0\<rparr> = Some (l_rightPoints locals)"
    and "generateEdgePoints_fl ar (l_right locals) (l_bottom locals) (l_left locals)
           (l_bottom locals) (horizontal (l_segments locals)) (waveAmplitude options)
           (lit ar EDGE_SEEDS_bottom) \<lparr>px = 0, py = 1\<rparr> = Some (l_bottomPoints locals)"
    and "generateEdgePoints_fl ar (l_left locals) (l_bottom locals) (l_left locals) (l_top locals)
           (vertical (l_segments locals)) (waveAmplitude options) (lit ar EDGE_SEEDS_left)
           \<lparr>px = - 1, py = 0\<rparr> = Some (l_leftPoints locals)"
    and "length (l_topPoints locals) = nat (horizontal (l_segments locals)) + 1"
    and "length (l_rightPoints locals) = nat (vertical (l_segments locals)) + 1"
    and "length (l_bottomPoints locals) = nat (horizontal (l_segments locals)) + 1"
    and "length (l_leftPoints locals) = nat (vertical (l_segments locals)) + 1"
    and "hd (l_topPoints locals) = \<lparr>px = l_left locals, py = l_top locals\<rparr>"
    and "hd (l_rightPoints locals) = \<lparr>px = l_right locals, py = l_top locals\<rparr>"
    and "hd (l_bottomPoints locals) = \<lparr>px = l_right locals, py = l_bottom locals\<rparr>"
    and "hd (l_leftPoints locals) = \<lparr>px = l_left locals, py = l_bottom locals\<rparr>"
    and "l_allPoints locals
       = l_topPoints locals @ tl (l_rightPoints locals) @ tl (l_bottomPoints locals)
           @ butlast (tl (l_leftPoints locals))"
    and "length (l_allPoints locals)
       = 2 * (nat (horizontal (l_segments locals)) + nat (vertical (l_segments locals)))"
    and "l_allPoints locals ! 0 = \<lparr>px = l_left locals, py = l_top locals\<rparr>"
proof -
  define p where "p = fadd ar (waveAmplitude options) (borderWidth options)"
  define r where "r = fsub ar (width viewBox) p"
  define b where "b = fsub ar (height viewBox) p"
  define counts where "counts =
    \<lparr>horizontal = max 4 (round (fdiv ar (fsub ar r p) (waveSegmentSize options))),
     vertical = max 4 (round (fdiv ar (fsub ar b p) (waveSegmentSize options)))\<rparr>"
  obtain topPoints rightPoints bottomPoints leftPoints where
    top: "generateEdgePoints_fl ar p p r p (horizontal counts) (waveAmplitude options)
        (lit ar EDGE_SEEDS_top) \<lparr>px = 0, py = - 1\<rparr> = Some topPoints"
    and right: "generateEdgePoints_fl ar r p r b (vertical counts) (waveAmplitude options)
        (lit ar EDGE_SEEDS_right) \<lparr>px = 1, py = 0\<rparr> = Some rightPoints"
    and bottom: "generateEdgePoints_fl ar r b p b (horizontal counts) (waveAmplitude options)
        (lit ar EDGE_SEEDS_bottom) \<lparr>px = 0, py = 1\<rparr> = Some bottomPoints"
    and left: "generateEdgePoints_fl ar p b p p (vertical counts) (waveAmplitude options)
        (lit ar EDGE_SEEDS_left) \<lparr>px = - 1, py = 0\<rparr> = Some leftPoints"
    and shape: "wigglyLocals_fl ar viewBox options
       = Some \<lparr>l_padding = p, l_left = p, l_right = r, l_top = p,
           l_bottom = b, l_segments = counts, l_topPoints = topPoints,
           l_rightPoints = rightPoints, l_bottomPoints = bottomPoints,
           l_leftPoints = leftPoints,
           l_allPoints = topPoints @ tl rightPoints @ tl bottomPoints @ butlast (tl leftPoints)\<rparr>"
    using wigglyLocals_fl_shape [OF size, of ar viewBox]
    unfolding p_def [symmetric] r_def [symmetric] b_def [symmetric] counts_def [symmetric]
    by blast
  have locals: "locals = \<lparr>l_padding = p, l_left = p, l_right = r, l_top = p,
           l_bottom = b, l_segments = counts, l_topPoints = topPoints,
           l_rightPoints = rightPoints, l_bottomPoints = bottomPoints,
           l_leftPoints = leftPoints,
           l_allPoints = topPoints @ tl rightPoints @ tl bottomPoints @ butlast (tl leftPoints)\<rparr>"
    using run shape by simp
  have h: "4 \<le> horizontal counts" and v: "4 \<le> vertical counts"
    by (simp_all add: counts_def)
  have h1: "1 \<le> horizontal counts" and v1: "1 \<le> vertical counts"
    using h v by simp_all
  have rp: "rnd ar p = p" and rr: "rnd ar r = r" and rb: "rnd ar b = b"
    unfolding p_def r_def b_def by (simp_all add: rounded_ops [OF ar])
  note t = edge_shape_fl [OF h1 top] and ri = edge_shape_fl [OF v1 right]
    and bo = edge_shape_fl [OF h1 bottom] and le = edge_shape_fl [OF v1 left]
  have v2: "1 \<le> nat (vertical counts)" using v by simp
  have len: "length (topPoints @ tl rightPoints @ tl bottomPoints @ butlast (tl leftPoints))
      = 2 * (nat (horizontal counts) + nat (vertical counts))"
    by (rule assembled_length [OF t(1) ri(1) bo(1) le(1) v2])
  have segs: "calculateSegments_fl ar (fsub ar r p) (fsub ar b p) (waveSegmentSize options)
      = Some counts"
    unfolding counts_def by (rule calculateSegments_fl_eq [OF size])
  show "l_padding locals = fadd ar (waveAmplitude options) (borderWidth options)"
    and "l_left locals = l_padding locals"
    and "l_right locals = fsub ar (width viewBox) (l_padding locals)"
    and "l_top locals = l_padding locals"
    and "l_bottom locals = fsub ar (height viewBox) (l_padding locals)"
    by (simp_all add: locals p_def r_def b_def)
  show "calculateSegments_fl ar (fsub ar (l_right locals) (l_left locals))
           (fsub ar (l_bottom locals) (l_top locals)) (waveSegmentSize options)
           = Some (l_segments locals)"
    using segs by (simp add: locals)
  show "4 \<le> horizontal (l_segments locals)" and "4 \<le> vertical (l_segments locals)"
    using h v by (simp_all add: locals)
  show "generateEdgePoints_fl ar (l_left locals) (l_top locals) (l_right locals) (l_top locals)
           (horizontal (l_segments locals)) (waveAmplitude options) (lit ar EDGE_SEEDS_top)
           \<lparr>px = 0, py = - 1\<rparr> = Some (l_topPoints locals)"
    using top by (simp add: locals)
  show "generateEdgePoints_fl ar (l_right locals) (l_top locals) (l_right locals)
           (l_bottom locals) (vertical (l_segments locals)) (waveAmplitude options)
           (lit ar EDGE_SEEDS_right) \<lparr>px = 1, py = 0\<rparr> = Some (l_rightPoints locals)"
    using right by (simp add: locals)
  show "generateEdgePoints_fl ar (l_right locals) (l_bottom locals) (l_left locals)
           (l_bottom locals) (horizontal (l_segments locals)) (waveAmplitude options)
           (lit ar EDGE_SEEDS_bottom) \<lparr>px = 0, py = 1\<rparr> = Some (l_bottomPoints locals)"
    using bottom by (simp add: locals)
  show "generateEdgePoints_fl ar (l_left locals) (l_bottom locals) (l_left locals) (l_top locals)
           (vertical (l_segments locals)) (waveAmplitude options) (lit ar EDGE_SEEDS_left)
           \<lparr>px = - 1, py = 0\<rparr> = Some (l_leftPoints locals)"
    using left by (simp add: locals)
  show "length (l_topPoints locals) = nat (horizontal (l_segments locals)) + 1"
    and "length (l_rightPoints locals) = nat (vertical (l_segments locals)) + 1"
    and "length (l_bottomPoints locals) = nat (horizontal (l_segments locals)) + 1"
    and "length (l_leftPoints locals) = nat (vertical (l_segments locals)) + 1"
    using t(1) ri(1) bo(1) le(1) by (simp_all add: locals)
  show "hd (l_topPoints locals) = \<lparr>px = l_left locals, py = l_top locals\<rparr>"
    using t(4) [OF ar rp rp] by (simp add: locals)
  show "hd (l_rightPoints locals) = \<lparr>px = l_right locals, py = l_top locals\<rparr>"
    using ri(4) [OF ar rr rp] by (simp add: locals)
  show "hd (l_bottomPoints locals) = \<lparr>px = l_right locals, py = l_bottom locals\<rparr>"
    using bo(4) [OF ar rr rb] by (simp add: locals)
  show "hd (l_leftPoints locals) = \<lparr>px = l_left locals, py = l_bottom locals\<rparr>"
    using le(4) [OF ar rp rb] by (simp add: locals)
  show "l_allPoints locals
       = l_topPoints locals @ tl (l_rightPoints locals) @ tl (l_bottomPoints locals)
           @ butlast (tl (l_leftPoints locals))"
    by (simp add: locals)
  show "length (l_allPoints locals)
       = 2 * (nat (horizontal (l_segments locals)) + nat (vertical (l_segments locals)))"
    using len by (simp add: locals)
  have "(topPoints @ tl rightPoints @ tl bottomPoints @ butlast (tl leftPoints)) ! 0
          = hd topPoints"
    using t(2) by (simp add: hd_conv_nth nth_append)
  then show "l_allPoints locals ! 0 = \<lparr>px = l_left locals, py = l_top locals\<rparr>"
    using t(4) [OF ar rp rp] by (simp add: locals)
qed

lemma generateWigglyPath_fl_eq:
  assumes "calculateViewBox_fl ar (targetWidth options) (targetHeight options) = Some viewBox"
    and "wigglyLocals_fl ar viewBox options = Some locals"
  shows "generateWigglyPath_fl ar fmt options
           = Some \<lparr>pathData = generateSmoothPath_fl ar fmt (l_allPoints locals) @ '' Z'',
                    viewBoxWidth = width viewBox, viewBoxHeight = height viewBox\<rparr>"
  using assms by (simp add: generateWigglyPath_fl_def generateWigglyPathIn_fl_def)

lemma wigglyLocals_fl_exact: "wigglyLocals_fl exact = wigglyLocals"
  by (intro ext)
    (simp add: wigglyLocals_fl_def wigglyLocals_def calculateSegments_fl_exact
      generateEdgePoints_fl_exact Let_def)

text \<open>In exact arithmetic the interior points of an edge lie strictly between its ends.\<close>

lemma map_upto_ends:
  assumes "1 \<le> n"
  shows "map f [0..n] = f 0 # map f [1..n - 1] @ [f n]"
proof -
  have "[0..n] = 0 # [1..n]" using assms by (simp add: upto_rec1)
  moreover have "[1..n] = [1..n - 1] @ [n]" using assms by (simp add: upto_rec2)
  ultimately show ?thesis by simp
qed

lemma between_ends:
  fixes s e :: real and i n :: int
  assumes "s \<noteq> e" and "0 < i" and "i < n"
  shows "s + (e - s) * of_int i / of_int n \<noteq> s"
    and "s + (e - s) * of_int i / of_int n \<noteq> e"
proof -
  have n: "(of_int n :: real) \<noteq> 0" and i: "(of_int i :: real) \<noteq> 0"
    using assms by simp_all
  show "s + (e - s) * of_int i / of_int n \<noteq> s"
    using assms(1) n i by simp
  have ne: "(of_int i :: real) \<noteq> of_int n" using assms(3) by simp
  show "s + (e - s) * of_int i / of_int n \<noteq> e"
  proof
    assume "s + (e - s) * of_int i / of_int n = e"
    then have "(e - s) * of_int i = (e - s) * of_int n"
      using n by (simp add: field_simps)
    then show False using assms(1) ne by simp
  qed
qed

lemma edge_split:
  assumes n: "1 \<le> segments"
    and run: "generateEdgePoints startX startY endX endY segments amplitude seed perpDirection
           = Some points"
  shows "\<exists>interior.
            points = \<lparr>px = startX, py = startY\<rparr> # interior @ [\<lparr>px = endX, py = endY\<rparr>]
          \<and> (px perpDirection = 0 \<and> startX \<noteq> endX \<longrightarrow>
               (\<forall>q \<in> set interior. px q \<noteq> startX \<and> px q \<noteq> endX))
          \<and> (py perpDirection = 0 \<and> startY \<noteq> endY \<longrightarrow>
               (\<forall>q \<in> set interior. py q \<noteq> startY \<and> py q \<noteq> endY))"
proof -
  let ?body = "edgePoint startX startY ((endX - startX) / of_int segments)
     ((endY - startY) / of_int segments) segments amplitude seed perpDirection"
  have ne: "segments \<noteq> 0" using n by simp
  have pts: "points = map ?body [0..segments]"
    using run generateEdgePoints_eq [OF ne] by simp
  have split: "points = \<lparr>px = startX, py = startY\<rparr> # map ?body [1..segments - 1]
                 @ [\<lparr>px = endX, py = endY\<rparr>]"
    unfolding pts map_upto_ends [OF n]
    by (simp add: edgePoint_first edgePoint_last [OF ne])
  have x: "px q \<noteq> startX \<and> px q \<noteq> endX"
    if "px perpDirection = 0" "startX \<noteq> endX" "q \<in> set (map ?body [1..segments - 1])" for q
  proof -
    from that(3) obtain i where i: "1 \<le> i" "i \<le> segments - 1" and q: "q = ?body i" by auto
    have "px q = startX + (endX - startX) * of_int i / of_int segments"
      using i unfolding q by (subst edgePoint_interior) (simp_all add: that(1))
    then show ?thesis
      using between_ends [OF that(2), of i segments] i by simp
  qed
  have y: "py q \<noteq> startY \<and> py q \<noteq> endY"
    if "py perpDirection = 0" "startY \<noteq> endY" "q \<in> set (map ?body [1..segments - 1])" for q
  proof -
    from that(3) obtain i where i: "1 \<le> i" "i \<le> segments - 1" and q: "q = ?body i" by auto
    have "py q = startY + (endY - startY) * of_int i / of_int segments"
      using i unfolding q by (subst edgePoint_interior) (simp_all add: that(1))
    then show ?thesis
      using between_ends [OF that(2), of i segments] i by simp
  qed
  show ?thesis
    by (rule exI [of _ "map ?body [1..segments - 1]"]) (use split x y in blast)
qed

text \<open>A closed walk round a rectangle with distinct sides, whose interior points avoid the
  corners, visits each corner once.\<close>

lemma corners_once:
  fixes l r t b :: real
  assumes lr: "l \<noteq> r" and tb: "t \<noteq> b"
    and top: "topPoints = \<lparr>px = l, py = t\<rparr> # it @ [\<lparr>px = r, py = t\<rparr>]"
    and right: "rightPoints = \<lparr>px = r, py = t\<rparr> # ir @ [\<lparr>px = r, py = b\<rparr>]"
    and bottom: "bottomPoints = \<lparr>px = r, py = b\<rparr> # ib @ [\<lparr>px = l, py = b\<rparr>]"
    and left: "leftPoints = \<lparr>px = l, py = b\<rparr> # il @ [\<lparr>px = l, py = t\<rparr>]"
    and it: "\<forall>q \<in> set it. px q \<noteq> l \<and> px q \<noteq> r"
    and ir: "\<forall>q \<in> set ir. py q \<noteq> t \<and> py q \<noteq> b"
    and ib: "\<forall>q \<in> set ib. px q \<noteq> r \<and> px q \<noteq> l"
    and il: "\<forall>q \<in> set il. py q \<noteq> b \<and> py q \<noteq> t"
    and c: "c \<in> {\<lparr>px = l, py = t\<rparr>, \<lparr>px = r, py = t\<rparr>, \<lparr>px = r, py = b\<rparr>, \<lparr>px = l, py = b\<rparr>}"
  shows "count_list (topPoints @ tl rightPoints @ tl bottomPoints @ butlast (tl leftPoints)) c
           = 1"
proof -
  have cx: "px c = l \<or> px c = r" and cy: "py c = t \<or> py c = b"
    using c by auto
  have "c \<notin> set it" using it cx by auto
  moreover have "c \<notin> set ir" using ir cy by auto
  moreover have "c \<notin> set ib" using ib cx by auto
  moreover have "c \<notin> set il" using il cy by auto
  ultimately have zero: "count_list it c = 0" "count_list ir c = 0" "count_list ib c = 0"
    "count_list il c = 0"
    by (simp_all add: count_list_0_iff)
  have all: "topPoints @ tl rightPoints @ tl bottomPoints @ butlast (tl leftPoints)
      = \<lparr>px = l, py = t\<rparr> # it @ [\<lparr>px = r, py = t\<rparr>] @ ir @ [\<lparr>px = r, py = b\<rparr>] @ ib
          @ [\<lparr>px = l, py = b\<rparr>] @ il"
    by (simp add: top right bottom left butlast_append)
  show ?thesis
    unfolding all using c lr tb by (auto simp: zero)
qed

text \<open>In exact arithmetic the remaining functions are the ones under their own names.\<close>

lemma curveText_fl_exact: "curveText_fl exact = curveText"
  by (intro ext) (simp add: curveText_fl_def curveText_def Let_def)

lemma smoothLoop_fl_exact: "smoothLoop_fl exact = smoothLoop"
  by (intro ext) (simp add: smoothLoop_fl_eq smoothLoop_eq curveText_fl_exact)

lemma generateSmoothPath_fl_exact: "generateSmoothPath_fl exact = generateSmoothPath"
  by (intro ext) (simp add: generateSmoothPath_fl_def generateSmoothPath_def smoothLoop_fl_exact)

lemma curve_fl_exact: "curve_fl exact = spec_curve"
  by (intro ext) (simp add: curve_fl_def spec_curve_def Let_def algebra_simps)

lemma smoothCommands_fl_exact: "smoothCommands_fl exact = smoothCommands"
  by (intro ext) (simp add: smoothCommands_fl_def smoothCommands_def curve_fl_exact)

lemma generateWigglyPathIn_fl_exact: "generateWigglyPathIn_fl exact = generateWigglyPathIn"
  by (intro ext)
    (simp add: generateWigglyPathIn_fl_def generateWigglyPathIn_def wigglyLocals_fl_exact
      generateSmoothPath_fl_exact)

lemma generateWigglyPath_fl_exact: "generateWigglyPath_fl exact = generateWigglyPath"
  by (intro ext)
    (simp add: generateWigglyPath_fl_def generateWigglyPath_def calculateViewBox_fl_exact
      generateWigglyPathIn_fl_exact)

lemma exact_corners:
  assumes size: "waveSegmentSize options \<noteq> 0"
    and run: "wigglyLocals_fl exact viewBox options = Some locals"
    and lr: "l_left locals \<noteq> l_right locals" and tb: "l_top locals \<noteq> l_bottom locals"
    and c: "c \<in> {\<lparr>px = l_left locals, py = l_top locals\<rparr>,
                  \<lparr>px = l_right locals, py = l_top locals\<rparr>,
                  \<lparr>px = l_right locals, py = l_bottom locals\<rparr>,
                  \<lparr>px = l_left locals, py = l_bottom locals\<rparr>}"
  shows "count_list (l_allPoints locals) c = 1"
proof -
  note facts = wigglyLocals_fl_run [OF size rounding_exact run]
  have h1: "1 \<le> horizontal (l_segments locals)" and v1: "1 \<le> vertical (l_segments locals)"
    using facts(7,8) by simp_all
  obtain it where it:
    "l_topPoints locals = \<lparr>px = l_left locals, py = l_top locals\<rparr> # it
        @ [\<lparr>px = l_right locals, py = l_top locals\<rparr>]"
    "\<forall>q \<in> set it. px q \<noteq> l_left locals \<and> px q \<noteq> l_right locals"
    using edge_split [OF h1 facts(9) [unfolded generateEdgePoints_fl_exact]] lr by auto
  obtain ir where ir:
    "l_rightPoints locals = \<lparr>px = l_right locals, py = l_top locals\<rparr> # ir
        @ [\<lparr>px = l_right locals, py = l_bottom locals\<rparr>]"
    "\<forall>q \<in> set ir. py q \<noteq> l_top locals \<and> py q \<noteq> l_bottom locals"
    using edge_split [OF v1 facts(10) [unfolded generateEdgePoints_fl_exact]] tb by auto
  obtain ib where ib:
    "l_bottomPoints locals = \<lparr>px = l_right locals, py = l_bottom locals\<rparr> # ib
        @ [\<lparr>px = l_left locals, py = l_bottom locals\<rparr>]"
    "\<forall>q \<in> set ib. px q \<noteq> l_right locals \<and> px q \<noteq> l_left locals"
    using edge_split [OF h1 facts(11) [unfolded generateEdgePoints_fl_exact]] lr by auto
  obtain il where il:
    "l_leftPoints locals = \<lparr>px = l_left locals, py = l_bottom locals\<rparr> # il
        @ [\<lparr>px = l_left locals, py = l_top locals\<rparr>]"
    "\<forall>q \<in> set il. py q \<noteq> l_bottom locals \<and> py q \<noteq> l_top locals"
    using edge_split [OF v1 facts(12) [unfolded generateEdgePoints_fl_exact]] tb by auto
  show ?thesis
    unfolding facts(21)
    by (rule corners_once [OF lr tb it(1) ir(1) ib(1) il(1) it(2) ir(2) ib(2) il(2) c])
qed

lemma exact_junctions:
  assumes size: "waveSegmentSize options \<noteq> 0"
    and run: "wigglyLocals_fl exact viewBox options = Some locals"
  shows "hd (l_rightPoints locals) = last (l_topPoints locals)"
    and "hd (l_bottomPoints locals) = last (l_rightPoints locals)"
    and "hd (l_leftPoints locals) = last (l_bottomPoints locals)"
    and "last (l_leftPoints locals) = hd (l_topPoints locals)"
proof -
  have run': "wigglyLocals viewBox options = Some locals"
    using run by (simp add: wigglyLocals_fl_exact)
  note facts = wigglyLocals_run [OF size run']
  show "hd (l_rightPoints locals) = last (l_topPoints locals)"
    and "hd (l_bottomPoints locals) = last (l_rightPoints locals)"
    and "hd (l_leftPoints locals) = last (l_bottomPoints locals)"
    and "last (l_leftPoints locals) = hd (l_topPoints locals)"
    by (simp_all add: facts(13-20))
qed

text \<open>
  Claim C8, as amended. For every valid parameter set, in every arithmetic that keeps zero
  and its own results, doubles among them, and for the viewBox that calculateViewBox
  returns there: the four edges are the results of generateEdgePoints on the sides of the
  rectangle from (left, top) to (right, bottom), with the counts of calculateSegments,
  clockwise from the top edge; the assembled sequence is all top points, then the right
  points without their first, then the bottom points without their first, then the left
  points without their first and their last, four points fewer than the edges together.
  The first point of each edge is the corner it starts from, exactly; so the three dropped
  first points are the corners (right, top), (right, bottom) and (left, bottom). The path
  string is the spline converter's text of the assembled sequence followed by a close-path,
  the only close-path among its commands, and its move-to is the corner (left, top).
  In exact arithmetic each dropped first point is the last point of the edge before, and
  the dropped last left point is the first top point; when moreover the rectangle has
  distinct sides, \<open>left \<noteq> right\<close> and \<open>top \<noteq> bottom\<close>, each of the four corners occurs
  exactly once in the assembled sequence.
\<close>

theorem assembled_points_fl_closed:
  assumes valid: "validOptions options" and ar: "rounding ar"
    and vb: "calculateViewBox_fl ar (targetWidth options) (targetHeight options) = Some viewBox"
  shows "(\<exists>locals result.
            wigglyLocals_fl ar viewBox options = Some locals
          \<and> generateWigglyPath_fl ar fmt options = Some result
          \<and> l_left locals = fadd ar (waveAmplitude options) (borderWidth options)
          \<and> l_top locals = l_left locals
          \<and> l_right locals = fsub ar (width viewBox) (l_left locals)
          \<and> l_bottom locals = fsub ar (height viewBox) (l_left locals)
          \<and> calculateSegments_fl ar (fsub ar (l_right locals) (l_left locals))
                (fsub ar (l_bottom locals) (l_top locals)) (waveSegmentSize options)
                = Some (l_segments locals)
          \<and> generateEdgePoints_fl ar (l_left locals) (l_top locals) (l_right locals)
                (l_top locals) (horizontal (l_segments locals)) (waveAmplitude options)
                (lit ar EDGE_SEEDS_top) \<lparr>px = 0, py = - 1\<rparr> = Some (l_topPoints locals)
          \<and> generateEdgePoints_fl ar (l_right locals) (l_top locals) (l_right locals)
                (l_bottom locals) (vertical (l_segments locals)) (waveAmplitude options)
                (lit ar EDGE_SEEDS_right) \<lparr>px = 1, py = 0\<rparr> = Some (l_rightPoints locals)
          \<and> generateEdgePoints_fl ar (l_right locals) (l_bottom locals) (l_left locals)
                (l_bottom locals) (horizontal (l_segments locals)) (waveAmplitude options)
                (lit ar EDGE_SEEDS_bottom) \<lparr>px = 0, py = 1\<rparr> = Some (l_bottomPoints locals)
          \<and> generateEdgePoints_fl ar (l_left locals) (l_bottom locals) (l_left locals)
                (l_top locals) (vertical (l_segments locals)) (waveAmplitude options)
                (lit ar EDGE_SEEDS_left) \<lparr>px = - 1, py = 0\<rparr> = Some (l_leftPoints locals)
          \<and> l_allPoints locals
              = l_topPoints locals @ tl (l_rightPoints locals) @ tl (l_bottomPoints locals)
                  @ butlast (tl (l_leftPoints locals))
          \<and> length (l_allPoints locals) + 4
              = length (l_topPoints locals) + length (l_rightPoints locals)
                  + length (l_bottomPoints locals) + length (l_leftPoints locals)
          \<and> hd (l_topPoints locals) = \<lparr>px = l_left locals, py = l_top locals\<rparr>
          \<and> hd (l_rightPoints locals) = \<lparr>px = l_right locals, py = l_top locals\<rparr>
          \<and> hd (l_bottomPoints locals) = \<lparr>px = l_right locals, py = l_bottom locals\<rparr>
          \<and> hd (l_leftPoints locals) = \<lparr>px = l_left locals, py = l_bottom locals\<rparr>
          \<and> pathData result = generateSmoothPath_fl ar fmt (l_allPoints locals) @ '' Z''
          \<and> pathData result
              = pathText fmt (smoothCommands_fl ar (l_allPoints locals) @ [ClosePath])
          \<and> ClosePath \<notin> set (smoothCommands_fl ar (l_allPoints locals))
          \<and> hd (smoothCommands_fl ar (l_allPoints locals))
              = MoveTo \<lparr>px = l_left locals, py = l_top locals\<rparr>)
       \<and> (\<exists>box locals result.
            calculateViewBox_fl exact (targetWidth options) (targetHeight options) = Some box
          \<and> wigglyLocals_fl exact box options = Some locals
          \<and> generateWigglyPath_fl exact fmt options = Some result
          \<and> pathData result = generateSmoothPath_fl exact fmt (l_allPoints locals) @ '' Z''
          \<and> hd (l_rightPoints locals) = last (l_topPoints locals)
          \<and> hd (l_bottomPoints locals) = last (l_rightPoints locals)
          \<and> hd (l_leftPoints locals) = last (l_bottomPoints locals)
          \<and> last (l_leftPoints locals) = hd (l_topPoints locals)
          \<and> (l_left locals \<noteq> l_right locals \<and> l_top locals \<noteq> l_bottom locals \<longrightarrow>
                count_list (l_allPoints locals) \<lparr>px = l_left locals, py = l_top locals\<rparr> = 1
              \<and> count_list (l_allPoints locals) \<lparr>px = l_right locals, py = l_top locals\<rparr> = 1
              \<and> count_list (l_allPoints locals) \<lparr>px = l_right locals, py = l_bottom locals\<rparr> = 1
              \<and> count_list (l_allPoints locals) \<lparr>px = l_left locals, py = l_bottom locals\<rparr> = 1))"
proof (rule conjI)
  have size: "waveSegmentSize options \<noteq> 0"
    using valid by (simp add: validOptions_def)
  obtain locals where run: "wigglyLocals_fl ar viewBox options = Some locals"
    using wigglyLocals_fl_defined [OF size] by blast
  note facts = wigglyLocals_fl_run [OF size ar run]
  let ?result = "\<lparr>pathData = generateSmoothPath_fl ar fmt (l_allPoints locals) @ '' Z'',
                    viewBoxWidth = width viewBox, viewBoxHeight = height viewBox\<rparr>"
  have res: "generateWigglyPath_fl ar fmt options = Some ?result"
    by (rule generateWigglyPath_fl_eq [OF vb run])
  have two: "2 \<le> length (l_allPoints locals)"
    using facts(7,8,22) by simp
  have data: "pathData ?result = generateSmoothPath_fl ar fmt (l_allPoints locals) @ '' Z''"
    by simp
  have cmds: "pathData ?result
      = pathText fmt (smoothCommands_fl ar (l_allPoints locals) @ [ClosePath])"
    using closed_path_commands_fl [OF two, of ar fmt] by simp
  have l: "l_left locals = fadd ar (waveAmplitude options) (borderWidth options)"
    and t: "l_top locals = l_left locals"
    and r: "l_right locals = fsub ar (width viewBox) (l_left locals)"
    and b: "l_bottom locals = fsub ar (height viewBox) (l_left locals)"
    by (simp_all add: facts(1-5))
  have dropped: "length (l_allPoints locals) + 4
              = length (l_topPoints locals) + length (l_rightPoints locals)
                  + length (l_bottomPoints locals) + length (l_leftPoints locals)"
    by (simp add: facts(13-16,22))
  have start: "hd (smoothCommands_fl ar (l_allPoints locals))
              = MoveTo \<lparr>px = l_left locals, py = l_top locals\<rparr>"
    by (simp add: smoothCommands_fl_hd facts(23))
  have "wigglyLocals_fl ar viewBox options = Some locals
          \<and> generateWigglyPath_fl ar fmt options = Some ?result
          \<and> l_left locals = fadd ar (waveAmplitude options) (borderWidth options)
          \<and> l_top locals = l_left locals
          \<and> l_right locals = fsub ar (width viewBox) (l_left locals)
          \<and> l_bottom locals = fsub ar (height viewBox) (l_left locals)
          \<and> calculateSegments_fl ar (fsub ar (l_right locals) (l_left locals))
                (fsub ar (l_bottom locals) (l_top locals)) (waveSegmentSize options)
                = Some (l_segments locals)
          \<and> generateEdgePoints_fl ar (l_left locals) (l_top locals) (l_right locals)
                (l_top locals) (horizontal (l_segments locals)) (waveAmplitude options)
                (lit ar EDGE_SEEDS_top) \<lparr>px = 0, py = - 1\<rparr> = Some (l_topPoints locals)
          \<and> generateEdgePoints_fl ar (l_right locals) (l_top locals) (l_right locals)
                (l_bottom locals) (vertical (l_segments locals)) (waveAmplitude options)
                (lit ar EDGE_SEEDS_right) \<lparr>px = 1, py = 0\<rparr> = Some (l_rightPoints locals)
          \<and> generateEdgePoints_fl ar (l_right locals) (l_bottom locals) (l_left locals)
                (l_bottom locals) (horizontal (l_segments locals)) (waveAmplitude options)
                (lit ar EDGE_SEEDS_bottom) \<lparr>px = 0, py = 1\<rparr> = Some (l_bottomPoints locals)
          \<and> generateEdgePoints_fl ar (l_left locals) (l_bottom locals) (l_left locals)
                (l_top locals) (vertical (l_segments locals)) (waveAmplitude options)
                (lit ar EDGE_SEEDS_left) \<lparr>px = - 1, py = 0\<rparr> = Some (l_leftPoints locals)
          \<and> l_allPoints locals
              = l_topPoints locals @ tl (l_rightPoints locals) @ tl (l_bottomPoints locals)
                  @ butlast (tl (l_leftPoints locals))
          \<and> length (l_allPoints locals) + 4
              = length (l_topPoints locals) + length (l_rightPoints locals)
                  + length (l_bottomPoints locals) + length (l_leftPoints locals)
          \<and> hd (l_topPoints locals) = \<lparr>px = l_left locals, py = l_top locals\<rparr>
          \<and> hd (l_rightPoints locals) = \<lparr>px = l_right locals, py = l_top locals\<rparr>
          \<and> hd (l_bottomPoints locals) = \<lparr>px = l_right locals, py = l_bottom locals\<rparr>
          \<and> hd (l_leftPoints locals) = \<lparr>px = l_left locals, py = l_bottom locals\<rparr>
          \<and> pathData ?result = generateSmoothPath_fl ar fmt (l_allPoints locals) @ '' Z''
          \<and> pathData ?result
              = pathText fmt (smoothCommands_fl ar (l_allPoints locals) @ [ClosePath])
          \<and> ClosePath \<notin> set (smoothCommands_fl ar (l_allPoints locals))
          \<and> hd (smoothCommands_fl ar (l_allPoints locals))
              = MoveTo \<lparr>px = l_left locals, py = l_top locals\<rparr>"
    by (intro conjI run res l t r b facts(6) facts(9-12) facts(21) dropped facts(17-20)
        data cmds smoothCommands_fl_open start)
  then show "\<exists>locals result.
            wigglyLocals_fl ar viewBox options = Some locals
          \<and> generateWigglyPath_fl ar fmt options = Some result
          \<and> l_left locals = fadd ar (waveAmplitude options) (borderWidth options)
          \<and> l_top locals = l_left locals
          \<and> l_right locals = fsub ar (width viewBox) (l_left locals)
          \<and> l_bottom locals = fsub ar (height viewBox) (l_left locals)
          \<and> calculateSegments_fl ar (fsub ar (l_right locals) (l_left locals))
                (fsub ar (l_bottom locals) (l_top locals)) (waveSegmentSize options)
                = Some (l_segments locals)
          \<and> generateEdgePoints_fl ar (l_left locals) (l_top locals) (l_right locals)
                (l_top locals) (horizontal (l_segments locals)) (waveAmplitude options)
                (lit ar EDGE_SEEDS_top) \<lparr>px = 0, py = - 1\<rparr> = Some (l_topPoints locals)
          \<and> generateEdgePoints_fl ar (l_right locals) (l_top locals) (l_right locals)
                (l_bottom locals) (vertical (l_segments locals)) (waveAmplitude options)
                (lit ar EDGE_SEEDS_right) \<lparr>px = 1, py = 0\<rparr> = Some (l_rightPoints locals)
          \<and> generateEdgePoints_fl ar (l_right locals) (l_bottom locals) (l_left locals)
                (l_bottom locals) (horizontal (l_segments locals)) (waveAmplitude options)
                (lit ar EDGE_SEEDS_bottom) \<lparr>px = 0, py = 1\<rparr> = Some (l_bottomPoints locals)
          \<and> generateEdgePoints_fl ar (l_left locals) (l_bottom locals) (l_left locals)
                (l_top locals) (vertical (l_segments locals)) (waveAmplitude options)
                (lit ar EDGE_SEEDS_left) \<lparr>px = - 1, py = 0\<rparr> = Some (l_leftPoints locals)
          \<and> l_allPoints locals
              = l_topPoints locals @ tl (l_rightPoints locals) @ tl (l_bottomPoints locals)
                  @ butlast (tl (l_leftPoints locals))
          \<and> length (l_allPoints locals) + 4
              = length (l_topPoints locals) + length (l_rightPoints locals)
                  + length (l_bottomPoints locals) + length (l_leftPoints locals)
          \<and> hd (l_topPoints locals) = \<lparr>px = l_left locals, py = l_top locals\<rparr>
          \<and> hd (l_rightPoints locals) = \<lparr>px = l_right locals, py = l_top locals\<rparr>
          \<and> hd (l_bottomPoints locals) = \<lparr>px = l_right locals, py = l_bottom locals\<rparr>
          \<and> hd (l_leftPoints locals) = \<lparr>px = l_left locals, py = l_bottom locals\<rparr>
          \<and> pathData result = generateSmoothPath_fl ar fmt (l_allPoints locals) @ '' Z''
          \<and> pathData result
              = pathText fmt (smoothCommands_fl ar (l_allPoints locals) @ [ClosePath])
          \<and> ClosePath \<notin> set (smoothCommands_fl ar (l_allPoints locals))
          \<and> hd (smoothCommands_fl ar (l_allPoints locals))
              = MoveTo \<lparr>px = l_left locals, py = l_top locals\<rparr>"
    by (intro exI)
next
  have size: "waveSegmentSize options \<noteq> 0"
    using valid by (simp add: validOptions_def)
  obtain box where box:
    "calculateViewBox_fl exact (targetWidth options) (targetHeight options) = Some box"
    unfolding calculateViewBox_fl_exact using valid by (rule validOptions_viewBox)
  obtain locals where run: "wigglyLocals_fl exact box options = Some locals"
    using wigglyLocals_fl_defined [OF size] by blast
  let ?result = "\<lparr>pathData = generateSmoothPath_fl exact fmt (l_allPoints locals) @ '' Z'',
                    viewBoxWidth = width box, viewBoxHeight = height box\<rparr>"
  have res: "generateWigglyPath_fl exact fmt options = Some ?result"
    by (rule generateWigglyPath_fl_eq [OF box run])
  have data: "pathData ?result = generateSmoothPath_fl exact fmt (l_allPoints locals) @ '' Z''"
    by simp
  note joins = exact_junctions [OF size run]
  have once: "l_left locals \<noteq> l_right locals \<and> l_top locals \<noteq> l_bottom locals \<longrightarrow>
                count_list (l_allPoints locals) \<lparr>px = l_left locals, py = l_top locals\<rparr> = 1
              \<and> count_list (l_allPoints locals) \<lparr>px = l_right locals, py = l_top locals\<rparr> = 1
              \<and> count_list (l_allPoints locals) \<lparr>px = l_right locals, py = l_bottom locals\<rparr> = 1
              \<and> count_list (l_allPoints locals) \<lparr>px = l_left locals, py = l_bottom locals\<rparr> = 1"
  proof (intro impI conjI)
    assume d: "l_left locals \<noteq> l_right locals \<and> l_top locals \<noteq> l_bottom locals"
    then have lr: "l_left locals \<noteq> l_right locals" and tb: "l_top locals \<noteq> l_bottom locals"
      by simp_all
    note c = exact_corners [OF size run lr tb]
    show "count_list (l_allPoints locals) \<lparr>px = l_left locals, py = l_top locals\<rparr> = 1"
      by (rule c) simp
    show "count_list (l_allPoints locals) \<lparr>px = l_right locals, py = l_top locals\<rparr> = 1"
      by (rule c) simp
    show "count_list (l_allPoints locals) \<lparr>px = l_right locals, py = l_bottom locals\<rparr> = 1"
      by (rule c) simp
    show "count_list (l_allPoints locals) \<lparr>px = l_left locals, py = l_bottom locals\<rparr> = 1"
      by (rule c) simp
  qed
  have "calculateViewBox_fl exact (targetWidth options) (targetHeight options) = Some box
          \<and> wigglyLocals_fl exact box options = Some locals
          \<and> generateWigglyPath_fl exact fmt options = Some ?result
          \<and> pathData ?result = generateSmoothPath_fl exact fmt (l_allPoints locals) @ '' Z''
          \<and> hd (l_rightPoints locals) = last (l_topPoints locals)
          \<and> hd (l_bottomPoints locals) = last (l_rightPoints locals)
          \<and> hd (l_leftPoints locals) = last (l_bottomPoints locals)
          \<and> last (l_leftPoints locals) = hd (l_topPoints locals)
          \<and> (l_left locals \<noteq> l_right locals \<and> l_top locals \<noteq> l_bottom locals \<longrightarrow>
                count_list (l_allPoints locals) \<lparr>px = l_left locals, py = l_top locals\<rparr> = 1
              \<and> count_list (l_allPoints locals) \<lparr>px = l_right locals, py = l_top locals\<rparr> = 1
              \<and> count_list (l_allPoints locals) \<lparr>px = l_right locals, py = l_bottom locals\<rparr> = 1
              \<and> count_list (l_allPoints locals) \<lparr>px = l_left locals, py = l_bottom locals\<rparr> = 1)"
    by (intro conjI box run res data joins once)
  then show "\<exists>box locals result.
            calculateViewBox_fl exact (targetWidth options) (targetHeight options) = Some box
          \<and> wigglyLocals_fl exact box options = Some locals
          \<and> generateWigglyPath_fl exact fmt options = Some result
          \<and> pathData result = generateSmoothPath_fl exact fmt (l_allPoints locals) @ '' Z''
          \<and> hd (l_rightPoints locals) = last (l_topPoints locals)
          \<and> hd (l_bottomPoints locals) = last (l_rightPoints locals)
          \<and> hd (l_leftPoints locals) = last (l_bottomPoints locals)
          \<and> last (l_leftPoints locals) = hd (l_topPoints locals)
          \<and> (l_left locals \<noteq> l_right locals \<and> l_top locals \<noteq> l_bottom locals \<longrightarrow>
                count_list (l_allPoints locals) \<lparr>px = l_left locals, py = l_top locals\<rparr> = 1
              \<and> count_list (l_allPoints locals) \<lparr>px = l_right locals, py = l_top locals\<rparr> = 1
              \<and> count_list (l_allPoints locals) \<lparr>px = l_right locals, py = l_bottom locals\<rparr> = 1
              \<and> count_list (l_allPoints locals) \<lparr>px = l_left locals, py = l_bottom locals\<rparr> = 1)"
    by (intro exI)
qed

section \<open>The path assembler on three runs\<close>

lemma flat_point:
  assumes ar: "rounding ar" and c: "rnd ar c = c"
  shows "edgePoint_fl ar c c (fdiv ar (fsub ar c c) n) (fdiv ar (fsub ar c c) n) segments 0 seed
           perpDirection i = \<lparr>px = c, py = c\<rparr>"
  using c
  by (simp add: edgePoint_fl_def Let_def getOrganicOffset_fl_zero [OF ar] fadd_def fmul_def
      fsub_def fdiv_def rounding_zero [OF ar])

lemma flat_edge:
  assumes ar: "rounding ar" and c: "rnd ar c = c" and n: "0 \<le> segments"
  shows "generateEdgePoints_fl ar c c c c segments 0 seed perpDirection
           = (if segments = 0 then None
              else Some (replicate (nat segments + 1) \<lparr>px = c, py = c\<rparr>))"
proof (cases "segments = 0")
  case True
  then show ?thesis by (simp add: generateEdgePoints_fl_def)
next
  case False
  have "map (edgePoint_fl ar c c (fdiv ar (fsub ar c c) (of_int segments))
               (fdiv ar (fsub ar c c) (of_int segments)) segments 0 seed perpDirection)
          [0..segments]
        = map (\<lambda>i. \<lparr>px = c, py = c\<rparr>) [0..segments]"
    by (simp add: flat_point [OF ar c])
  also have "\<dots> = replicate (nat segments + 1) \<lparr>px = c, py = c\<rparr>"
    using n by (simp add: map_replicate_const nat_add_distrib)
  finally show ?thesis
    using False by (simp add: generateEdgePoints_fl_eq)
qed

lemma flat_locals:
  assumes ar: "rounding ar" and r200: "rnd ar 200 = 200"
  shows "wigglyLocals_fl ar \<lparr>width = 400, height = 400\<rparr>
           \<lparr>waveAmplitude = 0, waveSegmentSize = 25, borderWidth = 200,
            targetWidth = 300, targetHeight = 300\<rparr>
         = Some \<lparr>l_padding = 200, l_left = 200, l_right = 200, l_top = 200, l_bottom = 200,
             l_segments = \<lparr>horizontal = 4, vertical = 4\<rparr>,
             l_topPoints = replicate 5 \<lparr>px = 200, py = 200\<rparr>,
             l_rightPoints = replicate 5 \<lparr>px = 200, py = 200\<rparr>,
             l_bottomPoints = replicate 5 \<lparr>px = 200, py = 200\<rparr>,
             l_leftPoints = replicate 5 \<lparr>px = 200, py = 200\<rparr>,
             l_allPoints = replicate 16 \<lparr>px = 200, py = 200\<rparr>\<rparr>"
proof -
  have p: "fadd ar 0 200 = 200" and r: "fsub ar 400 200 = 200"
    and d: "fsub ar 200 200 = 0" and q: "fdiv ar 0 25 = 0"
    using r200 by (simp_all add: fadd_def fsub_def fdiv_def rounding_zero [OF ar])
  have segs: "calculateSegments_fl ar 0 0 25 = Some \<lparr>horizontal = 4, vertical = 4\<rparr>"
    by (simp add: calculateSegments_fl_def q)
  have edge: "generateEdgePoints_fl ar 200 200 200 200 4 0 seed perpDirection
      = Some (replicate 5 \<lparr>px = 200, py = 200\<rparr>)" for seed perpDirection
    using flat_edge [OF ar r200, of 4 seed perpDirection] by simp
  have five: "replicate 5 x = [x, x, x, x, x]" for x :: point
    by (simp add: numeral_eq_Suc)
  have sixteen: "replicate 16 x = [x, x, x, x, x, x, x, x, x, x, x, x, x, x, x, x]" for x :: point
    by (simp add: numeral_eq_Suc)
  have edge': "generateEdgePoints_fl ar 200 200 200 200 4 0 seed perpDirection
      = Some [\<lparr>px = 200, py = 200\<rparr>, \<lparr>px = 200, py = 200\<rparr>, \<lparr>px = 200, py = 200\<rparr>,
          \<lparr>px = 200, py = 200\<rparr>, \<lparr>px = 200, py = 200\<rparr>]" for seed perpDirection
    unfolding edge five ..
  show ?thesis
    unfolding wigglyLocals_fl_def Let_def five sixteen
    by (simp add: p r d segs edge' slice_from_1 slice_1_minus_1)
qed

text \<open>
  Claim C8 as stated has no shared corner twice for every valid parameter set. Amplitude
  0, segment size 25, border width 200 and a square target of 300 are valid; the viewBox
  is 400 by 400, the padding 200, the rectangle is the single point (200, 200), every edge
  is that point five times, and the assembled sequence is that point 16 times: the corner
  (left, top) occurs 16 times, in doubles and in exact arithmetic.
\<close>

theorem corner_repeated_on_flat_rectangle:
  "validOptions \<lparr>waveAmplitude = 0, waveSegmentSize = 25, borderWidth = 200,
                 targetWidth = 300, targetHeight = 300\<rparr>
   \<and> (\<forall>s. \<exists>locals.
         calculateViewBox_fl (double s) 300 300 = Some \<lparr>width = 400, height = 400\<rparr>
       \<and> wigglyLocals_fl (double s) \<lparr>width = 400, height = 400\<rparr>
           \<lparr>waveAmplitude = 0, waveSegmentSize = 25, borderWidth = 200,
            targetWidth = 300, targetHeight = 300\<rparr> = Some locals
       \<and> l_topPoints locals = replicate 5 \<lparr>px = 200, py = 200\<rparr>
       \<and> l_rightPoints locals = replicate 5 \<lparr>px = 200, py = 200\<rparr>
       \<and> l_bottomPoints locals = replicate 5 \<lparr>px = 200, py = 200\<rparr>
       \<and> l_leftPoints locals = replicate 5 \<lparr>px = 200, py = 200\<rparr>
       \<and> l_allPoints locals = replicate 16 \<lparr>px = 200, py = 200\<rparr>
       \<and> count_list (l_allPoints locals) \<lparr>px = l_left locals, py = l_top locals\<rparr> = 16)
   \<and> (\<exists>locals.
         calculateViewBox_fl exact 300 300 = Some \<lparr>width = 400, height = 400\<rparr>
       \<and> wigglyLocals_fl exact \<lparr>width = 400, height = 400\<rparr>
           \<lparr>waveAmplitude = 0, waveSegmentSize = 25, borderWidth = 200,
            targetWidth = 300, targetHeight = 300\<rparr> = Some locals
       \<and> l_allPoints locals = replicate 16 \<lparr>px = 200, py = 200\<rparr>
       \<and> count_list (l_allPoints locals) \<lparr>px = l_left locals, py = l_top locals\<rparr> = 16)"
proof (intro conjI allI)
  show "validOptions \<lparr>waveAmplitude = 0, waveSegmentSize = 25, borderWidth = 200,
                 targetWidth = 300, targetHeight = 300\<rparr>"
    by (simp add: validOptions_def)
next
  fix s :: "real \<Rightarrow> real"
  have r200: "rnd (double s) 200 = 200"
    by (simp add: double_ops f64_numeral)
  have box: "calculateViewBox_fl (double s) 300 300 = Some \<lparr>width = 400, height = 400\<rparr>"
    using calculateViewBox_double_square [of s] by (simp add: BASE_VIEWBOX_SIZE_def)
  have count: "count_list (replicate 16 \<lparr>px = 200, py = 200\<rparr>) \<lparr>px = 200, py = 200 :: real\<rparr> = 16"
    by (simp add: numeral_eq_Suc)
  show "\<exists>locals.
         calculateViewBox_fl (double s) 300 300 = Some \<lparr>width = 400, height = 400\<rparr>
       \<and> wigglyLocals_fl (double s) \<lparr>width = 400, height = 400\<rparr>
           \<lparr>waveAmplitude = 0, waveSegmentSize = 25, borderWidth = 200,
            targetWidth = 300, targetHeight = 300\<rparr> = Some locals
       \<and> l_topPoints locals = replicate 5 \<lparr>px = 200, py = 200\<rparr>
       \<and> l_rightPoints locals = replicate 5 \<lparr>px = 200, py = 200\<rparr>
       \<and> l_bottomPoints locals = replicate 5 \<lparr>px = 200, py = 200\<rparr>
       \<and> l_leftPoints locals = replicate 5 \<lparr>px = 200, py = 200\<rparr>
       \<and> l_allPoints locals = replicate 16 \<lparr>px = 200, py = 200\<rparr>
       \<and> count_list (l_allPoints locals) \<lparr>px = l_left locals, py = l_top locals\<rparr> = 16"
    unfolding flat_locals [OF rounding_double r200] using box count by simp
next
  have r200: "rnd exact 200 = 200" by simp
  have box: "calculateViewBox_fl exact 300 300 = Some \<lparr>width = 400, height = 400\<rparr>"
    by (simp add: calculateViewBox_fl_def BASE_VIEWBOX_SIZE_def)
  have count: "count_list (replicate 16 \<lparr>px = 200, py = 200\<rparr>) \<lparr>px = 200, py = 200 :: real\<rparr> = 16"
    by (simp add: numeral_eq_Suc)
  show "\<exists>locals.
         calculateViewBox_fl exact 300 300 = Some \<lparr>width = 400, height = 400\<rparr>
       \<and> wigglyLocals_fl exact \<lparr>width = 400, height = 400\<rparr>
           \<lparr>waveAmplitude = 0, waveSegmentSize = 25, borderWidth = 200,
            targetWidth = 300, targetHeight = 300\<rparr> = Some locals
       \<and> l_allPoints locals = replicate 16 \<lparr>px = 200, py = 200\<rparr>
       \<and> count_list (l_allPoints locals) \<lparr>px = l_left locals, py = l_top locals\<rparr> = 16"
    unfolding flat_locals [OF rounding_exact r200] using box count by simp
qed

lemma f64_784_35: "f64 (784 / 35) = 6305039478318694 / 2 ^ 48"
  using f64_eval [of 4 "784 / 35" 6305039478318694] by simp

lemma f64_784_22: "f64 (784 / 22) = 5015372312298961 / 2 ^ 47"
  using f64_eval [of 5 "784 / 22" 5015372312298961] by simp

lemma f64_dx22: "f64 (5015372312298961 / 2 ^ 47 * 22) = 6896136929411071 / 2 ^ 43"
  using f64_eval [of 9 "5015372312298961 / 2 ^ 47 * 22" 6896136929411071] by simp

lemma f64_last22: "f64 (8 + 6896136929411071 / 2 ^ 43) = 6966505673588735 / 2 ^ 43"
proof -
  have e: "(8 + 6896136929411071 / 2 ^ 43 :: real) = 6966505673588735 / 2 ^ 43" by simp
  show ?thesis
    unfolding e
    using f64_representable [of "6966505673588735 / 2 ^ 43" 6966505673588735 "- 43"] by simp
qed

lemma f64_small_numerals:
  "f64 8 = 8" "f64 784 = 784" "f64 792 = 792" "f64 800 = 800" "f64 2 = 2" "f64 392 = 392"
  by (simp_all add: f64_numeral)

text \<open>
  In doubles the last point of an edge need not be the corner the next edge starts from.
  With amplitude 4, segment size 35, border width 4 and a target of 800 by 400 the top edge
  has 22 segments and ends in \<open>(6966505673588735 / 2^43, 8)\<close>, printed 791.9999999999999,
  while the right edge starts at (792, 8): the point dropped at this junction is not a
  repetition of the one kept.
\<close>

lemma junction_not_shared_in_doubles:
  "\<forall>s. \<exists>locals.
      validOptions \<lparr>waveAmplitude = 4, waveSegmentSize = 35, borderWidth = 4,
                    targetWidth = 800, targetHeight = 400\<rparr>
    \<and> calculateViewBox_fl (double s) 800 400 = Some \<lparr>width = 800, height = 400\<rparr>
    \<and> wigglyLocals_fl (double s) \<lparr>width = 800, height = 400\<rparr>
         \<lparr>waveAmplitude = 4, waveSegmentSize = 35, borderWidth = 4,
          targetWidth = 800, targetHeight = 400\<rparr> = Some locals
    \<and> l_left locals = 8 \<and> l_top locals = 8 \<and> l_right locals = 792
    \<and> horizontal (l_segments locals) = 22
    \<and> last (l_topPoints locals) = \<lparr>px = 6966505673588735 / 2 ^ 43, py = 8\<rparr>
    \<and> hd (l_rightPoints locals) = \<lparr>px = 792, py = 8\<rparr>
    \<and> hd (l_rightPoints locals) \<noteq> last (l_topPoints locals)"
proof
  fix s :: "real \<Rightarrow> real"
  let ?ar = "double s"
  let ?options = "\<lparr>waveAmplitude = 4, waveSegmentSize = 35, borderWidth = 4,
                    targetWidth = 800, targetHeight = 400\<rparr>"
  let ?vb = "\<lparr>width = 800, height = 400\<rparr>"
  have valid: "validOptions ?options" by (simp add: validOptions_def)
  have size: "waveSegmentSize ?options \<noteq> 0" by simp
  have box: "calculateViewBox_fl ?ar 800 400 = Some ?vb"
    by (simp add: calculateViewBox_fl_def double_ops BASE_VIEWBOX_SIZE_def f64_small_numerals)
  obtain locals where run: "wigglyLocals_fl ?ar ?vb ?options = Some locals"
    using wigglyLocals_fl_defined [OF size] by blast
  note facts = wigglyLocals_fl_run [OF size rounding_double run]
  have p: "l_padding locals = 8"
    unfolding facts(1) by (simp add: double_ops f64_small_numerals)
  have l: "l_left locals = 8" and t: "l_top locals = 8"
    using facts(2,4) p by simp_all
  have r: "l_right locals = 792"
    unfolding facts(3) p by (simp add: double_ops f64_small_numerals)
  have hl: "fsub ?ar 792 8 = 784"
    by (simp add: double_ops f64_small_numerals)
  have q: "fdiv ?ar 784 35 = 6305039478318694 / 2 ^ 48"
    unfolding double_ops by (rule f64_784_35)
  have "Some (l_segments locals)
          = calculateSegments_fl ?ar 784 (fsub ?ar (l_bottom locals) (l_top locals)) 35"
    using facts(6) unfolding l r hl by simp
  then have "l_segments locals
          = \<lparr>horizontal = max 4 (round (fdiv ?ar 784 35)),
             vertical = max 4 (round (fdiv ?ar (fsub ?ar (l_bottom locals) (l_top locals)) 35))\<rparr>"
    by (simp add: calculateSegments_fl_eq)
  then have h: "horizontal (l_segments locals) = 22"
    by (simp add: q round_def)
  have h1: "1 \<le> horizontal (l_segments locals)" using h by simp
  note top = edge_shape_fl [OF h1 facts(9)]
  have dx: "fdiv ?ar 784 (of_int 22) = 5015372312298961 / 2 ^ 47"
    unfolding double_ops of_int_numeral by (rule f64_784_22)
  have x: "fadd ?ar 8 (fmul ?ar (5015372312298961 / 2 ^ 47) (of_int 22))
             = 6966505673588735 / 2 ^ 43"
    unfolding double_ops of_int_numeral f64_dx22 by (rule f64_last22)
  have y: "fadd ?ar 8 (fmul ?ar (fdiv ?ar (fsub ?ar 8 8) (of_int 22)) (of_int 22)) = 8"
    by (simp add: double_ops f64_small_numerals)
  have last: "last (l_topPoints locals) = \<lparr>px = 6966505673588735 / 2 ^ 43, py = 8\<rparr>"
    unfolding top(3) l t r h hl dx x y ..
  have hd: "hd (l_rightPoints locals) = \<lparr>px = 792, py = 8\<rparr>"
    unfolding facts(18) r t ..
  have ne: "hd (l_rightPoints locals) \<noteq> last (l_topPoints locals)"
    unfolding hd last by simp
  show "\<exists>locals.
      validOptions ?options
    \<and> calculateViewBox_fl (double s) 800 400 = Some ?vb
    \<and> wigglyLocals_fl (double s) ?vb ?options = Some locals
    \<and> l_left locals = 8 \<and> l_top locals = 8 \<and> l_right locals = 792
    \<and> horizontal (l_segments locals) = 22
    \<and> last (l_topPoints locals) = \<lparr>px = 6966505673588735 / 2 ^ 43, py = 8\<rparr>
    \<and> hd (l_rightPoints locals) = \<lparr>px = 792, py = 8\<rparr>
    \<and> hd (l_rightPoints locals) \<noteq> last (l_topPoints locals)"
    by (rule exI [of _ locals]) (intro conjI valid box run l t r h last hd ne)
qed

lemma f64_default_right:
  "f64 (4691249611844266 / 2 ^ 43 - 8) = 4620880867666602 / 2 ^ 43"
proof -
  have e: "(4691249611844266 / 2 ^ 43 - 8 :: real) = 4620880867666602 / 2 ^ 43" by simp
  show ?thesis
    unfolding e
    using f64_representable [of "4620880867666602 / 2 ^ 43" 4620880867666602 "- 43"] by simp
qed

theorem assembled_points_fl_closed_witness:
  "\<forall>s fmt.
     validOptions defaultOptions \<and> rounding (double s)
   \<and> calculateViewBox_fl (double s) (targetWidth defaultOptions) (targetHeight defaultOptions)
       = Some \<lparr>width = 4691249611844266 / 2 ^ 43, height = 400\<rparr>
   \<and> (\<exists>locals result.
         wigglyLocals_fl (double s) \<lparr>width = 4691249611844266 / 2 ^ 43, height = 400\<rparr>
           defaultOptions = Some locals
       \<and> generateWigglyPath_fl (double s) fmt defaultOptions = Some result
       \<and> l_left locals = 8 \<and> l_top locals = 8
       \<and> l_right locals = 4620880867666602 / 2 ^ 43 \<and> l_bottom locals = 392
       \<and> hd (l_topPoints locals) = \<lparr>px = 8, py = 8\<rparr>
       \<and> hd (l_rightPoints locals) = \<lparr>px = 4620880867666602 / 2 ^ 43, py = 8\<rparr>
       \<and> hd (l_bottomPoints locals) = \<lparr>px = 4620880867666602 / 2 ^ 43, py = 392\<rparr>
       \<and> hd (l_leftPoints locals) = \<lparr>px = 8, py = 392\<rparr>
       \<and> l_allPoints locals
           = l_topPoints locals @ tl (l_rightPoints locals) @ tl (l_bottomPoints locals)
               @ butlast (tl (l_leftPoints locals))
       \<and> pathData result
           = pathText fmt (smoothCommands_fl (double s) (l_allPoints locals) @ [ClosePath])
       \<and> hd (smoothCommands_fl (double s) (l_allPoints locals)) = MoveTo \<lparr>px = 8, py = 8\<rparr>)
   \<and> (\<exists>locals.
         wigglyLocals_fl exact \<lparr>width = 1600 / 3, height = 400\<rparr> defaultOptions = Some locals
       \<and> l_left locals = 8 \<and> l_top locals = 8
       \<and> l_right locals = 1576 / 3 \<and> l_bottom locals = 392
       \<and> count_list (l_allPoints locals) \<lparr>px = 8, py = 8\<rparr> = 1
       \<and> count_list (l_allPoints locals) \<lparr>px = 1576 / 3, py = 8\<rparr> = 1
       \<and> count_list (l_allPoints locals) \<lparr>px = 1576 / 3, py = 392\<rparr> = 1
       \<and> count_list (l_allPoints locals) \<lparr>px = 8, py = 392\<rparr> = 1)"
proof (intro allI)
  fix s :: "real \<Rightarrow> real" and fmt :: "real \<Rightarrow> string"
  let ?ar = "double s"
  let ?vb = "\<lparr>width = 4691249611844266 / 2 ^ 43, height = 400\<rparr>"
  have vb: "calculateViewBox_fl ?ar (targetWidth defaultOptions) (targetHeight defaultOptions)
      = Some ?vb"
    using viewBox_400_300 [of s] by (simp add: defaultOptions_def)
  note run = assembled_points_fl_closed [OF default_valid rounding_double vb, of fmt]
  from run obtain locals result where
    g1: "wigglyLocals_fl ?ar ?vb defaultOptions = Some locals"
    and g2: "generateWigglyPath_fl ?ar fmt defaultOptions = Some result"
    and l: "l_left locals = fadd ?ar (waveAmplitude defaultOptions) (borderWidth defaultOptions)"
    and t: "l_top locals = l_left locals"
    and r: "l_right locals = fsub ?ar (width ?vb) (l_left locals)"
    and b: "l_bottom locals = fsub ?ar (height ?vb) (l_left locals)"
    and all: "l_allPoints locals
           = l_topPoints locals @ tl (l_rightPoints locals) @ tl (l_bottomPoints locals)
               @ butlast (tl (l_leftPoints locals))"
    and h1: "hd (l_topPoints locals) = \<lparr>px = l_left locals, py = l_top locals\<rparr>"
    and h2: "hd (l_rightPoints locals) = \<lparr>px = l_right locals, py = l_top locals\<rparr>"
    and h3: "hd (l_bottomPoints locals) = \<lparr>px = l_right locals, py = l_bottom locals\<rparr>"
    and h4: "hd (l_leftPoints locals) = \<lparr>px = l_left locals, py = l_bottom locals\<rparr>"
    and cmds: "pathData result
           = pathText fmt (smoothCommands_fl ?ar (l_allPoints locals) @ [ClosePath])"
    and start: "hd (smoothCommands_fl ?ar (l_allPoints locals))
           = MoveTo \<lparr>px = l_left locals, py = l_top locals\<rparr>"
    by blast
  have l8: "l_left locals = 8"
    unfolding l by (simp add: defaultOptions_def double_ops f64_numeral)
  have t8: "l_top locals = 8" using t l8 by simp
  have r': "l_right locals = 4620880867666602 / 2 ^ 43"
    unfolding r l8 by (simp only: double_ops viewBox.select_convs f64_default_right)
  have b': "l_bottom locals = 392"
    unfolding b l8 by (simp add: double_ops f64_numeral)
  have doubles: "wigglyLocals_fl ?ar ?vb defaultOptions = Some locals
       \<and> generateWigglyPath_fl ?ar fmt defaultOptions = Some result
       \<and> l_left locals = 8 \<and> l_top locals = 8
       \<and> l_right locals = 4620880867666602 / 2 ^ 43 \<and> l_bottom locals = 392
       \<and> hd (l_topPoints locals) = \<lparr>px = 8, py = 8\<rparr>
       \<and> hd (l_rightPoints locals) = \<lparr>px = 4620880867666602 / 2 ^ 43, py = 8\<rparr>
       \<and> hd (l_bottomPoints locals) = \<lparr>px = 4620880867666602 / 2 ^ 43, py = 392\<rparr>
       \<and> hd (l_leftPoints locals) = \<lparr>px = 8, py = 392\<rparr>
       \<and> l_allPoints locals
           = l_topPoints locals @ tl (l_rightPoints locals) @ tl (l_bottomPoints locals)
               @ butlast (tl (l_leftPoints locals))
       \<and> pathData result
           = pathText fmt (smoothCommands_fl ?ar (l_allPoints locals) @ [ClosePath])
       \<and> hd (smoothCommands_fl ?ar (l_allPoints locals)) = MoveTo \<lparr>px = 8, py = 8\<rparr>"
    using g1 g2 l8 t8 r' b' h1 h2 h3 h4 all cmds start by (simp only: simp_thms)
  from run obtain box locals' where
    box: "calculateViewBox_fl exact (targetWidth defaultOptions) (targetHeight defaultOptions)
            = Some box"
    and e1: "wigglyLocals_fl exact box defaultOptions = Some locals'"
    and once: "l_left locals' \<noteq> l_right locals' \<and> l_top locals' \<noteq> l_bottom locals' \<longrightarrow>
                count_list (l_allPoints locals') \<lparr>px = l_left locals', py = l_top locals'\<rparr> = 1
              \<and> count_list (l_allPoints locals') \<lparr>px = l_right locals', py = l_top locals'\<rparr> = 1
              \<and> count_list (l_allPoints locals') \<lparr>px = l_right locals', py = l_bottom locals'\<rparr> = 1
              \<and> count_list (l_allPoints locals') \<lparr>px = l_left locals', py = l_bottom locals'\<rparr> = 1"
    by blast
  have box': "box = \<lparr>width = 1600 / 3, height = 400\<rparr>"
    using box default_viewBox by (simp add: calculateViewBox_fl_exact defaultOptions_def)
  have e1': "wigglyLocals \<lparr>width = 1600 / 3, height = 400\<rparr> defaultOptions = Some locals'"
    using e1 unfolding box' wigglyLocals_fl_exact .
  note d = default_locals [OF e1']
  have exact_part: "wigglyLocals_fl exact \<lparr>width = 1600 / 3, height = 400\<rparr> defaultOptions
         = Some locals'
       \<and> l_left locals' = 8 \<and> l_top locals' = 8
       \<and> l_right locals' = 1576 / 3 \<and> l_bottom locals' = 392
       \<and> count_list (l_allPoints locals') \<lparr>px = 8, py = 8\<rparr> = 1
       \<and> count_list (l_allPoints locals') \<lparr>px = 1576 / 3, py = 8\<rparr> = 1
       \<and> count_list (l_allPoints locals') \<lparr>px = 1576 / 3, py = 392\<rparr> = 1
       \<and> count_list (l_allPoints locals') \<lparr>px = 8, py = 392\<rparr> = 1"
    using once e1 unfolding box' d(2-5) by simp
  show "validOptions defaultOptions \<and> rounding (double s)
   \<and> calculateViewBox_fl (double s) (targetWidth defaultOptions) (targetHeight defaultOptions)
       = Some \<lparr>width = 4691249611844266 / 2 ^ 43, height = 400\<rparr>
   \<and> (\<exists>locals result.
         wigglyLocals_fl (double s) \<lparr>width = 4691249611844266 / 2 ^ 43, height = 400\<rparr>
           defaultOptions = Some locals
       \<and> generateWigglyPath_fl (double s) fmt defaultOptions = Some result
       \<and> l_left locals = 8 \<and> l_top locals = 8
       \<and> l_right locals = 4620880867666602 / 2 ^ 43 \<and> l_bottom locals = 392
       \<and> hd (l_topPoints locals) = \<lparr>px = 8, py = 8\<rparr>
       \<and> hd (l_rightPoints locals) = \<lparr>px = 4620880867666602 / 2 ^ 43, py = 8\<rparr>
       \<and> hd (l_bottomPoints locals) = \<lparr>px = 4620880867666602 / 2 ^ 43, py = 392\<rparr>
       \<and> hd (l_leftPoints locals) = \<lparr>px = 8, py = 392\<rparr>
       \<and> l_allPoints locals
           = l_topPoints locals @ tl (l_rightPoints locals) @ tl (l_bottomPoints locals)
               @ butlast (tl (l_leftPoints locals))
       \<and> pathData result
           = pathText fmt (smoothCommands_fl (double s) (l_allPoints locals) @ [ClosePath])
       \<and> hd (smoothCommands_fl (double s) (l_allPoints locals)) = MoveTo \<lparr>px = 8, py = 8\<rparr>)
   \<and> (\<exists>locals.
         wigglyLocals_fl exact \<lparr>width = 1600 / 3, height = 400\<rparr> defaultOptions = Some locals
       \<and> l_left locals = 8 \<and> l_top locals = 8
       \<and> l_right locals = 1576 / 3 \<and> l_bottom locals = 392
       \<and> count_list (l_allPoints locals) \<lparr>px = 8, py = 8\<rparr> = 1
       \<and> count_list (l_allPoints locals) \<lparr>px = 1576 / 3, py = 8\<rparr> = 1
       \<and> count_list (l_allPoints locals) \<lparr>px = 1576 / 3, py = 392\<rparr> = 1
       \<and> count_list (l_allPoints locals) \<lparr>px = 8, py = 392\<rparr> = 1)"
    apply (intro conjI default_valid rounding_double vb)
     apply (rule exI [of _ locals], rule exI [of _ result], rule doubles)
    apply (rule exI [of _ locals'], rule exact_part)
    done
qed

end
